theory Spec2Isabelle
  imports Complex_Main
begin

text \<open>
  A model of the order-flow worker \<open>perphive-worker/src/index.ts\<close>: the Book Analyzer
  \<open>analyzeOrderBook\<close>, the Level Detector \<open>detectLevels\<close>, the Whale Consensus Scorer
  \<open>calculateWhaleConsensus\<close>, the Trend Tracker \<open>calculateTrend\<close>, the Signal Synthesizer
  \<open>generateSignal\<close>, and the Aggregation Actor \<open>OrderFlowDO\<close> with its polling loop and its
  request handler. The functions keep the names of the source. What the source reads from
  the outside is an argument of the model: the clock, the books the venues return, the
  sends that fail.
\<close>

section \<open>JavaScript numbers\<close>

text \<open>
  The worker computes with JavaScript numbers, which are IEEE 754 binary64 values. Every
  arithmetic operation returns the exact result rounded to the nearest such value, a tie
  going to the even significand. \<open>rd\<close> is that rounding on the reals: a positive number
  is scaled by a power of two \<open>2 powi e\<close>, \<open>e \<ge> -1074\<close>, until its significand lies in
  \<open>[2^52, 2^53)\<close> (or the least exponent is reached, the subnormal range), the significand
  is rounded to an integer, and the result is scaled back.
\<close>

definition round_even :: "real \<Rightarrow> int" where
  "round_even y =
     (let f = \<lfloor>y\<rfloor>; d = y - of_int f
      in if d < 1 / 2 then f else if 1 / 2 < d then f + 1 else if even f then f else f + 1)"

function scale_down :: "real \<Rightarrow> int \<Rightarrow> real \<times> int" where
  "scale_down m e = (if 2 ^ 53 \<le> m then scale_down (m / 2) (e + 1) else (m, e))"
  by pat_completeness auto
termination
proof (relation "measure (\<lambda>(m, e). nat \<lfloor>m\<rfloor>)")
  show "wf (measure (\<lambda>(m, e). nat \<lfloor>m\<rfloor>))" by simp
next
  fix m :: real and e :: int
  assume m: "2 ^ 53 \<le> m"
  then have "m / 2 \<le> m - 1" by simp
  then have "\<lfloor>m / 2\<rfloor> \<le> \<lfloor>m - 1\<rfloor>" by (rule floor_mono)
  moreover have "1 \<le> \<lfloor>m\<rfloor>" using m by (simp add: le_floor_iff)
  ultimately show "((m / 2, e + 1), (m, e)) \<in> measure (\<lambda>(m, e). nat \<lfloor>m\<rfloor>)"
    by simp
qed

function scale_up :: "real \<Rightarrow> int \<Rightarrow> real \<times> int" where
  "scale_up m e = (if m < 2 ^ 52 \<and> - 1074 < e then scale_up (m * 2) (e - 1) else (m, e))"
  by pat_completeness auto
termination
  by (relation "measure (\<lambda>(m, e). nat (e + 1074))") auto

declare scale_down.simps [simp del] scale_up.simps [simp del]

definition normalize :: "real \<Rightarrow> real \<times> int" where
  "normalize y = (case scale_down y 0 of (m, e) \<Rightarrow> scale_up m e)"

definition rd_pos :: "real \<Rightarrow> real" where
  "rd_pos y = (case normalize y of (m, e) \<Rightarrow> of_int (round_even m) * 2 powi e)"

definition rd :: "real \<Rightarrow> real" where
  "rd x = (if x = 0 then 0 else if 0 < x then rd_pos x else - rd_pos (- x))"

text \<open>
  A number is a finite value, one of the two infinities, or NaN. An operation on finite
  values rounds its exact result with \<open>rd\<close> and overflows to an infinity at \<open>2^1024\<close>
  (\<open>fl\<close>). Division by zero, NaN propagation and comparisons with NaN (all false) are as
  in JavaScript. Zero is unsigned; a zero divisor is taken to be +0, which is what a sum
  started at 0 and a difference of equal values produce.

  Prices and sizes of an order book, and everything computed from them by guarded
  arithmetic, are kept as \<open>real\<close>: each operation is rounded with \<open>rd\<close>, and magnitudes
  are taken to stay below the overflow threshold. A value that comes out of an unguarded
  division is a \<open>jsnum\<close>. A decimal literal of the source, such as \<open>0.6\<close>, denotes the
  nearest binary64 value, \<open>rd 0.6\<close>; integer literals are exact.
\<close>

datatype jsnum = Fin real | PInf | NInf | NaN

definition fl :: "real \<Rightarrow> jsnum" where
  "fl x = (let r = rd x in if 2 ^ 1024 \<le> r then PInf else if r \<le> - (2 ^ 1024) then NInf else Fin r)"

fun js_add :: "jsnum \<Rightarrow> jsnum \<Rightarrow> jsnum" where
  "js_add (Fin a) (Fin b) = fl (a + b)"
| "js_add NaN _ = NaN"
| "js_add _ NaN = NaN"
| "js_add PInf NInf = NaN"
| "js_add NInf PInf = NaN"
| "js_add PInf _ = PInf"
| "js_add _ PInf = PInf"
| "js_add NInf _ = NInf"
| "js_add _ NInf = NInf"

fun js_mul :: "jsnum \<Rightarrow> jsnum \<Rightarrow> jsnum" where
  "js_mul (Fin a) (Fin b) = fl (a * b)"
| "js_mul NaN _ = NaN"
| "js_mul _ NaN = NaN"
| "js_mul PInf (Fin b) = (if b = 0 then NaN else if 0 < b then PInf else NInf)"
| "js_mul NInf (Fin b) = (if b = 0 then NaN else if 0 < b then NInf else PInf)"
| "js_mul (Fin a) PInf = (if a = 0 then NaN else if 0 < a then PInf else NInf)"
| "js_mul (Fin a) NInf = (if a = 0 then NaN else if 0 < a then NInf else PInf)"
| "js_mul PInf PInf = PInf"
| "js_mul NInf NInf = PInf"
| "js_mul PInf NInf = NInf"
| "js_mul NInf PInf = NInf"

fun js_div :: "jsnum \<Rightarrow> jsnum \<Rightarrow> jsnum" where
  "js_div (Fin a) (Fin b) =
     (if b \<noteq> 0 then fl (a / b)
      else if a = 0 then NaN
      else if 0 < a then PInf else NInf)"
| "js_div NaN _ = NaN"
| "js_div _ NaN = NaN"
| "js_div (Fin a) _ = Fin 0"
| "js_div PInf (Fin b) = (if 0 \<le> b then PInf else NInf)"
| "js_div NInf (Fin b) = (if 0 \<le> b then NInf else PInf)"
| "js_div _ _ = NaN"

fun js_lt :: "jsnum \<Rightarrow> jsnum \<Rightarrow> bool" where
  "js_lt (Fin a) (Fin b) = (a < b)"
| "js_lt NaN _ = False"
| "js_lt _ NaN = False"
| "js_lt _ NInf = False"
| "js_lt NInf _ = True"
| "js_lt PInf _ = False"
| "js_lt _ PInf = True"

definition js_gt :: "jsnum \<Rightarrow> jsnum \<Rightarrow> bool" where
  "js_gt x y = js_lt y x"

fun js_abs :: "jsnum \<Rightarrow> jsnum" where
  "js_abs (Fin a) = Fin \<bar>a\<bar>"
| "js_abs PInf = PInf"
| "js_abs NInf = PInf"
| "js_abs NaN = NaN"

fun js_min :: "jsnum \<Rightarrow> jsnum \<Rightarrow> jsnum" where
  "js_min (Fin a) (Fin b) = Fin (min a b)"
| "js_min NaN _ = NaN"
| "js_min _ NaN = NaN"
| "js_min NInf _ = NInf"
| "js_min _ NInf = NInf"
| "js_min PInf y = y"
| "js_min x PInf = x"

text \<open>
  \<open>Math.round\<close> returns the nearest integer, a half going towards plus infinity; on a
  binary64 value this result is exact.
\<close>

definition round_half_up :: "real \<Rightarrow> real" where
  "round_half_up x = of_int \<lfloor>x + 1 / 2\<rfloor>"

fun js_round :: "jsnum \<Rightarrow> jsnum" where
  "js_round (Fin a) = Fin (round_half_up a)"
| "js_round x = x"

section \<open>Data model\<close>

record OrderBook =
  bids :: "(real \<times> real) list"
  asks :: "(real \<times> real) list"
  timestamp :: int

datatype Side = BID | ASK

record WhaleOrder =
  exchange :: string
  side :: Side
  price :: real
  size' :: real

record Analysis =
  imbalance :: jsnum
  bidDepth :: real
  askDepth :: real
  midPrice :: real
  whales :: "WhaleOrder list"

section \<open>Book Analyzer\<close>

text \<open>\<open>xs.slice(0, n).reduce((sum, [_, size]) => sum + size, 0)\<close>\<close>

definition depth :: "nat \<Rightarrow> (real \<times> real) list \<Rightarrow> real" where
  "depth n xs = foldl (\<lambda>sum (_, size). rd (sum + size)) 0 (take n xs)"

text \<open>The two \<open>for\<close> loops that collect whale orders from the best 20 levels of a side.\<close>

definition whalesOf :: "Side \<Rightarrow> real \<Rightarrow> (real \<times> real) list \<Rightarrow> WhaleOrder list" where
  "whalesOf sd whaleThreshold xs =
     map (\<lambda>(p, s). \<lparr>exchange = '''', side = sd, price = p, size' = s\<rparr>)
       (filter (\<lambda>(p, s). s \<ge> whaleThreshold) (take 20 xs))"

definition analyzeOrderBook :: "OrderBook \<Rightarrow> real \<Rightarrow> Analysis" where
  "analyzeOrderBook book whaleThreshold =
     (let bidDepth = depth 10 (bids book);
          askDepth = depth 10 (asks book);
          imbalance = js_div (Fin (rd (bidDepth - askDepth))) (Fin (rd (bidDepth + askDepth)));
          midPrice = (case (bids book, asks book) of
                        ((bp, _) # _, (ap, _) # _) \<Rightarrow> rd (rd (bp + ap) / 2)
                      | _ \<Rightarrow> 0)
      in \<lparr>imbalance = imbalance, bidDepth = bidDepth, askDepth = askDepth,
          midPrice = midPrice,
          whales = whalesOf BID whaleThreshold (bids book)
                   @ whalesOf ASK whaleThreshold (asks book)\<rparr>)"

section \<open>Whale Consensus Scorer\<close>

datatype WhaleSignal = LONG | SHORT | NEUTRAL

record WhaleConsensus =
  signal :: WhaleSignal
  bidSize :: real
  askSize :: real
  bidCount :: nat
  askCount :: nat
  exchangesWithBids :: nat
  exchangesWithAsks :: nat
  strength :: real

text \<open>\<open>ws.reduce((sum, w) => sum + w.size, 0)\<close>\<close>

definition totalWhaleSize :: "WhaleOrder list \<Rightarrow> real" where
  "totalWhaleSize ws = foldl (\<lambda>sum w. rd (sum + size' w)) 0 ws"

text \<open>\<open>new Set(ws.map(w => w.exchange)).size\<close>\<close>

definition distinctExchanges :: "WhaleOrder list \<Rightarrow> nat" where
  "distinctExchanges ws = length (remdups (map exchange ws))"

definition calculateWhaleConsensus :: "WhaleOrder list \<Rightarrow> WhaleConsensus" where
  "calculateWhaleConsensus whaleOrders =
     (let bids = filter (\<lambda>w. side w = BID) whaleOrders;
          asks = filter (\<lambda>w. side w = ASK) whaleOrders;
          bidSize = totalWhaleSize bids;
          askSize = totalWhaleSize asks;
          exchangesWithBids = distinctExchanges bids;
          exchangesWithAsks = distinctExchanges asks;
          totalSize = rd (bidSize + askSize);
          (signal, strength) =
            (if totalSize > 0 then
               (let bidRatio = rd (bidSize / totalSize);
                    (signal, strength) =
                      (if bidRatio > rd 0.6 \<and> exchangesWithBids \<ge> 2 then
                         (WhaleSignal.LONG, min 100 (round_half_up
                            (rd (rd (rd (rd (bidRatio - 0.5) * 100)
                                     + rd (real exchangesWithBids * 15))
                                 + (if length bids \<ge> 3 then 10 else 0)))))
                       else if bidRatio < rd 0.4 \<and> exchangesWithAsks \<ge> 2 then
                         (WhaleSignal.SHORT, min 100 (round_half_up
                            (rd (rd (rd (rd (0.5 - bidRatio) * 100)
                                     + rd (real exchangesWithAsks * 15))
                                 + (if length asks \<ge> 3 then 10 else 0)))))
                       else (WhaleSignal.NEUTRAL, 0));
                    strength = (if signal = WhaleSignal.LONG \<and> exchangesWithBids = 3
                                then min 100 (rd (strength + 15)) else strength);
                    strength = (if signal = WhaleSignal.SHORT \<and> exchangesWithAsks = 3
                                then min 100 (rd (strength + 15)) else strength)
                in (signal, strength))
             else (WhaleSignal.NEUTRAL, 0))
      in \<lparr>signal = signal,
          bidSize = rd (round_half_up (rd (bidSize * 100)) / 100),
          askSize = rd (round_half_up (rd (askSize * 100)) / 100),
          bidCount = length bids,
          askCount = length asks,
          exchangesWithBids = exchangesWithBids,
          exchangesWithAsks = exchangesWithAsks,
          strength = strength\<rparr>)"

text \<open>
  The quantities the specification of the scorer speaks of: the bid and ask whale sizes, and
  bidRatio = bidSize / (bidSize + askSize), 0 if both are 0, the sum and the quotient being
  those of JavaScript numbers.
\<close>

definition whaleBidSize :: "WhaleOrder list \<Rightarrow> real" where
  "whaleBidSize ws = totalWhaleSize (filter (\<lambda>w. side w = BID) ws)"

definition whaleAskSize :: "WhaleOrder list \<Rightarrow> real" where
  "whaleAskSize ws = totalWhaleSize (filter (\<lambda>w. side w = ASK) ws)"

definition bidRatio_spec :: "WhaleOrder list \<Rightarrow> jsnum" where
  "bidRatio_spec ws =
     (if whaleBidSize ws = 0 \<and> whaleAskSize ws = 0 then Fin 0
      else js_div (Fin (whaleBidSize ws)) (Fin (rd (whaleBidSize ws + whaleAskSize ws))))"

definition venuesOn :: "Side \<Rightarrow> WhaleOrder list \<Rightarrow> nat" where
  "venuesOn sd ws = card (exchange ` {w \<in> set ws. side w = sd})"

section \<open>Trend Tracker\<close>

record ImbalanceEntry =
  timestamp :: int
  btcImbalance :: jsnum
  ethImbalance :: jsnum

datatype Trend = BULLISH | BEARISH | NEUTRAL

datatype TrendAsset = Btc | Eth

record TrendResult =
  avg :: jsnum
  trend :: Trend

text \<open>\<open>asset === 'btc' ? h.btcImbalance : h.ethImbalance\<close>\<close>

definition reading :: "TrendAsset \<Rightarrow> ImbalanceEntry \<Rightarrow> jsnum" where
  "reading asset h = (if asset = Btc then btcImbalance h else ethImbalance h)"

text \<open>
  The clock is an input: \<open>now\<close> is the value \<open>Date.now()\<close> returns inside the call,
  in milliseconds.
\<close>

definition calculateTrend :: "int \<Rightarrow> ImbalanceEntry list \<Rightarrow> TrendAsset \<Rightarrow> TrendResult" where
  "calculateTrend now history asset =
     (if length history = 0 then \<lparr>avg = Fin 0, trend = Trend.NEUTRAL\<rparr>
      else
        (let fifteenMinAgo = now - 15 * 60 * 1000;
             recent = filter (\<lambda>h. ImbalanceEntry.timestamp h > fifteenMinAgo) history
         in if length recent = 0 then \<lparr>avg = Fin 0, trend = Trend.NEUTRAL\<rparr>
            else
              (let sum = foldl (\<lambda>s h. js_add s (reading asset h)) (Fin 0) recent;
                   avg = js_div sum (Fin (real (length recent)));
                   bullishCount = length (filter (\<lambda>h. js_gt (reading asset h) (Fin (rd 0.05))) recent);
                   bearishCount = length (filter (\<lambda>h. js_lt (reading asset h) (Fin (- rd 0.05))) recent);
                   totalCount = length recent;
                   trend =
                     (if rd (real bullishCount / real totalCount) > rd 0.6 \<and> js_gt avg (Fin (rd 0.05))
                      then BULLISH
                      else if rd (real bearishCount / real totalCount) > rd 0.6
                              \<and> js_lt avg (Fin (- rd 0.05))
                      then BEARISH
                      else Trend.NEUTRAL)
               in \<lparr>avg = avg, trend = trend\<rparr>)))"

text \<open>
  The quantities the specification of the tracker speaks of: the readings of the last 15
  minutes, their arithmetic mean as JavaScript computes it (the sum taken from left to right,
  then divided by the count), and "strictly more than 60% of the readings satisfy P", stated
  on the counts without a division.
\<close>

definition window15m :: "int \<Rightarrow> ImbalanceEntry list \<Rightarrow> TrendAsset \<Rightarrow> jsnum list" where
  "window15m now history asset =
     map (reading asset) (filter (\<lambda>h. ImbalanceEntry.timestamp h > now - 900000) history)"

definition js_sum :: "jsnum list \<Rightarrow> jsnum" where
  "js_sum xs = foldl js_add (Fin 0) xs"

definition windowMean :: "jsnum list \<Rightarrow> jsnum" where
  "windowMean xs = js_div (js_sum xs) (Fin (real (length xs)))"

definition moreThan60Percent :: "('a \<Rightarrow> bool) \<Rightarrow> 'a list \<Rightarrow> bool" where
  "moreThan60Percent P xs = (5 * length (filter P xs) > 3 * length xs)"

text \<open>
  The test the code makes on the counts, \<open>count / totalCount > 0.6\<close>, on a list of
  readings.
\<close>

definition ratioAbove :: "(jsnum \<Rightarrow> bool) \<Rightarrow> jsnum list \<Rightarrow> bool" where
  "ratioAbove P w = (rd (real (length (filter P w)) / real (length w)) > rd 0.6)"

text \<open>The average the tracker returns for a window: 0 when the window is empty.\<close>

definition windowAverage :: "jsnum list \<Rightarrow> jsnum" where
  "windowAverage w = (if w = [] then Fin 0 else windowMean w)"

definition bullishWindow :: "jsnum list \<Rightarrow> bool" where
  "bullishWindow xs =
     (moreThan60Percent (\<lambda>x. js_gt x (Fin (rd 0.05))) xs
      \<and> js_gt (windowMean xs) (Fin (rd 0.05)))"

definition bearishWindow :: "jsnum list \<Rightarrow> bool" where
  "bearishWindow xs =
     (moreThan60Percent (\<lambda>x. js_lt x (Fin (- rd 0.05))) xs
      \<and> js_lt (windowMean xs) (Fin (- rd 0.05)))"

section \<open>Signal Synthesizer\<close>

record ExchangeData =
  price :: real
  imbalance :: jsnum
  bidDepth :: real
  askDepth :: real
  timestamp :: int

datatype LevelType = wall | round' | cluster

record SupportLevel =
  price :: real
  strength :: real
  type' :: LevelType
  totalSize :: real
  exchangeCount :: nat
  isRoundNumber :: bool

datatype Action = LONG | SHORT | WAIT

record Signal =
  asset :: string
  action :: Action
  confidence :: jsnum
  hyperliquid :: ExchangeData
  okx :: ExchangeData
  kraken :: ExchangeData
  crossExchangeSpread :: real
  combinedImbalance :: jsnum
  imbalance15m :: jsnum
  trend :: Trend
  whaleOrders :: "WhaleOrder list"
  whaleConsensus :: WhaleConsensus
  supportLevels :: "SupportLevel list"
  resistanceLevels :: "SupportLevel list"
  timestamp :: int

definition emptyData :: "int \<Rightarrow> ExchangeData" where
  "emptyData now =
     \<lparr>ExchangeData.price = 0, imbalance = Fin 0, bidDepth = 0, askDepth = 0, timestamp = now\<rparr>"

text \<open>\<open>data || emptyData\<close>: an object is truthy, \<open>null\<close> is not.\<close>

definition orEmpty :: "ExchangeData option \<Rightarrow> int \<Rightarrow> ExchangeData" where
  "orEmpty d now = (case d of Some e \<Rightarrow> e | None \<Rightarrow> emptyData now)"

text \<open>Cross-exchange spread in basis points, Hyperliquid against OKX.\<close>

definition spreadBps :: "ExchangeData \<Rightarrow> ExchangeData \<Rightarrow> real" where
  "spreadBps = (\<lambda>hl okx.
     (if ExchangeData.price hl > 0 \<and> ExchangeData.price okx > 0
      then rd (rd (rd (ExchangeData.price hl - ExchangeData.price okx) / ExchangeData.price okx)
               * 10000)
      else 0))"

text \<open>\<open>[hlData, okxData, krakenData].filter(e => e !== null)\<close>\<close>

definition validExchanges :: "ExchangeData option list \<Rightarrow> ExchangeData list" where
  "validExchanges ds = concat (map (\<lambda>d. case d of Some e \<Rightarrow> [e] | None \<Rightarrow> []) ds)"

definition combinedImbalanceOf :: "ExchangeData list \<Rightarrow> jsnum" where
  "combinedImbalanceOf valid =
     (if length valid > 0
      then js_div (foldl (\<lambda>sum e. js_add sum (ExchangeData.imbalance e)) (Fin 0) valid)
                  (Fin (real (length valid)))
      else Fin 0)"

text \<open>The decision from the 15-minute trend: the action and the confidence before any boost.\<close>

definition trendDecision :: "Trend \<Rightarrow> jsnum \<Rightarrow> Action \<times> jsnum" where
  "trendDecision = (\<lambda>trend imbalance15m.
     (if trend = BULLISH \<and> js_gt imbalance15m (Fin (rd 0.10)) then
        (Action.LONG, js_min (Fin 95) (js_add (Fin 50) (js_mul imbalance15m (Fin 150))))
      else if trend = BEARISH \<and> js_lt imbalance15m (Fin (- rd 0.10)) then
        (Action.SHORT, js_min (Fin 95) (js_add (Fin 50) (js_mul (js_abs imbalance15m) (Fin 150))))
      else (WAIT, js_mul (js_abs imbalance15m) (Fin 100))))"

text \<open>
  \<open>data && ((action === 'LONG' && d.imbalance > 0) || (action === 'SHORT' && d.imbalance < 0))\<close>
\<close>

definition agrees :: "Action \<Rightarrow> ExchangeData option \<Rightarrow> bool" where
  "agrees = (\<lambda>action d.
     (case d of
        None \<Rightarrow> False
      | Some e \<Rightarrow> (action = Action.LONG \<and> js_gt (ExchangeData.imbalance e) (Fin 0))
                  \<or> (action = Action.SHORT \<and> js_lt (ExchangeData.imbalance e) (Fin 0))))"

text \<open>The body of \<open>if (action !== 'WAIT') { ... }\<close>.\<close>

definition boostConfidence ::
  "Action \<Rightarrow> jsnum \<Rightarrow> jsnum \<Rightarrow> ExchangeData option list \<Rightarrow> jsnum" where
  "boostConfidence = (\<lambda>action combinedImbalance confidence ds.
     (let confidence =
            (if (action = Action.LONG \<and> js_gt combinedImbalance (Fin (rd 0.1)))
                \<or> (action = Action.SHORT \<and> js_lt combinedImbalance (Fin (- rd 0.1)))
             then js_min (Fin 95) (js_add confidence (Fin 10)) else confidence);
          agreeing = length (filter (agrees action) ds);
          confidence = (if agreeing \<ge> 2 then js_min (Fin 95) (js_add confidence (Fin 10))
                        else confidence);
          confidence = (if agreeing = 3 then js_min (Fin 95) (js_add confidence (Fin 5))
                        else confidence)
      in confidence))"

text \<open>
  \<open>now\<close> is the value of \<open>Date.now()\<close> at the start of the call. The two defaulted
  parameters are explicit: a caller that leaves them out passes \<open>Fin 0\<close> and NEUTRAL.
\<close>

definition generateSignal ::
  "int \<Rightarrow> string \<Rightarrow> ExchangeData option \<Rightarrow> ExchangeData option \<Rightarrow> ExchangeData option
   \<Rightarrow> WhaleOrder list \<Rightarrow> SupportLevel list \<Rightarrow> SupportLevel list \<Rightarrow> jsnum \<Rightarrow> Trend \<Rightarrow> Signal" where
  "generateSignal = (\<lambda>now asset hlData okxData krakenData whaleOrders supportLevels
       resistanceLevels imbalance15m trend.
     (let hl = orEmpty hlData now;
          okx = orEmpty okxData now;
          kraken = orEmpty krakenData now;
          spread = spreadBps hl okx;
          combinedImbalance = combinedImbalanceOf (validExchanges [hlData, okxData, krakenData]);
          (action, confidence) = trendDecision trend imbalance15m;
          confidence = (if action \<noteq> WAIT
                        then boostConfidence action combinedImbalance confidence
                               [hlData, okxData, krakenData]
                        else confidence);
          whaleConsensus = calculateWhaleConsensus whaleOrders
      in \<lparr>asset = asset,
          action = action,
          confidence = js_round confidence,
          hyperliquid = hl,
          okx = okx,
          kraken = kraken,
          crossExchangeSpread = rd (round_half_up (rd (spread * 10)) / 10),
          combinedImbalance = js_div (js_round (js_mul combinedImbalance (Fin 1000))) (Fin 1000),
          imbalance15m = js_div (js_round (js_mul imbalance15m (Fin 1000))) (Fin 1000),
          trend = trend,
          whaleOrders = whaleOrders,
          whaleConsensus = whaleConsensus,
          supportLevels = supportLevels,
          resistanceLevels = resistanceLevels,
          timestamp = now\<rparr>))"

section \<open>Level Detector\<close>

datatype LevelSide = Bids | Asks

record LevelData =
  size' :: real
  hasHL :: bool
  hasOKX :: bool
  hasKraken :: bool

text \<open>
  The \<open>Map\<close> from rounded price to aggregate is an association list in insertion order:
  \<open>get\<close> finds the entry of a key, \<open>set\<close> replaces the value of a key that is present
  and keeps its position, and appends a key that is new.
\<close>

type_synonym Levels = "(real \<times> LevelData) list"

fun mapGet :: "Levels \<Rightarrow> real \<Rightarrow> LevelData option" where
  "mapGet [] k = None"
| "mapGet ((k', v) # rest) k = (if k' = k then Some v else mapGet rest k)"

fun mapSet :: "real \<Rightarrow> LevelData \<Rightarrow> Levels \<Rightarrow> Levels" where
  "mapSet k v [] = [(k, v)]"
| "mapSet k v ((k', v') # rest) = (if k' = k then (k, v) # rest else (k', v') # mapSet k v rest)"

definition emptyLevel :: LevelData where
  "emptyLevel = \<lparr>size' = 0, hasHL = False, hasOKX = False, hasKraken = False\<rparr>"

text \<open>\<open>Math.round(price / roundTo) * roundTo\<close>\<close>

definition roundedPriceOf :: "real \<Rightarrow> real \<Rightarrow> real" where
  "roundedPriceOf roundTo px = rd (round_half_up (rd (px / roundTo)) * roundTo)"

text \<open>
  One venue's loop over its orders \<open>[price, size]\<close>, here \<open>(px, sz)\<close>. \<open>mark\<close> sets the
  venue's presence flag.
\<close>

fun processOrders ::
  "(LevelData \<Rightarrow> LevelData) \<Rightarrow> real \<Rightarrow> (real \<times> real) list \<Rightarrow> Levels \<Rightarrow> Levels" where
  "processOrders mark roundTo [] levels = levels"
| "processOrders mark roundTo ((px, sz) # orders) levels =
     (let roundedPrice = roundedPriceOf roundTo px;
          existing = (case mapGet levels roundedPrice of Some e \<Rightarrow> e | None \<Rightarrow> emptyLevel);
          existing = existing\<lparr>LevelData.size' := rd (LevelData.size' existing + sz)\<rparr>;
          existing = mark existing
      in processOrders mark roundTo orders (mapSet roundedPrice existing levels))"

text \<open>\<open>side === 'bids' ? book.bids : book.asks\<close>\<close>

definition ordersOf :: "LevelSide \<Rightarrow> OrderBook \<Rightarrow> (real \<times> real) list" where
  "ordersOf sd book = (if sd = Bids then bids book else asks book)"

text \<open>\<open>book?.bids[0]?.[0]\<close>: undefined for an absent book and for a book without bids.\<close>

definition bestBid :: "OrderBook option \<Rightarrow> real option" where
  "bestBid b =
     (case b of
        None \<Rightarrow> None
      | Some book \<Rightarrow> (case bids book of [] \<Rightarrow> None | (p, _) # _ \<Rightarrow> Some p))"

text \<open>\<open>x || y\<close> on a number that may be undefined: undefined and 0 are falsy.\<close>

definition orElse :: "real option \<Rightarrow> real \<Rightarrow> real" where
  "orElse x y = (case x of None \<Rightarrow> y | Some p \<Rightarrow> if p \<noteq> 0 then p else y)"

definition referencePrice :: "OrderBook option \<Rightarrow> OrderBook option \<Rightarrow> OrderBook option \<Rightarrow> real" where
  "referencePrice hlBook okxBook krakenBook =
     orElse (bestBid hlBook) (orElse (bestBid okxBook) (orElse (bestBid krakenBook) 0))"

text \<open>
  The remainder \<open>a % b\<close> of finite numbers, with the sign of the dividend. It is exact on
  binary64 values.
\<close>

definition js_rem :: "real \<Rightarrow> real \<Rightarrow> real" where
  "js_rem a b = a - b * of_int (if 0 \<le> a / b then \<lfloor>a / b\<rfloor> else \<lceil>a / b\<rceil>)"

text \<open>The body of the scoring loop for one retained bucket.\<close>

definition scoreLevel :: "string \<Rightarrow> real \<Rightarrow> LevelData \<Rightarrow> SupportLevel" where
  "scoreLevel = (\<lambda>asset price data.
     (let strength = 0;
          sizeThreshold = (if asset = ''BTC'' then 10 else 100);
          strength = rd (strength + min 50 (rd (rd (LevelData.size' data / sizeThreshold) * 50)));
          exchangeCount = (if hasHL data then 1 else 0) + (if hasOKX data then 1 else 0)
                          + (if hasKraken data then 1 else 0);
          strength = (if exchangeCount \<ge> 2 then rd (strength + 15) else strength);
          strength = (if exchangeCount = 3 then rd (strength + 15) else strength);
          isRoundNumber = (if asset = ''BTC'' then js_rem price 1000 = 0
                           else js_rem price 100 = 0);
          strength = (if isRoundNumber then rd (strength + 30) else strength);
          type = (if LevelData.size' data \<ge> sizeThreshold * 2 then wall
                  else if isRoundNumber then round'
                  else if exchangeCount \<ge> 2 then cluster
                  else cluster)
      in \<lparr>SupportLevel.price = price,
          strength = min 100 (round_half_up strength),
          type' = type,
          totalSize = rd (round_half_up (rd (LevelData.size' data * 100)) / 100),
          exchangeCount = exchangeCount,
          isRoundNumber = isRoundNumber\<rparr>))"

text \<open>
  \<open>result.sort((a, b) => b.strength - a.strength)\<close>: a stable sort by descending strength.
  The strengths are integers of at most 100, so the difference is exact.
\<close>

definition sortByStrength :: "SupportLevel list \<Rightarrow> SupportLevel list" where
  "sortByStrength result = sort_key (\<lambda>l. - SupportLevel.strength l) result"

definition detectLevels ::
  "OrderBook option \<Rightarrow> OrderBook option \<Rightarrow> OrderBook option \<Rightarrow> LevelSide \<Rightarrow> string
   \<Rightarrow> SupportLevel list" where
  "detectLevels = (\<lambda>hlBook okxBook krakenBook side asset.
     (let levels = [];
          midPrice = referencePrice hlBook okxBook krakenBook;
          roundTo = (if asset = ''BTC'' then 100 else 10);
          levels = (case hlBook of
                      None \<Rightarrow> levels
                    | Some book \<Rightarrow> processOrders (\<lambda>e. e\<lparr>hasHL := True\<rparr>) roundTo
                                     (ordersOf side book) levels);
          levels = (case okxBook of
                      None \<Rightarrow> levels
                    | Some book \<Rightarrow> processOrders (\<lambda>e. e\<lparr>hasOKX := True\<rparr>) roundTo
                                     (ordersOf side book) levels);
          levels = (case krakenBook of
                      None \<Rightarrow> levels
                    | Some book \<Rightarrow> processOrders (\<lambda>e. e\<lparr>hasKraken := True\<rparr>) roundTo
                                     (ordersOf side book) levels);
          result = map (\<lambda>(price, data). scoreLevel asset price data)
                     (filter (\<lambda>(price, data).
                          \<not> (midPrice > 0
                             \<and> rd (\<bar>rd (price - midPrice)\<bar> / midPrice) > rd 0.05)) levels)
      in take 5 (sortByStrength result)))"

text \<open>The orders a venue contributes on a side: none when its book is absent.\<close>

definition venueOrders :: "LevelSide \<Rightarrow> OrderBook option \<Rightarrow> (real \<times> real) list" where
  "venueOrders sd b = (case b of None \<Rightarrow> [] | Some book \<Rightarrow> ordersOf sd book)"

text \<open>
  Intermediate values of \<open>detectLevels\<close>, named for the statements about it: the orders of
  a venue that fall into a bucket, the map after the three loops, the test that keeps a bucket
  near the reference price, and the array \<open>result\<close> before it is sorted.
\<close>

definition bucketOrders :: "real \<Rightarrow> real \<Rightarrow> (real \<times> real) list \<Rightarrow> (real \<times> real) list" where
  "bucketOrders roundTo k orders = filter (\<lambda>(px, sz). roundedPriceOf roundTo px = k) orders"

definition collectedLevels ::
  "OrderBook option \<Rightarrow> OrderBook option \<Rightarrow> OrderBook option \<Rightarrow> LevelSide \<Rightarrow> string \<Rightarrow> Levels" where
  "collectedLevels hlBook okxBook krakenBook sd a =
     processOrders (\<lambda>e. e\<lparr>hasKraken := True\<rparr>) (if a = ''BTC'' then 100 else 10)
       (venueOrders sd krakenBook)
       (processOrders (\<lambda>e. e\<lparr>hasOKX := True\<rparr>) (if a = ''BTC'' then 100 else 10)
          (venueOrders sd okxBook)
          (processOrders (\<lambda>e. e\<lparr>hasHL := True\<rparr>) (if a = ''BTC'' then 100 else 10)
             (venueOrders sd hlBook) []))"

definition retained :: "real \<Rightarrow> real \<Rightarrow> bool" where
  "retained mid p = (\<not> (mid > 0 \<and> rd (\<bar>rd (p - mid)\<bar> / mid) > rd 0.05))"

definition scoredLevels ::
  "OrderBook option \<Rightarrow> OrderBook option \<Rightarrow> OrderBook option \<Rightarrow> LevelSide \<Rightarrow> string
   \<Rightarrow> SupportLevel list" where
  "scoredLevels hlBook okxBook krakenBook sd a =
     map (\<lambda>(p, d). scoreLevel a p d)
       (filter (\<lambda>(p, d). retained (referencePrice hlBook okxBook krakenBook) p)
          (collectedLevels hlBook okxBook krakenBook sd a))"

section \<open>Aggregation Actor\<close>

record SignalPair =
  btc :: Signal
  eth :: Signal

text \<open>A WebSocket is identified by a number; the set of sessions iterates in insertion order.\<close>

record Actor =
  sessions :: "nat list"
  lastData :: "SignalPair option"
  imbalanceHistory :: "ImbalanceEntry list"

text \<open>
  What the six venue fetches of one pass deliver: a book, or \<open>None\<close> for \<open>null\<close>. The
  adapters catch their own errors and are not modelled further.
\<close>

record Venues =
  hlBtc :: "OrderBook option"
  hlEth :: "OrderBook option"
  okxBtc :: "OrderBook option"
  okxEth :: "OrderBook option"
  krakenBtc :: "OrderBook option"
  krakenEth :: "OrderBook option"

text \<open>\<open>book ? analyzeOrderBook(book, threshold) : null\<close>\<close>

definition analysisOf :: "OrderBook option \<Rightarrow> real \<Rightarrow> Analysis option" where
  "analysisOf book whaleThreshold = map_option (\<lambda>b. analyzeOrderBook b whaleThreshold) book"

text \<open>The \<open>ExchangeData | null\<close> built from a book and its analysis.\<close>

definition exchangeDataOf :: "OrderBook option \<Rightarrow> real \<Rightarrow> ExchangeData option" where
  "exchangeDataOf book whaleThreshold =
     (case book of
        None \<Rightarrow> None
      | Some b \<Rightarrow>
          (let analysis = analyzeOrderBook b whaleThreshold
           in Some \<lparr>ExchangeData.price = midPrice analysis,
                    imbalance = Analysis.imbalance analysis,
                    bidDepth = Analysis.bidDepth analysis,
                    askDepth = Analysis.askDepth analysis,
                    timestamp = OrderBook.timestamp b\<rparr>))"

text \<open>
  \<open>analysis.whales.forEach(w => { w.exchange = name; whales.push(w); })\<close>, nothing for an absent
  venue.
\<close>

definition venueWhales :: "string \<Rightarrow> OrderBook option \<Rightarrow> real \<Rightarrow> WhaleOrder list" where
  "venueWhales name book whaleThreshold =
     (case analysisOf book whaleThreshold of
        None \<Rightarrow> []
      | Some analysis \<Rightarrow> map (\<lambda>w. w\<lparr>exchange := name\<rparr>) (whales analysis))"

definition collectWhales ::
  "OrderBook option \<Rightarrow> OrderBook option \<Rightarrow> OrderBook option \<Rightarrow> real \<Rightarrow> WhaleOrder list" where
  "collectWhales hlBook okxBook krakenBook whaleThreshold =
     venueWhales ''Hyperliquid'' hlBook whaleThreshold
     @ venueWhales ''OKX'' okxBook whaleThreshold
     @ venueWhales ''Kraken'' krakenBook whaleThreshold"

text \<open>
  \<open>[a?.imbalance, b?.imbalance, c?.imbalance].filter(i => i !== undefined)\<close> and the average
  \<open>xs.length > 0 ? xs.reduce((a, b) => a + b, 0) / xs.length : 0\<close>.
\<close>

definition presentImbalances :: "Analysis option list \<Rightarrow> jsnum list" where
  "presentImbalances as =
     concat (map (\<lambda>a. case a of None \<Rightarrow> [] | Some an \<Rightarrow> [Analysis.imbalance an]) as)"

definition averageImbalance :: "jsnum list \<Rightarrow> jsnum" where
  "averageImbalance xs =
     (if length xs > 0 then js_div (foldl js_add (Fin 0) xs) (Fin (real (length xs))) else Fin 0)"

text \<open>
  The stateless pass \<open>fetchAllData\<close>. It calls \<open>generateSignal\<close> without the last two
  arguments, so the average is 0 and the trend NEUTRAL. \<open>nowBtc\<close> and \<open>nowEth\<close> are the
  clock readings of the two calls.
\<close>

definition fetchAllData :: "Venues \<Rightarrow> int \<Rightarrow> int \<Rightarrow> SignalPair" where
  "fetchAllData v nowBtc nowEth =
     (let btcWhales = collectWhales (hlBtc v) (okxBtc v) (krakenBtc v) 5;
          ethWhales = collectWhales (hlEth v) (okxEth v) (krakenEth v) 50;
          btcSupport = detectLevels (hlBtc v) (okxBtc v) (krakenBtc v) Bids ''BTC'';
          btcResistance = detectLevels (hlBtc v) (okxBtc v) (krakenBtc v) Asks ''BTC'';
          ethSupport = detectLevels (hlEth v) (okxEth v) (krakenEth v) Bids ''ETH'';
          ethResistance = detectLevels (hlEth v) (okxEth v) (krakenEth v) Asks ''ETH''
      in \<lparr>btc = generateSignal nowBtc ''BTC'' (exchangeDataOf (hlBtc v) 5)
                  (exchangeDataOf (okxBtc v) 5) (exchangeDataOf (krakenBtc v) 5)
                  btcWhales btcSupport btcResistance (Fin 0) Trend.NEUTRAL,
          eth = generateSignal nowEth ''ETH'' (exchangeDataOf (hlEth v) 50)
                  (exchangeDataOf (okxEth v) 50) (exchangeDataOf (krakenEth v) 50)
                  ethWhales ethSupport ethResistance (Fin 0) Trend.NEUTRAL\<rparr>)"

text \<open>
  The clock readings of one polling cycle, in the order the code takes them: when the reading
  is recorded to the history, inside the two calls of \<open>calculateTrend\<close>, and inside the two
  calls of \<open>generateSignal\<close>.
\<close>

record CycleClock =
  recordedAt :: int
  trendBtcAt :: int
  trendEthAt :: int
  signalBtcAt :: int
  signalEthAt :: int

text \<open>The history after the push of the new entry and the trim to the last 20 minutes.\<close>

definition recordImbalance :: "int \<Rightarrow> jsnum \<Rightarrow> jsnum \<Rightarrow> ImbalanceEntry list \<Rightarrow> ImbalanceEntry list" where
  "recordImbalance now btcNow ethNow history =
     (let history = history @ [\<lparr>ImbalanceEntry.timestamp = now, btcImbalance = btcNow,
                                ethImbalance = ethNow\<rparr>];
          twentyMinAgo = now - 20 * 60 * 1000
      in filter (\<lambda>h. ImbalanceEntry.timestamp h > twentyMinAgo) history)"

definition fetchWithTrend :: "Venues \<Rightarrow> CycleClock \<Rightarrow> Actor \<Rightarrow> SignalPair \<times> Actor" where
  "fetchWithTrend v clock actor =
     (let btcNow = averageImbalance (presentImbalances
                     [analysisOf (hlBtc v) 5, analysisOf (okxBtc v) 5, analysisOf (krakenBtc v) 5]);
          ethNow = averageImbalance (presentImbalances
                     [analysisOf (hlEth v) 50, analysisOf (okxEth v) 50, analysisOf (krakenEth v) 50]);
          actor = actor\<lparr>imbalanceHistory :=
                    recordImbalance (recordedAt clock) btcNow ethNow (imbalanceHistory actor)\<rparr>;
          btcTrend = calculateTrend (trendBtcAt clock) (imbalanceHistory actor) Btc;
          ethTrend = calculateTrend (trendEthAt clock) (imbalanceHistory actor) Eth;
          btcWhales = collectWhales (hlBtc v) (okxBtc v) (krakenBtc v) 5;
          ethWhales = collectWhales (hlEth v) (okxEth v) (krakenEth v) 50;
          btcSupport = detectLevels (hlBtc v) (okxBtc v) (krakenBtc v) Bids ''BTC'';
          btcResistance = detectLevels (hlBtc v) (okxBtc v) (krakenBtc v) Asks ''BTC'';
          ethSupport = detectLevels (hlEth v) (okxEth v) (krakenEth v) Bids ''ETH'';
          ethResistance = detectLevels (hlEth v) (okxEth v) (krakenEth v) Asks ''ETH''
      in (\<lparr>btc = generateSignal (signalBtcAt clock) ''BTC'' (exchangeDataOf (hlBtc v) 5)
                   (exchangeDataOf (okxBtc v) 5) (exchangeDataOf (krakenBtc v) 5)
                   btcWhales btcSupport btcResistance
                   (TrendResult.avg btcTrend) (TrendResult.trend btcTrend),
           eth = generateSignal (signalEthAt clock) ''ETH'' (exchangeDataOf (hlEth v) 50)
                   (exchangeDataOf (okxEth v) 50) (exchangeDataOf (krakenEth v) 50)
                   ethWhales ethSupport ethResistance
                   (TrendResult.avg ethTrend) (TrendResult.trend ethTrend)\<rparr>,
          actor))"

text \<open>What the actor does to the outside: a message sent to a socket, a line logged, a delay.\<close>

datatype Event = Sent nat SignalPair | Logged string | Slept nat

text \<open>
  \<open>broadcast\<close>: one \<open>send\<close> per session; a session whose send throws is deleted from the
  set. \<open>sendFails\<close> tells which sends throw.
\<close>

definition broadcast :: "(nat \<Rightarrow> bool) \<Rightarrow> SignalPair \<Rightarrow> Actor \<Rightarrow> Actor \<times> Event list" where
  "broadcast sendFails data actor =
     (actor\<lparr>sessions := filter (\<lambda>ws. \<not> sendFails ws) (sessions actor)\<rparr>,
      map (\<lambda>ws. Sent ws data) (filter (\<lambda>ws. \<not> sendFails ws) (sessions actor)))"

text \<open>
  An unexpected error inside a cycle. \<open>fetchWithTrend\<close> writes one field of the actor, the
  imbalance history, in one place; an error escapes either before that write or after it.
\<close>

datatype Fault = ThrowsBeforeRecord string | ThrowsAfterRecord string

record Cycle =
  venues :: Venues
  clock :: CycleClock
  sendFails :: "nat \<Rightarrow> bool"
  fault :: "Fault option"

text \<open>
  \<open>await this.fetchWithTrend()\<close> as the loop sees it: the pair of Signals, or the error that
  escaped, together with the actor as the call left it.
\<close>

definition runCycle :: "Cycle \<Rightarrow> Actor \<Rightarrow> (string + SignalPair) \<times> Actor" where
  "runCycle c actor =
     (case fault c of
        Some (ThrowsBeforeRecord e) \<Rightarrow> (Inl e, actor)
      | Some (ThrowsAfterRecord e) \<Rightarrow> (Inl e, snd (fetchWithTrend (venues c) (clock c) actor))
      | None \<Rightarrow> (case fetchWithTrend (venues c) (clock c) actor of
                   (data, actor') \<Rightarrow> (Inr data, actor')))"

text \<open>
  One turn of \<open>while (true)\<close> in \<open>startPolling\<close>: the \<open>try\<close> block, the \<open>catch\<close> that logs,
  and the 2000 ms delay that follows both. \<open>broadcast\<close> itself does not throw: it catches
  the error of each send, and serializing a pair of Signals cannot fail.
\<close>

definition pollOnce :: "Cycle \<Rightarrow> Actor \<Rightarrow> Actor \<times> Event list" where
  "pollOnce c actor =
     (case runCycle c actor of
        (Inl e, actor') \<Rightarrow> (actor', [Logged e, Slept 2000])
      | (Inr data, actor') \<Rightarrow>
          (case broadcast (sendFails c) data (actor'\<lparr>lastData := Some data\<rparr>) of
             (actor'', sent) \<Rightarrow> (actor'', sent @ [Slept 2000])))"

text \<open>
  The loop never ends by itself. It is run on the cycles the world delivers, one list element
  per turn, and returns the actor and the events after the last of them.
\<close>

fun startPolling :: "Cycle list \<Rightarrow> Actor \<Rightarrow> Actor \<times> Event list" where
  "startPolling [] actor = (actor, [])"
| "startPolling (c # cs) actor =
     (case pollOnce c actor of
        (actor', events) \<Rightarrow>
          (case startPolling cs actor' of
             (actor'', events') \<Rightarrow> (actor'', events @ events')))"

text \<open>
  The request handler \<open>fetch\<close> of the actor. A WebSocket upgrade carries the two sockets of
  the new pair; any other request is the synchronous read.
\<close>

datatype Request = WebSocketUpgrade nat nat | Rest

datatype Response = SwitchingProtocols nat | Json SignalPair

text \<open>\<open>set.add(x)\<close>\<close>

definition setAdd :: "nat \<Rightarrow> nat list \<Rightarrow> nat list" where
  "setAdd x xs = (if x \<in> set xs then xs else xs @ [x])"

fun fetch :: "Request \<Rightarrow> Venues \<Rightarrow> int \<Rightarrow> int \<Rightarrow> Actor \<Rightarrow> (Response \<times> Event list) \<times> Actor" where
  "fetch (WebSocketUpgrade client server) v nowBtc nowEth actor =
     (let actor = actor\<lparr>sessions := setAdd server (sessions actor)\<rparr>;
          events = (case lastData actor of Some d \<Rightarrow> [Sent server d] | None \<Rightarrow> [])
      in ((SwitchingProtocols client, events), actor))"
| "fetch Rest v nowBtc nowEth actor =
     (case lastData actor of
        Some d \<Rightarrow> ((Json d, []), actor)
      | None \<Rightarrow>
          (let data = fetchAllData v nowBtc nowEth;
               actor = actor\<lparr>lastData := Some data\<rparr>
           in ((Json data, []), actor)))"

text \<open>The error a fault throws.\<close>

definition faultMessage :: "Fault \<Rightarrow> string" where
  "faultMessage f = (case f of ThrowsBeforeRecord e \<Rightarrow> e | ThrowsAfterRecord e \<Rightarrow> e)"

text \<open>
  The quantities the statements about a polling cycle speak of: the Signal of an asset in the
  pair, the clock reading of the asset's call of \<open>calculateTrend\<close>, and the readings of
  the asset in the 15-minute window of the history as a cycle without any venue leaves it,
  with a zero reading appended and the entries older than 20 minutes dropped.
\<close>

definition signalOf :: "TrendAsset \<Rightarrow> SignalPair \<Rightarrow> Signal" where
  "signalOf a p = (if a = Btc then btc p else eth p)"

definition trendAt :: "TrendAsset \<Rightarrow> CycleClock \<Rightarrow> int" where
  "trendAt a ck = (if a = Btc then trendBtcAt ck else trendEthAt ck)"

definition cycleWindow :: "CycleClock \<Rightarrow> Actor \<Rightarrow> TrendAsset \<Rightarrow> jsnum list" where
  "cycleWindow ck actor a =
     window15m (trendAt a ck)
       (recordImbalance (recordedAt ck) (Fin 0) (Fin 0) (imbalanceHistory actor)) a"

section \<open>Example inputs\<close>

definition exampleWhalesLong :: "WhaleOrder list" where
  "exampleWhalesLong =
     [\<lparr>exchange = ''Hyperliquid'', side = BID, price = 96000, size' = 10\<rparr>,
      \<lparr>exchange = ''OKX'', side = BID, price = 95900, size' = 8\<rparr>,
      \<lparr>exchange = ''Kraken'', side = ASK, price = 96100, size' = 6\<rparr>]"

definition exampleWhalesShort :: "WhaleOrder list" where
  "exampleWhalesShort =
     [\<lparr>exchange = ''Hyperliquid'', side = ASK, price = 96100, size' = 10\<rparr>,
      \<lparr>exchange = ''OKX'', side = ASK, price = 96200, size' = 8\<rparr>,
      \<lparr>exchange = ''Kraken'', side = BID, price = 96000, size' = 6\<rparr>]"

text \<open>
  Whale orders whose bid share, 10.8 of 18, is 0.6 in exact arithmetic and
  0.6000000000000001 in binary64.
\<close>

definition exampleWhalesEdge :: "WhaleOrder list" where
  "exampleWhalesEdge =
     [\<lparr>exchange = ''Hyperliquid'', side = BID, price = 96000, size' = 5\<rparr>,
      \<lparr>exchange = ''OKX'', side = BID, price = 95900, size' = rd 5.8\<rparr>,
      \<lparr>exchange = ''Kraken'', side = ASK, price = 96100, size' = rd 7.2\<rparr>]"

definition exampleBidBook :: OrderBook where
  "exampleBidBook = \<lparr>bids = [(96000, 12)], asks = [], OrderBook.timestamp = 1000\<rparr>"

definition exampleAskBook :: OrderBook where
  "exampleAskBook = \<lparr>bids = [], asks = [(96000, 12)], OrderBook.timestamp = 1000\<rparr>"

definition allAbsent :: Venues where
  "allAbsent = \<lparr>hlBtc = None, hlEth = None, okxBtc = None, okxEth = None,
                 krakenBtc = None, krakenEth = None\<rparr>"

definition exampleClock :: CycleClock where
  "exampleClock = \<lparr>recordedAt = 5000, trendBtcAt = 5000, trendEthAt = 5000,
                    signalBtcAt = 5001, signalEthAt = 5001\<rparr>"

definition exampleBullishActor :: Actor where
  "exampleBullishActor =
     \<lparr>sessions = [], lastData = None,
      imbalanceHistory =
        [\<lparr>ImbalanceEntry.timestamp = 1000, btcImbalance = Fin (3 / 4), ethImbalance = Fin 0\<rparr>,
         \<lparr>ImbalanceEntry.timestamp = 3000, btcImbalance = Fin (3 / 4), ethImbalance = Fin 0\<rparr>]\<rparr>"

text \<open>
  An actor whose only reading is older than 20 minutes at the late clock, and an actor with
  one small reading inside the window.
\<close>

definition exampleStaleActor :: Actor where
  "exampleStaleActor =
     \<lparr>sessions = [], lastData = None,
      imbalanceHistory =
        [\<lparr>ImbalanceEntry.timestamp = 0, btcImbalance = Fin (3 / 4), ethImbalance = Fin (3 / 4)\<rparr>]\<rparr>"

definition exampleLateClock :: CycleClock where
  "exampleLateClock = \<lparr>recordedAt = 5000000, trendBtcAt = 5000000, trendEthAt = 5000000,
                        signalBtcAt = 5000001, signalEthAt = 5000001\<rparr>"

definition exampleQuietActor :: Actor where
  "exampleQuietActor =
     \<lparr>sessions = [], lastData = None,
      imbalanceHistory =
        [\<lparr>ImbalanceEntry.timestamp = 4000, btcImbalance = Fin (1 / 32), ethImbalance = Fin 0\<rparr>]\<rparr>"

definition exampleIdleActor :: Actor where
  "exampleIdleActor = \<lparr>sessions = [7], lastData = None, imbalanceHistory = []\<rparr>"

definition exampleThrowingCycle :: Cycle where
  "exampleThrowingCycle =
     \<lparr>venues = allAbsent, clock = exampleClock, sendFails = (\<lambda>ws. False),
      fault = Some (ThrowsAfterRecord ''synthesis bug'')\<rparr>"

definition exampleDeepBook :: OrderBook where
  "exampleDeepBook =
     \<lparr>bids = [(96000, 12), (95800, 3)], asks = [(96100, 2)], OrderBook.timestamp = 1000\<rparr>"

definition exampleHistory :: "ImbalanceEntry list" where
  "exampleHistory =
     [\<lparr>ImbalanceEntry.timestamp = 1000, btcImbalance = Fin (3 / 4), ethImbalance = Fin (- (1 / 4))\<rparr>,
      \<lparr>ImbalanceEntry.timestamp = 900000, btcImbalance = Fin (1 / 4), ethImbalance = Fin (- (1 / 4))\<rparr>,
      \<lparr>ImbalanceEntry.timestamp = 902000, btcImbalance = Fin (3 / 8), ethImbalance = Fin (- (1 / 2))\<rparr>,
      \<lparr>ImbalanceEntry.timestamp = 904000, btcImbalance = Fin 0, ethImbalance = Fin (1 / 8)\<rparr>]"

text \<open>
  A history whose readings -0.08, -0.06 and -0.01 have the mean -0.05 in exact arithmetic and
  -0.05000000000000001 in binary64.
\<close>

definition exampleEdgeHistory :: "ImbalanceEntry list" where
  "exampleEdgeHistory =
     [\<lparr>ImbalanceEntry.timestamp = 900000, btcImbalance = Fin (- rd 0.08), ethImbalance = Fin 0\<rparr>,
      \<lparr>ImbalanceEntry.timestamp = 902000, btcImbalance = Fin (- rd 0.06), ethImbalance = Fin 0\<rparr>,
      \<lparr>ImbalanceEntry.timestamp = 904000, btcImbalance = Fin (- rd 0.01), ethImbalance = Fin 0\<rparr>]"

section \<open>Properties of the rounding\<close>

lemma round_even_floor: "\<lfloor>y\<rfloor> \<le> round_even y" "round_even y \<le> \<lfloor>y\<rfloor> + 1"
  by (auto simp: round_even_def Let_def)

lemma round_even_of_int [simp]: "round_even (of_int n) = n"
  by (simp add: round_even_def)

lemma round_even_mono:
  assumes "x \<le> y"
  shows "round_even x \<le> round_even y"
proof (cases "\<lfloor>x\<rfloor> = \<lfloor>y\<rfloor>")
  case True
  then show ?thesis
    using assms by (auto simp: round_even_def Let_def)
next
  case False
  then have "\<lfloor>x\<rfloor> < \<lfloor>y\<rfloor>"
    using floor_mono [OF assms] by simp
  then show ?thesis
    using round_even_floor(2) [of x] round_even_floor(1) [of y] by linarith
qed

lemma round_even_ge: "of_int k \<le> y \<Longrightarrow> k \<le> round_even y"
  using round_even_mono [of "of_int k" y] by simp

lemma round_even_le: "y \<le> of_int k \<Longrightarrow> round_even y \<le> k"
  using round_even_mono [of y "of_int k"] by simp

lemma pow2_pos [simp]: "0 < (2::real) powi e"
  by (simp add: zero_less_power_int)

lemma pow2_facts [simp]:
  "0 \<le> (2::real) powi e" "\<not> (2::real) powi e < 0" "\<not> (2::real) powi e \<le> 0"
  using pow2_pos [of e] by (simp_all add: not_less not_le less_imp_le del: pow2_pos)

lemma pow2_step: "(2::real) powi (e + 1) = 2 * 2 powi e" "(2::real) powi (e - 1) = 2 powi e / 2"
  by (simp_all add: power_int_add power_int_diff)

lemma scale_down_spec:
  assumes "scale_down m e = (m', e')" and "0 < m"
  shows "m' * 2 powi e' = m * 2 powi e \<and> e \<le> e' \<and> 0 < m' \<and> m' < 2 ^ 53
         \<and> (2 ^ 52 \<le> m \<longrightarrow> 2 ^ 52 \<le> m') \<and> (m < 2 ^ 53 \<longrightarrow> e' = e)"
  using assms
proof (induction m e rule: scale_down.induct)
  case (1 m e)
  show ?case
  proof (cases "2 ^ 53 \<le> m")
    case True
    then have "scale_down (m / 2) (e + 1) = (m', e')"
      using "1.prems"(1) by (simp add: scale_down.simps [of m e])
    from "1.IH" [OF True this] "1.prems"(2) True show ?thesis
      by (auto simp: pow2_step)
  next
    case False
    then show ?thesis
      using "1.prems" by (simp add: scale_down.simps [of m e])
  qed
qed

lemma scale_up_spec:
  assumes "scale_up m e = (m', e')" and "0 < m" and "m < 2 ^ 53" and "- 1074 \<le> e"
  shows "m' * 2 powi e' = m * 2 powi e \<and> - 1074 \<le> e' \<and> 0 < m' \<and> m' < 2 ^ 53
         \<and> (2 ^ 52 \<le> m' \<or> e' = - 1074)"
  using assms
proof (induction m e rule: scale_up.induct)
  case (1 m e)
  show ?case
  proof (cases "m < 2 ^ 52 \<and> - 1074 < e")
    case True
    then have "scale_up (m * 2) (e - 1) = (m', e')"
      using "1.prems"(1) by (simp add: scale_up.simps [of m e])
    from "1.IH" [OF True this] "1.prems"(2) True show ?thesis
      by (auto simp: pow2_step)
  next
    case False
    then show ?thesis
      using "1.prems" by (auto simp: scale_up.simps [of m e])
  qed
qed

lemma normalize_spec:
  assumes "normalize y = (m, e)" and "0 < y"
  shows "m * 2 powi e = y \<and> - 1074 \<le> e \<and> 0 < m \<and> m < 2 ^ 53 \<and> (2 ^ 52 \<le> m \<or> e = - 1074)"
proof -
  obtain m1 e1 where d: "scale_down y 0 = (m1, e1)" by (cases "scale_down y 0")
  from scale_down_spec [OF d assms(2)]
  have 1: "m1 * 2 powi e1 = y" "0 \<le> e1" "0 < m1" "m1 < 2 ^ 53" by simp_all
  have u: "scale_up m1 e1 = (m, e)" using assms(1) d by (simp add: normalize_def)
  from scale_up_spec [OF u 1(3,4)] 1(1,2) show ?thesis by simp
qed

lemma pow2_le: "e \<le> e' \<Longrightarrow> (2::real) powi e \<le> 2 powi e'"
  by (rule power_int_increasing) simp_all

lemma binade_order:
  assumes "2 ^ 52 * 2 powi e \<le> (y::real)" and "y < 2 ^ 53 * 2 powi e'"
  shows "e \<le> e'"
proof (rule ccontr)
  assume "\<not> e \<le> e'"
  then have "e' + 1 \<le> e" by simp
  then have "(2::real) powi (e' + 1) \<le> 2 powi e" by (rule pow2_le)
  then have "2 ^ 53 * 2 powi e' \<le> 2 ^ 52 * (2::real) powi e"
    by (simp add: pow2_step)
  then show False using assms by linarith
qed

lemma normalize_eval:
  assumes "0 < y" and "- 1074 \<le> e" and "y < 2 ^ 53 * 2 powi e"
    and "2 ^ 52 * 2 powi e \<le> y \<or> e = - 1074"
  shows "normalize y = (y / 2 powi e, e)"
proof -
  obtain m' e' where n: "normalize y = (m', e')" by (cases "normalize y")
  from normalize_spec [OF n assms(1)]
  have s: "m' * 2 powi e' = y" "- 1074 \<le> e'" "m' < 2 ^ 53" "2 ^ 52 \<le> m' \<or> e' = - 1074"
    by simp_all
  have y': "y < 2 ^ 53 * 2 powi e'"
    using s(1,3) by (metis mult_strict_right_mono pow2_pos)
  have lo': "2 ^ 52 \<le> m' \<Longrightarrow> 2 ^ 52 * 2 powi e' \<le> y"
    using s(1) by (metis mult_right_mono less_imp_le pow2_pos)
  have "e \<le> e'"
  proof (cases "e = - 1074")
    case True then show ?thesis using s(2) by simp
  next
    case False
    then have "2 ^ 52 * 2 powi e \<le> y" using assms(4) by simp
    then show ?thesis using y' by (rule binade_order)
  qed
  moreover have "e' \<le> e"
  proof (cases "e' = - 1074")
    case True then show ?thesis using assms(2) by simp
  next
    case False
    then have "2 ^ 52 * 2 powi e' \<le> y" using s(4) lo' by simp
    then show ?thesis using assms(3) by (rule binade_order)
  qed
  ultimately have e: "e' = e" by simp
  have "m' = y / 2 powi e"
    using s(1) e by (simp add: field_simps)
  then show ?thesis using n e by simp
qed

lemma rd_pos_eval:
  assumes "0 < y" and "- 1074 \<le> e" and "y < 2 ^ 53 * 2 powi e"
    and "2 ^ 52 * 2 powi e \<le> y \<or> e = - 1074"
  shows "rd_pos y = of_int (round_even (y / 2 powi e)) * 2 powi e"
  by (simp add: rd_pos_def normalize_eval [OF assms])

lemma rd_pos_nonneg: "0 < y \<Longrightarrow> 0 \<le> rd_pos y"
proof -
  assume y: "0 < y"
  obtain m e where n: "normalize y = (m, e)" by (cases "normalize y")
  from normalize_spec [OF n y] have "0 < m" by simp
  then have "0 \<le> round_even m" using round_even_ge [of 0 m] by simp
  then show ?thesis by (simp add: rd_pos_def n)
qed

lemma rd_pos_mono:
  assumes "0 < x" and "x \<le> y"
  shows "rd_pos x \<le> rd_pos y"
proof -
  obtain m e where nx: "normalize x = (m, e)" by (cases "normalize x")
  obtain m' e' where ny: "normalize y = (m', e')" by (cases "normalize y")
  have y: "0 < y" using assms by simp
  from normalize_spec [OF nx assms(1)]
  have sx: "m * 2 powi e = x" "- 1074 \<le> e" "m < 2 ^ 53" "2 ^ 52 \<le> m \<or> e = - 1074"
    by simp_all
  from normalize_spec [OF ny y]
  have sy: "m' * 2 powi e' = y" "- 1074 \<le> e'" "m' < 2 ^ 53" "2 ^ 52 \<le> m' \<or> e' = - 1074"
    by simp_all
  have yhi: "y < 2 ^ 53 * 2 powi e'"
    using sy(1,3) by (metis mult_strict_right_mono pow2_pos)
  have le: "e \<le> e'"
  proof (cases "e = - 1074")
    case True then show ?thesis using sy(2) by simp
  next
    case False
    then have "2 ^ 52 * 2 powi e \<le> x"
      using sx(1,4) by (metis mult_right_mono less_imp_le pow2_pos)
    then have "2 ^ 52 * 2 powi e \<le> y" using assms(2) by simp
    then show ?thesis using yhi by (rule binade_order)
  qed
  show ?thesis
  proof (cases "e = e'")
    case True
    have "m \<le> m'"
    proof -
      have "m * 2 powi e \<le> m' * 2 powi e" using sx(1) sy(1) True assms(2) by simp
      then show ?thesis by (simp add: mult_le_cancel_right)
    qed
    then have "round_even m \<le> round_even m'" by (rule round_even_mono)
    then show ?thesis
      by (simp add: rd_pos_def nx ny True mult_le_cancel_right)
  next
    case False
    then have lt: "e + 1 \<le> e'" using le by simp
    then have n': "2 ^ 52 \<le> m'" using sy(4) sx(2) by auto
    have "round_even m \<le> 2 ^ 53"
      using round_even_le [of m "2 ^ 53"] sx(3) by simp
    then have "of_int (round_even m) \<le> (2::real) ^ 53"
      by (metis of_int_le_iff of_int_numeral of_int_power)
    then have "of_int (round_even m) * 2 powi e \<le> 2 ^ 53 * (2::real) powi e"
      by (simp add: mult_le_cancel_right)
    also have "\<dots> = 2 ^ 52 * (2::real) powi (e + 1)" by (simp add: pow2_step)
    also have "\<dots> \<le> 2 ^ 52 * (2::real) powi e'"
      using pow2_le [OF lt] by simp
    also have "\<dots> \<le> of_int (round_even m') * 2 powi e'"
    proof -
      have "2 ^ 52 \<le> round_even m'"
        using round_even_ge [of "2 ^ 52" m'] n' by simp
      then have "(2::real) ^ 52 \<le> of_int (round_even m')"
        by (metis of_int_le_iff of_int_numeral of_int_power)
      then show ?thesis by (simp add: mult_le_cancel_right)
    qed
    finally show ?thesis by (simp add: rd_pos_def nx ny)
  qed
qed

lemma rd_zero [simp]: "rd 0 = 0"
  by (simp add: rd_def)

lemma rd_minus: "rd (- x) = - rd x"
  by (simp add: rd_def)

lemma rd_nonneg: "0 \<le> x \<Longrightarrow> 0 \<le> rd x"
  using rd_pos_nonneg by (auto simp: rd_def)

lemma rd_nonpos: "x \<le> 0 \<Longrightarrow> rd x \<le> 0"
  using rd_nonneg [of "- x"] by (simp add: rd_minus)

lemma rd_mono:
  assumes "x \<le> y"
  shows "rd x \<le> rd y"
proof -
  consider (pos) "0 < x" | (neg) "y < 0" | (mid) "x \<le> 0" "0 \<le> y" by linarith
  then show ?thesis
  proof cases
    case pos
    then show ?thesis using assms rd_pos_mono [of x y] by (simp add: rd_def)
  next
    case neg
    then have "rd_pos (- y) \<le> rd_pos (- x)"
      using assms by (intro rd_pos_mono) simp_all
    then show ?thesis using neg assms by (simp add: rd_def)
  next
    case mid
    then show ?thesis using rd_nonpos [of x] rd_nonneg [of y] by linarith
  qed
qed

lemma rd_pos_dyadic:
  assumes "0 < n" and "n < 2 ^ 53" and "- 1074 \<le> k"
  shows "rd_pos (of_int n * 2 powi k) = of_int n * 2 powi k"
proof -
  let ?y = "of_int n * (2::real) powi k"
  have y: "0 < ?y" using assms(1) by simp
  obtain m e where nm: "normalize ?y = (m, e)" by (cases "normalize ?y")
  from normalize_spec [OF nm y]
  have s: "m * 2 powi e = ?y" "- 1074 \<le> e" "m < 2 ^ 53" "2 ^ 52 \<le> m \<or> e = - 1074"
    by simp_all
  have nr: "(of_int n :: real) < 2 ^ 53"
    using assms(2) by (metis of_int_less_iff of_int_numeral of_int_power)
  have "e \<le> k"
  proof (cases "e = - 1074")
    case True then show ?thesis using assms(3) by simp
  next
    case False
    then have "2 ^ 52 * 2 powi e \<le> ?y"
      using s(1,4) by (metis mult_right_mono less_imp_le pow2_pos)
    moreover have "?y < 2 ^ 53 * 2 powi k"
      using nr by (simp add: mult_less_cancel_right)
    ultimately show ?thesis by (rule binade_order)
  qed
  then obtain j :: nat where j: "k = e + int j"
    by (metis zle_iff_zadd)
  have "m = of_int n * 2 powi k / 2 powi e"
    using s(1) by (simp add: field_simps)
  also have "\<dots> = of_int n * 2 ^ j"
    by (simp add: j power_int_add)
  also have "\<dots> = of_int (n * 2 ^ j)" by simp
  finally have "round_even m = n * 2 ^ j" by (simp only: round_even_of_int)
  then have "rd_pos ?y = of_int (n * 2 ^ j) * 2 powi e"
    by (simp add: rd_pos_def nm)
  also have "\<dots> = ?y" by (simp add: j power_int_add)
  finally show ?thesis .
qed

lemma rd_dyadic:
  assumes "\<bar>n\<bar> < 2 ^ 53" and "- 1074 \<le> k"
  shows "rd (of_int n * 2 powi k) = of_int n * 2 powi k"
proof -
  consider "n = 0" | "0 < n" | "n < 0" by linarith
  then show ?thesis
  proof cases
    case 1 then show ?thesis by simp
  next
    case 2
    then show ?thesis
      using assms rd_pos_dyadic [of n k] by (simp add: rd_def)
  next
    case 3
    then have "rd_pos (of_int (- n) * 2 powi k) = of_int (- n) * 2 powi k"
      using assms by (intro rd_pos_dyadic) simp_all
    moreover have "of_int n * (2::real) powi k < 0"
      using 3 by (simp add: mult_less_0_iff)
    ultimately show ?thesis
      by (simp add: rd_def)
  qed
qed

lemma rd_of_int: "\<bar>n\<bar> < 2 ^ 53 \<Longrightarrow> rd (of_int n) = of_int n"
  using rd_dyadic [of n 0] by simp

lemma rd_numeral [simp]: "numeral w < (2::int) ^ 53 \<Longrightarrow> rd (numeral w) = numeral w"
  using rd_of_int [of "numeral w"] by simp

lemma rd_neg_numeral [simp]: "numeral w < (2::int) ^ 53 \<Longrightarrow> rd (- numeral w) = - numeral w"
  by (simp add: rd_minus)

lemma rd_one [simp]: "rd 1 = 1"
  using rd_of_int [of 1] by simp

lemma rd_of_nat: "n < 2 ^ 53 \<Longrightarrow> rd (of_nat n) = of_nat n"
  using rd_of_int [of "int n"] by simp

lemma rd_eval:
  assumes "0 < y" and "- 1074 \<le> e" and "2 ^ 52 * 2 powi e \<le> y" and "y < 2 ^ 53 * 2 powi e"
  shows "rd y = of_int (round_even (y / 2 powi e)) * 2 powi e"
  using assms by (simp add: rd_def rd_pos_eval)

lemma rd_between:
  assumes "of_int a \<le> x" and "x \<le> of_int b" and "\<bar>a\<bar> < 2 ^ 53" and "\<bar>b\<bar> < 2 ^ 53"
  shows "of_int a \<le> rd x" and "rd x \<le> of_int b"
  using rd_mono [OF assms(1)] rd_mono [OF assms(2)] assms(3,4) by (simp_all add: rd_of_int)

lemma fl_Fin:
  assumes "- (2 ^ 1024) < rd x" and "rd x < 2 ^ 1024"
  shows "fl x = Fin (rd x)"
  using assms by (simp add: fl_def Let_def)

lemma fl_between:
  assumes "of_int a \<le> x" and "x \<le> of_int b" and "\<bar>a\<bar> < 2 ^ 53" and "\<bar>b\<bar> < 2 ^ 53"
  shows "fl x = Fin (rd x)"
proof -
  have "of_int a \<le> rd x" "rd x \<le> of_int b"
    using assms by (rule rd_between)+
  moreover have "- (2 ^ 1024) < (of_int a :: real)"
  proof -
    have "- (2 ^ 53) < a" using assms(3) by simp
    then have "- (2 ^ 53) < (of_int a :: real)"
      by (metis of_int_less_iff of_int_minus of_int_numeral of_int_power)
    moreover have "- (2 ^ 1024) \<le> - ((2::real) ^ 53)" by simp
    ultimately show ?thesis by linarith
  qed
  moreover have "(of_int b :: real) < 2 ^ 1024"
  proof -
    have "b < 2 ^ 53" using assms(4) by simp
    then have "(of_int b :: real) < 2 ^ 53"
      by (metis of_int_less_iff of_int_numeral of_int_power)
    moreover have "(2::real) ^ 53 \<le> 2 ^ 1024" by simp
    ultimately show ?thesis by linarith
  qed
  ultimately show ?thesis by (intro fl_Fin) linarith+
qed

lemma fl_zero [simp]: "fl 0 = Fin 0"
  by (simp add: fl_def)

lemma fl_numeral [simp]: "numeral w < (2::int) ^ 53 \<Longrightarrow> fl (numeral w) = Fin (numeral w)"
  using fl_between [of "numeral w" "numeral w" "numeral w"] by simp

lemma rd_half: "rd (1 / 2) = 1 / 2"
  using rd_dyadic [of 1 "- 1"] by simp

lemma rd_frac:
  assumes "\<bar>n\<bar> < 2 ^ 53" and "k \<le> 1074"
  shows "rd (of_int n / 2 ^ k) = of_int n / 2 ^ k"
  using rd_dyadic [of n "- int k"] assms by (simp add: power_int_minus field_simps)

lemma rd_le_frac:
  assumes "x \<le> of_int n / 2 ^ k" and "\<bar>n\<bar> < 2 ^ 53" and "k \<le> 1074"
  shows "rd x \<le> of_int n / 2 ^ k"
  using rd_mono [OF assms(1)] rd_frac [OF assms(2,3)] by simp

lemma rd_ge_frac:
  assumes "of_int n / 2 ^ k \<le> x" and "\<bar>n\<bar> < 2 ^ 53" and "k \<le> 1074"
  shows "of_int n / 2 ^ k \<le> rd x"
  using rd_mono [OF assms(1)] rd_frac [OF assms(2,3)] by simp

text \<open>The binary64 values of the decimal literals of the source.\<close>

lemma lit_06: "rd 0.6 = 5404319552844595 / 2 ^ 53" "rd (3 / 5) = 5404319552844595 / 2 ^ 53"
  using rd_eval [of "0.6" "- 53"] by (simp_all add: round_even_def)

lemma lit_04: "rd 0.4 = 3602879701896397 / 2 ^ 53" "rd (2 / 5) = 3602879701896397 / 2 ^ 53"
  using rd_eval [of "0.4" "- 54"] by (simp_all add: round_even_def)

lemma lit_005: "rd 0.05 = 3602879701896397 / 2 ^ 56" "rd (1 / 20) = 3602879701896397 / 2 ^ 56"
  using rd_eval [of "0.05" "- 57"] by (simp_all add: round_even_def)

lemma lit_01: "rd 0.1 = 3602879701896397 / 2 ^ 55" "rd (1 / 10) = 3602879701896397 / 2 ^ 55"
  using rd_eval [of "0.1" "- 56"] by (simp_all add: round_even_def)

lemma one_less_huge: "(1::real) < 2 ^ 1024"
  by (rule one_less_power) simp_all

lemma fl_cases:
  "fl x = Fin (rd x) \<and> - (2 ^ 1024) < rd x \<and> rd x < 2 ^ 1024
   \<or> fl x = PInf \<and> 1 < rd x \<or> fl x = NInf \<and> rd x < - 1"
proof -
  define H :: real where "H = 2 ^ 1024"
  have H: "1 < H" unfolding H_def by (rule one_less_huge)
  have "fl x = (if H \<le> rd x then PInf else if rd x \<le> - H then NInf else Fin (rd x))"
    unfolding fl_def H_def Let_def ..
  then have "fl x = Fin (rd x) \<and> - H < rd x \<and> rd x < H
   \<or> fl x = PInf \<and> 1 < rd x \<or> fl x = NInf \<and> rd x < - 1"
    using H by (auto split: if_splits)
  then show ?thesis unfolding H_def .
qed

lemma js_gt_fl:
  assumes "- 1 \<le> c" and "c \<le> 1"
  shows "js_gt (fl x) (Fin c) = (c < rd x)"
  using fl_cases [of x] assms by (auto simp: js_gt_def simp del: power_numeral)

lemma js_lt_fl:
  assumes "- 1 \<le> c" and "c \<le> 1"
  shows "js_lt (fl x) (Fin c) = (rd x < c)"
  using fl_cases [of x] assms by (auto simp del: power_numeral)

section \<open>Properties of the Book Analyzer\<close>

lemma foldl_rd_nonneg:
  assumes "\<forall>(p, s) \<in> set xs. 0 \<le> s" and "0 \<le> a"
  shows "0 \<le> foldl (\<lambda>sum (_, size). rd (sum + size)) a xs"
  using assms
proof (induction xs arbitrary: a)
  case Nil
  then show ?case by simp
next
  case (Cons x xs)
  obtain p s where x: "x = (p, s)" by (cases x)
  have "0 \<le> rd (a + s)" using Cons.prems x by (intro rd_nonneg) auto
  then show ?case using Cons x by simp
qed

lemma depth_nonneg:
  assumes "\<forall>(p, s) \<in> set xs. 0 \<le> s"
  shows "0 \<le> depth n xs"
  unfolding depth_def using assms by (intro foldl_rd_nonneg) (auto dest!: in_set_takeD)

text \<open>
  On a book whose sizes are not negative, the imbalance is a finite value in [-1, 1] as soon
  as the total depth is not 0.
\<close>

lemma analyzeOrderBook_imbalance_range:
  assumes "\<forall>(p, s) \<in> set (bids book). 0 \<le> s" and "\<forall>(p, s) \<in> set (asks book). 0 \<le> s"
    and "rd (depth 10 (bids book) + depth 10 (asks book)) \<noteq> 0"
  shows "\<exists>r. Analysis.imbalance (analyzeOrderBook book t) = Fin r \<and> - 1 \<le> r \<and> r \<le> 1
           \<and> r = rd (rd (depth 10 (bids book) - depth 10 (asks book))
                     / rd (depth 10 (bids book) + depth 10 (asks book)))"
proof -
  let ?b = "depth 10 (bids book)" and ?a = "depth 10 (asks book)"
  have b: "0 \<le> ?b" and a: "0 \<le> ?a"
    using assms(1,2) by (auto intro: depth_nonneg)
  have "0 \<le> rd (?b + ?a)" using a b by (intro rd_nonneg) simp
  then have pos: "0 < rd (?b + ?a)" using assms(3) by simp
  have "rd (?b - ?a) \<le> rd (?b + ?a)" using a by (intro rd_mono) simp
  moreover have "- rd (?b + ?a) \<le> rd (?b - ?a)"
  proof -
    have "rd (- (?b + ?a)) \<le> rd (?b - ?a)" using b by (intro rd_mono) simp
    then show ?thesis unfolding rd_minus .
  qed
  ultimately have q: "of_int (- 1) \<le> rd (?b - ?a) / rd (?b + ?a)"
      "rd (?b - ?a) / rd (?b + ?a) \<le> of_int 1"
    using pos by (simp_all add: field_simps)
  have "fl (rd (?b - ?a) / rd (?b + ?a)) = Fin (rd (rd (?b - ?a) / rd (?b + ?a)))"
    using q by (rule fl_between) simp_all
  moreover have "- 1 \<le> rd (rd (?b - ?a) / rd (?b + ?a))" "rd (rd (?b - ?a) / rd (?b + ?a)) \<le> 1"
    using rd_between [OF q] by simp_all
  ultimately show ?thesis
    using pos by (simp add: analyzeOrderBook_def Let_def)
qed

text \<open>
  Claim C1. The imbalance is (bidDepth - askDepth) / (bidDepth + askDepth), lies in [-1, 1],
  and is exactly 0 when both depths are 0. The code divides without a guard: on a book with
  no bids and no asks both depths are 0 and the quotient 0 / 0 is NaN, not 0.
\<close>

theorem analyzeOrderBook_empty_book_NaN:
  "Analysis.imbalance (analyzeOrderBook \<lparr>bids = [], asks = [], OrderBook.timestamp = 0\<rparr> 5) = NaN
   \<and> Analysis.bidDepth (analyzeOrderBook \<lparr>bids = [], asks = [], OrderBook.timestamp = 0\<rparr> 5) = 0
   \<and> Analysis.askDepth (analyzeOrderBook \<lparr>bids = [], asks = [], OrderBook.timestamp = 0\<rparr> 5) = 0"
  by (simp add: analyzeOrderBook_def depth_def)

section \<open>Properties of the Whale Consensus Scorer\<close>

lemma distinctExchanges_venuesOn:
  "distinctExchanges (filter (\<lambda>w. side w = sd) ws) = venuesOn sd ws"
proof -
  have "set (map exchange (filter (\<lambda>w. side w = sd) ws)) = exchange ` {w \<in> set ws. side w = sd}"
    by auto
  then show ?thesis
    unfolding distinctExchanges_def venuesOn_def
    by (metis length_remdups_card_conv)
qed

lemma whale_signal_cases:
  "signal (calculateWhaleConsensus ws) =
     (if rd (whaleBidSize ws + whaleAskSize ws) > 0 then
        (if rd (whaleBidSize ws / rd (whaleBidSize ws + whaleAskSize ws)) > rd 0.6
            \<and> venuesOn BID ws \<ge> 2 then WhaleSignal.LONG
         else if rd (whaleBidSize ws / rd (whaleBidSize ws + whaleAskSize ws)) < rd 0.4
            \<and> venuesOn ASK ws \<ge> 2 then WhaleSignal.SHORT
         else WhaleSignal.NEUTRAL)
      else WhaleSignal.NEUTRAL)"
  by (simp add: calculateWhaleConsensus_def Let_def whaleBidSize_def whaleAskSize_def
      distinctExchanges_venuesOn)

lemma bidRatio_spec_pos:
  assumes "rd (whaleBidSize ws + whaleAskSize ws) > 0"
  shows "bidRatio_spec ws = fl (whaleBidSize ws / rd (whaleBidSize ws + whaleAskSize ws))"
proof -
  have "\<not> (whaleBidSize ws = 0 \<and> whaleAskSize ws = 0)"
    using assms by auto
  then show ?thesis using assms by (simp add: bidRatio_spec_def)
qed

text \<open>
  Claim C7. The signal is LONG only if bidRatio exceeds 0.6 and at least 2 distinct venues
  contributed bid-side whale orders, SHORT only if bidRatio is below 0.4 and at least 2
  distinct venues contributed ask-side whale orders, and NEUTRAL in every other case,
  a total whale size of 0 included.
\<close>

theorem calculateWhaleConsensus_signal_conditions:
  "(signal (calculateWhaleConsensus ws) = WhaleSignal.LONG \<longrightarrow>
      js_gt (bidRatio_spec ws) (Fin (rd 0.6)) \<and> venuesOn BID ws \<ge> 2)
   \<and> (signal (calculateWhaleConsensus ws) = WhaleSignal.SHORT \<longrightarrow>
      js_lt (bidRatio_spec ws) (Fin (rd 0.4)) \<and> venuesOn ASK ws \<ge> 2)
   \<and> (\<not> (js_gt (bidRatio_spec ws) (Fin (rd 0.6)) \<and> venuesOn BID ws \<ge> 2)
      \<and> \<not> (js_lt (bidRatio_spec ws) (Fin (rd 0.4)) \<and> venuesOn ASK ws \<ge> 2) \<longrightarrow>
      signal (calculateWhaleConsensus ws) = WhaleSignal.NEUTRAL)
   \<and> (whaleBidSize ws + whaleAskSize ws = 0 \<longrightarrow>
      signal (calculateWhaleConsensus ws) = WhaleSignal.NEUTRAL)"
proof (cases "rd (whaleBidSize ws + whaleAskSize ws) > 0")
  case True
  have g: "js_gt (bidRatio_spec ws) (Fin (rd 0.6))
           = (rd 0.6 < rd (whaleBidSize ws / rd (whaleBidSize ws + whaleAskSize ws)))"
    unfolding bidRatio_spec_pos [OF True] by (rule js_gt_fl) (simp_all add: lit_06)
  have l: "js_lt (bidRatio_spec ws) (Fin (rd 0.4))
           = (rd (whaleBidSize ws / rd (whaleBidSize ws + whaleAskSize ws)) < rd 0.4)"
    unfolding bidRatio_spec_pos [OF True] by (rule js_lt_fl) (simp_all add: lit_04)
  have n: "whaleBidSize ws + whaleAskSize ws \<noteq> 0" using True by auto
  show ?thesis
    unfolding g l using True n by (simp add: whale_signal_cases)
next
  case False
  then show ?thesis
    by (simp add: whale_signal_cases)
qed

lemma exampleWhalesLong_sizes:
  "whaleBidSize exampleWhalesLong = 18" "whaleAskSize exampleWhalesLong = 6"
  by (simp_all add: exampleWhalesLong_def whaleBidSize_def whaleAskSize_def totalWhaleSize_def)

lemma exampleWhalesLong_venues: "venuesOn BID exampleWhalesLong = 2"
  unfolding distinctExchanges_venuesOn [symmetric]
  by (simp add: exampleWhalesLong_def distinctExchanges_def)

lemma exampleWhalesShort_sizes:
  "whaleBidSize exampleWhalesShort = 6" "whaleAskSize exampleWhalesShort = 18"
  by (simp_all add: exampleWhalesShort_def whaleBidSize_def whaleAskSize_def totalWhaleSize_def)

lemma exampleWhalesShort_venues:
  "venuesOn ASK exampleWhalesShort = 2" "venuesOn BID exampleWhalesShort = 1"
  unfolding distinctExchanges_venuesOn [symmetric]
  by (simp_all add: exampleWhalesShort_def distinctExchanges_def)

lemma empty_whales: "whaleBidSize [] = 0" "whaleAskSize [] = 0"
  by (simp_all add: whaleBidSize_def whaleAskSize_def totalWhaleSize_def)

lemma rd_quarters: "rd (3 / 4) = 3 / 4" "rd (1 / 4) = 1 / 4"
  using rd_frac [of 3 2] rd_frac [of 1 2] by simp_all

lemma lit_58: "rd 5.8 = 6530219459687219 / 2 ^ 50" "rd (29 / 5) = 6530219459687219 / 2 ^ 50"
  using rd_eval [of "5.8" "- 50"] by (simp_all add: round_even_def)

lemma lit_72: "rd 7.2 = 8106479329266893 / 2 ^ 50" "rd (36 / 5) = 8106479329266893 / 2 ^ 50"
  using rd_eval [of "7.2" "- 50"] by (simp_all add: round_even_def)

lemma edge_sizes:
  "whaleBidSize exampleWhalesEdge = 3039929748475085 / 2 ^ 48"
  "whaleAskSize exampleWhalesEdge = 8106479329266893 / 2 ^ 50"
proof -
  have "whaleBidSize exampleWhalesEdge = rd (rd (0 + 5) + rd 5.8)"
    by (simp add: exampleWhalesEdge_def whaleBidSize_def totalWhaleSize_def)
  also have "\<dots> = rd (5 + 6530219459687219 / 2 ^ 50)"
    by (simp add: lit_58)
  also have "\<dots> = 3039929748475085 / 2 ^ 48"
    using rd_eval [of "5 + 6530219459687219 / 2 ^ 50" "- 49"] by (simp add: round_even_def)
  finally show "whaleBidSize exampleWhalesEdge = 3039929748475085 / 2 ^ 48" .
  have "whaleAskSize exampleWhalesEdge = rd (0 + rd 7.2)"
    by (simp add: exampleWhalesEdge_def whaleAskSize_def totalWhaleSize_def)
  also have "\<dots> = rd (of_int 8106479329266893 / 2 ^ 50)"
    by (simp add: lit_72)
  also have "\<dots> = of_int 8106479329266893 / 2 ^ 50"
    by (rule rd_frac) simp_all
  finally show "whaleAskSize exampleWhalesEdge = 8106479329266893 / 2 ^ 50" by simp
qed

lemma edge_total:
  "rd (whaleBidSize exampleWhalesEdge + whaleAskSize exampleWhalesEdge) = 18"
  unfolding edge_sizes
  using rd_eval [of "3039929748475085 / 2 ^ 48 + 8106479329266893 / 2 ^ 50" "- 48"]
  by (simp add: round_even_def)

lemma edge_ratio:
  "rd (whaleBidSize exampleWhalesEdge / 18) = 1351079888211149 / 2 ^ 51"
  unfolding edge_sizes
  using rd_eval [of "3039929748475085 / 2 ^ 48 / 18" "- 53"]
  by (simp add: round_even_def)

lemma edge_venues: "venuesOn BID exampleWhalesEdge = 2"
  unfolding distinctExchanges_venuesOn [symmetric]
  by (simp add: exampleWhalesEdge_def distinctExchanges_def)

text \<open>
  On these orders the exact bid share is not above 0.6, and the scorer, like the code,
  returns LONG: the binary64 quotient is above the binary64 value of 0.6.
\<close>

lemma calculateWhaleConsensus_edge:
  "WhaleConsensus.signal (calculateWhaleConsensus exampleWhalesEdge) = WhaleSignal.LONG"
  by (simp add: whale_signal_cases edge_total edge_ratio lit_06 edge_venues)

lemma edge_strength:
  "WhaleConsensus.strength (calculateWhaleConsensus exampleWhalesEdge) = 40"
proof -
  have f: "filter (\<lambda>w. side w = BID) exampleWhalesEdge =
     [\<lparr>exchange = ''Hyperliquid'', side = BID, price = 96000, size' = 5\<rparr>,
      \<lparr>exchange = ''OKX'', side = BID, price = 95900, size' = rd 5.8\<rparr>]"
     "filter (\<lambda>w. side w = ASK) exampleWhalesEdge =
     [\<lparr>exchange = ''Kraken'', side = ASK, price = 96100, size' = rd 7.2\<rparr>]"
    by (simp_all add: exampleWhalesEdge_def)
  have b: "totalWhaleSize [\<lparr>exchange = ''Hyperliquid'', side = BID, price = 96000, size' = 5\<rparr>,
      \<lparr>exchange = ''OKX'', side = BID, price = 95900, size' = rd 5.8\<rparr>]
      = whaleBidSize exampleWhalesEdge"
     "totalWhaleSize [\<lparr>exchange = ''Kraken'', side = ASK, price = 96100, size' = rd 7.2\<rparr>]
      = whaleAskSize exampleWhalesEdge"
    by (simp_all add: whaleBidSize_def whaleAskSize_def f)
  have d1: "rd (1351079888211149 / 2 ^ 51 - 0.5) = 225179981368525 / 2 ^ 51"
    using rd_eval [of "1351079888211149 / 2 ^ 51 - 0.5" "- 56"] by (simp add: round_even_def)
  have d2: "rd (225179981368525 / 2 ^ 51 * 100) = 5629499534213125 / 2 ^ 49"
    using rd_eval [of "225179981368525 / 2 ^ 51 * 100" "- 49"] by (simp add: round_even_def)
  have d3: "rd (5629499534213125 / 2 ^ 49 + 30) = 5629499534213121 / 2 ^ 47"
    using rd_eval [of "5629499534213125 / 2 ^ 49 + 30" "- 47"] by (simp add: round_even_def)
  have d4: "rd (of_int 5629499534213121 / 2 ^ 47) = of_int 5629499534213121 / 2 ^ 47"
    by (rule rd_frac) simp_all
  have r: "round_half_up (5629499534213121 / 2 ^ 47) = 40"
    by (simp add: round_half_up_def)
  have "WhaleConsensus.strength (calculateWhaleConsensus exampleWhalesEdge) =
      min 100 (round_half_up
        (rd (rd (rd (rd (rd (whaleBidSize exampleWhalesEdge / 18) - 0.5) * 100)
                 + rd (real 2 * 15)) + 0)))"
    unfolding calculateWhaleConsensus_def f b Let_def edge_total
    by (simp add: distinctExchanges_def edge_ratio lit_06)
  also have "\<dots> = min 100 (round_half_up
        (rd (rd (rd (rd (1351079888211149 / 2 ^ 51 - 0.5) * 100) + 30) + 0)))"
    unfolding edge_ratio by simp
  also have "\<dots> = min 100 (round_half_up (rd (of_int 5629499534213121 / 2 ^ 47)))"
    unfolding d1 d2 d3 by simp
  also have "\<dots> = 40"
    unfolding d4 using r by simp
  finally show ?thesis .
qed

theorem calculateWhaleConsensus_signal_conditions_witness:
  "WhaleConsensus.signal (calculateWhaleConsensus exampleWhalesLong) = WhaleSignal.LONG
   \<and> js_gt (bidRatio_spec exampleWhalesLong) (Fin (rd 0.6)) \<and> venuesOn BID exampleWhalesLong \<ge> 2
   \<and> WhaleConsensus.signal (calculateWhaleConsensus exampleWhalesShort) = WhaleSignal.SHORT
   \<and> js_lt (bidRatio_spec exampleWhalesShort) (Fin (rd 0.4)) \<and> venuesOn ASK exampleWhalesShort \<ge> 2
   \<and> whaleBidSize [] + whaleAskSize [] = 0
   \<and> WhaleConsensus.signal (calculateWhaleConsensus []) = WhaleSignal.NEUTRAL
   \<and> WhaleConsensus.signal (calculateWhaleConsensus exampleWhalesEdge) = WhaleSignal.LONG
   \<and> js_gt (bidRatio_spec exampleWhalesEdge) (Fin (rd 0.6)) \<and> venuesOn BID exampleWhalesEdge \<ge> 2"
proof -
  have g: "WhaleConsensus.signal (calculateWhaleConsensus exampleWhalesEdge) = WhaleSignal.LONG"
    by (rule calculateWhaleConsensus_edge)
  have G: "js_gt (bidRatio_spec exampleWhalesEdge) (Fin (rd 0.6)) \<and> venuesOn BID exampleWhalesEdge \<ge> 2"
    using g calculateWhaleConsensus_signal_conditions [of exampleWhalesEdge] by blast
  have l: "WhaleConsensus.signal (calculateWhaleConsensus exampleWhalesLong) = WhaleSignal.LONG"
    by (simp add: whale_signal_cases exampleWhalesLong_sizes exampleWhalesLong_venues
        rd_quarters lit_06)
  have s: "WhaleConsensus.signal (calculateWhaleConsensus exampleWhalesShort) = WhaleSignal.SHORT"
    by (simp add: whale_signal_cases exampleWhalesShort_sizes exampleWhalesShort_venues
        rd_quarters lit_06 lit_04)
  have e: "whaleBidSize [] + whaleAskSize [] = 0"
    by (simp add: empty_whales)
  have L: "js_gt (bidRatio_spec exampleWhalesLong) (Fin (rd 0.6)) \<and> venuesOn BID exampleWhalesLong \<ge> 2"
    using l calculateWhaleConsensus_signal_conditions [of exampleWhalesLong] by blast
  have S: "js_lt (bidRatio_spec exampleWhalesShort) (Fin (rd 0.4)) \<and> venuesOn ASK exampleWhalesShort \<ge> 2"
    using s calculateWhaleConsensus_signal_conditions [of exampleWhalesShort] by blast
  have E: "WhaleConsensus.signal (calculateWhaleConsensus []) = WhaleSignal.NEUTRAL"
    using e calculateWhaleConsensus_signal_conditions [of "[]"] by blast
  show ?thesis
    using l s e L S E g G by blast
qed

text \<open>
  Claim C10. Whenever the scorer returns NEUTRAL, the empty whale list and a total whale
  size of 0 included, the strength is exactly 0; a nonzero strength comes only with LONG or
  SHORT.
\<close>

theorem calculateWhaleConsensus_neutral_strength:
  "(signal (calculateWhaleConsensus ws) = WhaleSignal.NEUTRAL \<longrightarrow>
      WhaleConsensus.strength (calculateWhaleConsensus ws) = 0)
   \<and> (WhaleConsensus.strength (calculateWhaleConsensus ws) \<noteq> 0 \<longrightarrow>
      signal (calculateWhaleConsensus ws) = WhaleSignal.LONG \<or> signal (calculateWhaleConsensus ws) = WhaleSignal.SHORT)
   \<and> (whaleBidSize ws + whaleAskSize ws = 0 \<longrightarrow>
      signal (calculateWhaleConsensus ws) = WhaleSignal.NEUTRAL \<and> WhaleConsensus.strength (calculateWhaleConsensus ws) = 0)
   \<and> signal (calculateWhaleConsensus []) = WhaleSignal.NEUTRAL
   \<and> WhaleConsensus.strength (calculateWhaleConsensus []) = 0"
  by (simp add: calculateWhaleConsensus_def Let_def whaleBidSize_def whaleAskSize_def
      totalWhaleSize_def)

lemma exampleWhalesLong_strength:
  "WhaleConsensus.strength (calculateWhaleConsensus exampleWhalesLong) = 55"
proof -
  have f: "filter (\<lambda>w. side w = BID) exampleWhalesLong =
     [\<lparr>exchange = ''Hyperliquid'', side = BID, price = 96000, size' = 10\<rparr>,
      \<lparr>exchange = ''OKX'', side = BID, price = 95900, size' = 8\<rparr>]"
     "filter (\<lambda>w. side w = ASK) exampleWhalesLong =
     [\<lparr>exchange = ''Kraken'', side = ASK, price = 96100, size' = 6\<rparr>]"
    by (simp_all add: exampleWhalesLong_def)
  show ?thesis
    unfolding calculateWhaleConsensus_def f
    by (simp add: Let_def totalWhaleSize_def distinctExchanges_def round_half_up_def
        rd_quarters lit_06)
qed

theorem calculateWhaleConsensus_neutral_strength_witness:
  "WhaleConsensus.signal (calculateWhaleConsensus
      [\<lparr>exchange = ''Kraken'', side = BID, price = 96000, size' = 7\<rparr>]) = WhaleSignal.NEUTRAL
   \<and> WhaleConsensus.strength (calculateWhaleConsensus
      [\<lparr>exchange = ''Kraken'', side = BID, price = 96000, size' = 7\<rparr>]) = 0
   \<and> WhaleConsensus.strength (calculateWhaleConsensus exampleWhalesLong) \<noteq> 0
   \<and> (WhaleConsensus.signal (calculateWhaleConsensus exampleWhalesLong) = WhaleSignal.LONG
        \<or> WhaleConsensus.signal (calculateWhaleConsensus exampleWhalesLong) = WhaleSignal.SHORT)
   \<and> whaleBidSize [] + whaleAskSize [] = 0
   \<and> WhaleConsensus.strength (calculateWhaleConsensus []) = 0"
proof -
  let ?one = "[\<lparr>exchange = ''Kraken'', side = BID, price = 96000, size' = 7\<rparr>]"
  have v: "venuesOn BID ?one = 1" "venuesOn ASK ?one = 0"
    unfolding distinctExchanges_venuesOn [symmetric] by (simp_all add: distinctExchanges_def)
  have n: "WhaleConsensus.signal (calculateWhaleConsensus ?one) = WhaleSignal.NEUTRAL"
    by (simp add: whale_signal_cases v)
  have e: "whaleBidSize [] + whaleAskSize [] = 0"
    by (simp add: empty_whales)
  have nz: "WhaleConsensus.strength (calculateWhaleConsensus exampleWhalesLong) \<noteq> 0"
    by (simp add: exampleWhalesLong_strength)
  have N: "WhaleConsensus.strength (calculateWhaleConsensus ?one) = 0"
    using n calculateWhaleConsensus_neutral_strength [of ?one] by blast
  have Z: "WhaleConsensus.signal (calculateWhaleConsensus exampleWhalesLong) = WhaleSignal.LONG
        \<or> WhaleConsensus.signal (calculateWhaleConsensus exampleWhalesLong) = WhaleSignal.SHORT"
    using nz calculateWhaleConsensus_neutral_strength [of exampleWhalesLong] by blast
  have E: "WhaleConsensus.strength (calculateWhaleConsensus []) = 0"
    using e calculateWhaleConsensus_neutral_strength [of "[]"] by blast
  show ?thesis
    using n e nz N Z E by blast
qed

section \<open>Properties of the Trend Tracker\<close>

text \<open>
  The quotient of the two counts, rounded, exceeds the rounded 0.6 only if the exact quotient
  exceeds 3/5; on a window of fewer than \<open>2^32\<close> entries, the longest a JavaScript array can
  be, also if.
\<close>

lemma ratio_gt_60_only_if:
  assumes "0 < n" and "rd (real k / real n) > rd 0.6"
  shows "5 * k > 3 * n"
proof (rule ccontr)
  assume "\<not> 5 * k > 3 * n"
  then have "5 * k \<le> 3 * n" by simp
  then have "real (5 * k) \<le> real (3 * n)" by (simp only: of_nat_le_iff)
  then have "real k / real n \<le> 0.6" using assms(1) by (simp add: field_simps)
  then have "rd (real k / real n) \<le> rd 0.6" by (rule rd_mono)
  then show False using assms(2) by simp
qed

lemma ratio_gt_60_if:
  assumes "0 < n" and "n < 2 ^ 32" and "5 * k > 3 * n"
  shows "rd (real k / real n) > rd 0.6"
proof -
  have "3 * n + 1 \<le> 5 * k" using assms(3) by simp
  then have "real (3 * n + 1) \<le> real (5 * k)" by (simp only: of_nat_le_iff)
  then have k: "3 * real n + 1 \<le> 5 * real k" by simp
  have "real n < real ((2::nat) ^ 32)" using assms(2) by (simp only: of_nat_less_iff)
  then have n: "real n < 4294967296" by simp
  have "41231686042 * real n \<le> 68719476736 * real k" using k n by linarith
  then have "of_int 41231686042 / 2 ^ 36 \<le> real k / real n"
    using assms(1) by (simp add: field_simps)
  then have "of_int 41231686042 / 2 ^ 36 \<le> rd (real k / real n)"
    by (rule rd_ge_frac) simp_all
  then show ?thesis by (simp add: lit_06)
qed

lemma foldl_reading:
  "foldl (\<lambda>s h. js_add s (reading a h)) z hs = foldl js_add z (map (reading a) hs)"
  by (induction hs arbitrary: z) simp_all

lemma filter_reading:
  "length (filter (\<lambda>h. P (reading a h)) hs) = length (filter P (map (reading a) hs))"
  by (induction hs) simp_all

lemma calculateTrend_unfold:
  "calculateTrend now history a =
     (if window15m now history a = [] then \<lparr>avg = Fin 0, trend = Trend.NEUTRAL\<rparr>
      else \<lparr>avg = windowMean (window15m now history a),
            trend = (if ratioAbove (\<lambda>x. js_gt x (Fin (rd 0.05))) (window15m now history a)
                        \<and> js_gt (windowMean (window15m now history a)) (Fin (rd 0.05))
                     then BULLISH
                     else if ratioAbove (\<lambda>x. js_lt x (Fin (- rd 0.05))) (window15m now history a)
                        \<and> js_lt (windowMean (window15m now history a)) (Fin (- rd 0.05))
                     then BEARISH
                     else Trend.NEUTRAL)\<rparr>)"
proof (cases "window15m now history a = []")
  case True
  then show ?thesis
    by (auto simp: calculateTrend_def window15m_def Let_def)
next
  case False
  define recent where "recent = filter (\<lambda>h. ImbalanceEntry.timestamp h > now - 15 * 60 * 1000) history"
  define w where "w = window15m now history a"
  have w: "w = map (reading a) recent"
    by (simp add: w_def recent_def window15m_def)
  have ne: "recent \<noteq> []" "length recent \<noteq> 0" "length history \<noteq> 0"
    using False by (auto simp: w w_def[symmetric] recent_def)
  have len: "length recent = length w" by (simp add: w)
  have s: "foldl (\<lambda>s h. js_add s (reading a h)) (Fin 0) recent = js_sum w"
    by (simp add: foldl_reading js_sum_def w)
  have up: "(rd (real (length (filter (\<lambda>h. js_gt (reading a h) (Fin (rd 0.05))) recent))
              / real (length recent)) > rd 0.6) = ratioAbove (\<lambda>x. js_gt x (Fin (rd 0.05))) w"
    unfolding ratioAbove_def w by (simp add: filter_map comp_def)
  have down: "(rd (real (length (filter (\<lambda>h. js_lt (reading a h) (Fin (- rd 0.05))) recent))
              / real (length recent)) > rd 0.6) = ratioAbove (\<lambda>x. js_lt x (Fin (- rd 0.05))) w"
    unfolding ratioAbove_def w by (simp add: filter_map comp_def)
  have "calculateTrend now history a =
          \<lparr>avg = windowMean w,
           trend = (if ratioAbove (\<lambda>x. js_gt x (Fin (rd 0.05))) w
                        \<and> js_gt (windowMean w) (Fin (rd 0.05)) then BULLISH
                    else if ratioAbove (\<lambda>x. js_lt x (Fin (- rd 0.05))) w
                        \<and> js_lt (windowMean w) (Fin (- rd 0.05)) then BEARISH
                    else Trend.NEUTRAL)\<rparr>"
    unfolding calculateTrend_def Let_def recent_def [symmetric] s up down
      windowMean_def len [symmetric]
    using ne by (simp only: if_False)
  then show ?thesis
    using False by (simp only: w_def if_False)
qed

lemma ratioAbove_only_if:
  assumes "ratioAbove P w"
  shows "moreThan60Percent P w"
proof (cases "w = []")
  case True
  then show ?thesis using assms by (simp add: ratioAbove_def lit_06)
next
  case False
  then have "0 < length w" by simp
  then show ?thesis
    using assms unfolding ratioAbove_def moreThan60Percent_def by (rule ratio_gt_60_only_if)
qed

lemma ratioAbove_if:
  assumes "moreThan60Percent P w" and "length w < 2 ^ 32"
  shows "ratioAbove P w"
proof -
  have "0 < length w" using assms(1) by (cases w) (simp_all add: moreThan60Percent_def)
  then show ?thesis
    using assms unfolding ratioAbove_def moreThan60Percent_def by (intro ratio_gt_60_if)
qed

lemma length_window15m: "length (window15m now history a) \<le> length history"
  by (simp add: window15m_def)

lemma threshold_005_pos: "0 < rd 0.05"
  by (simp add: lit_005)

lemma js_gt_lt_exclusive: "\<not> (js_gt m (Fin (rd 0.05)) \<and> js_lt m (Fin (- rd 0.05)))"
  using threshold_005_pos by (cases m) (auto simp: js_gt_def)

lemma exclusive_counts:
  assumes "\<And>x. \<not> (P x \<and> Q x)"
  shows "length (filter P xs) + length (filter Q xs) \<le> length xs"
  using assms by (induction xs) auto

lemma moreThan60Percent_exclusive:
  assumes "\<And>x. \<not> (P x \<and> Q x)"
  shows "\<not> (moreThan60Percent P xs \<and> moreThan60Percent Q xs)"
  using exclusive_counts [of P Q xs, OF assms] by (auto simp: moreThan60Percent_def)

lemma up_down_exclusive:
  "\<not> (moreThan60Percent (\<lambda>x. js_gt x (Fin (rd 0.05))) w
      \<and> moreThan60Percent (\<lambda>x. js_lt x (Fin (- rd 0.05))) w)"
  by (rule moreThan60Percent_exclusive) (rule js_gt_lt_exclusive)

text \<open>
  Claim C6. The tracker classifies BULLISH only when strictly more than 60% of the readings of
  the last 15 minutes individually exceed +0.05 and the window average exceeds +0.05, BEARISH
  only under the symmetric negative conditions, and NEUTRAL in every other case: when either
  conjunct fails, and on an empty window, where the average returned is 0. The thresholds are
  the binary64 values of the literals, the average is the one the code computes (the rounded
  sum from left to right, divided by the count and rounded), and the history is an array, of
  fewer than \<open>2^32\<close> entries.
\<close>

theorem calculateTrend_classification:
  assumes "length history < 2 ^ 32"
  shows "(TrendResult.trend (calculateTrend now history a) = BULLISH
      \<longleftrightarrow> moreThan60Percent (\<lambda>x. js_gt x (Fin (rd 0.05))) (window15m now history a)
          \<and> js_gt (windowMean (window15m now history a)) (Fin (rd 0.05)))
   \<and> (TrendResult.trend (calculateTrend now history a) = BEARISH
      \<longleftrightarrow> moreThan60Percent (\<lambda>x. js_lt x (Fin (- rd 0.05))) (window15m now history a)
          \<and> js_lt (windowMean (window15m now history a)) (Fin (- rd 0.05)))
   \<and> (TrendResult.trend (calculateTrend now history a) \<noteq> BULLISH
       \<and> TrendResult.trend (calculateTrend now history a) \<noteq> BEARISH
      \<longrightarrow> TrendResult.trend (calculateTrend now history a) = Trend.NEUTRAL)
   \<and> (moreThan60Percent (\<lambda>x. js_gt x (Fin (rd 0.05))) (window15m now history a)
       \<and> \<not> js_gt (windowMean (window15m now history a)) (Fin (rd 0.05))
      \<longrightarrow> TrendResult.trend (calculateTrend now history a) = Trend.NEUTRAL)
   \<and> (js_gt (windowMean (window15m now history a)) (Fin (rd 0.05))
       \<and> \<not> moreThan60Percent (\<lambda>x. js_gt x (Fin (rd 0.05))) (window15m now history a)
      \<longrightarrow> TrendResult.trend (calculateTrend now history a) = Trend.NEUTRAL)
   \<and> (moreThan60Percent (\<lambda>x. js_lt x (Fin (- rd 0.05))) (window15m now history a)
       \<and> \<not> js_lt (windowMean (window15m now history a)) (Fin (- rd 0.05))
      \<longrightarrow> TrendResult.trend (calculateTrend now history a) = Trend.NEUTRAL)
   \<and> (js_lt (windowMean (window15m now history a)) (Fin (- rd 0.05))
       \<and> \<not> moreThan60Percent (\<lambda>x. js_lt x (Fin (- rd 0.05))) (window15m now history a)
      \<longrightarrow> TrendResult.trend (calculateTrend now history a) = Trend.NEUTRAL)
   \<and> (window15m now history a = []
      \<longrightarrow> TrendResult.trend (calculateTrend now history a) = Trend.NEUTRAL
          \<and> TrendResult.avg (calculateTrend now history a) = Fin 0)
   \<and> (window15m now history a \<noteq> []
      \<longrightarrow> TrendResult.avg (calculateTrend now history a)
          = windowMean (window15m now history a))"
proof (cases "window15m now history a = []")
  case True
  then show ?thesis
    by (simp add: calculateTrend_unfold moreThan60Percent_def)
next
  case False
  define w where "w = window15m now history a"
  define U where "U = (\<lambda>x. js_gt x (Fin (rd 0.05)))"
  define D where "D = (\<lambda>x. js_lt x (Fin (- rd 0.05)))"
  define t where "t = TrendResult.trend (calculateTrend now history a)"
  have lw: "length w < 2 ^ 32"
    using length_window15m [of now history a] assms unfolding w_def by simp
  have up: "ratioAbove U w = moreThan60Percent U w"
    using ratioAbove_only_if [of U w] ratioAbove_if [of U w] lw by blast
  have down: "ratioAbove D w = moreThan60Percent D w"
    using ratioAbove_only_if [of D w] ratioAbove_if [of D w] lw by blast
  have t: "t = (if moreThan60Percent U w \<and> U (windowMean w) then BULLISH
              else if moreThan60Percent D w \<and> D (windowMean w) then BEARISH else Trend.NEUTRAL)"
    using False unfolding t_def up [symmetric] down [symmetric]
    by (simp add: calculateTrend_unfold w_def U_def D_def)
  have m: "TrendResult.avg (calculateTrend now history a) = windowMean w"
    using False by (simp add: calculateTrend_unfold w_def)
  have x1: "\<not> (moreThan60Percent U w \<and> moreThan60Percent D w)"
    unfolding U_def D_def by (rule up_down_exclusive)
  have x2: "\<not> (U (windowMean w) \<and> D (windowMean w))"
    unfolding U_def D_def by (rule js_gt_lt_exclusive)
  have ne: "w \<noteq> []" using False by (simp add: w_def)
  have "(t = BULLISH \<longleftrightarrow> moreThan60Percent U w \<and> U (windowMean w))
   \<and> (t = BEARISH \<longleftrightarrow> moreThan60Percent D w \<and> D (windowMean w))
   \<and> (t \<noteq> BULLISH \<and> t \<noteq> BEARISH \<longrightarrow> t = Trend.NEUTRAL)
   \<and> (moreThan60Percent U w \<and> \<not> U (windowMean w) \<longrightarrow> t = Trend.NEUTRAL)
   \<and> (U (windowMean w) \<and> \<not> moreThan60Percent U w \<longrightarrow> t = Trend.NEUTRAL)
   \<and> (moreThan60Percent D w \<and> \<not> D (windowMean w) \<longrightarrow> t = Trend.NEUTRAL)
   \<and> (D (windowMean w) \<and> \<not> moreThan60Percent D w \<longrightarrow> t = Trend.NEUTRAL)
   \<and> (w = [] \<longrightarrow> t = Trend.NEUTRAL \<and> TrendResult.avg (calculateTrend now history a) = Fin 0)
   \<and> (w \<noteq> [] \<longrightarrow> TrendResult.avg (calculateTrend now history a) = windowMean w)"
    using x1 x2 ne m unfolding t by auto
  then show ?thesis
    unfolding t_def w_def U_def D_def .
qed

lemma fl_frac:
  assumes "\<bar>n\<bar> < 2 ^ 53" and "k \<le> 1074"
  shows "fl (of_int n / 2 ^ k) = Fin (of_int n / 2 ^ k)"
proof -
  have p: "(1::real) \<le> 2 ^ k" by simp
  have "\<bar>n\<bar> \<le> 2 ^ 53 - 1" using assms(1) by simp
  then have "real_of_int \<bar>n\<bar> \<le> of_int (2 ^ 53 - 1)" by (simp only: of_int_le_iff)
  then have a: "\<bar>real_of_int n\<bar> \<le> of_int (2 ^ 53 - 1)" by simp
  have "\<bar>real_of_int n\<bar> * 1 \<le> \<bar>real_of_int n\<bar> * 2 ^ k"
    using p by (intro mult_left_mono) simp_all
  then have "\<bar>real_of_int n / 2 ^ k\<bar> \<le> \<bar>real_of_int n\<bar>"
    by (simp add: field_simps)
  then have "of_int (- (2 ^ 53 - 1)) \<le> real_of_int n / 2 ^ k" "real_of_int n / 2 ^ k \<le> of_int (2 ^ 53 - 1)"
    using a by linarith+
  then have "fl (of_int n / 2 ^ k) = Fin (rd (of_int n / 2 ^ k))"
    by (rule fl_between) simp_all
  then show ?thesis using rd_frac [OF assms] by simp
qed

lemma example_sums:
  "fl (1 / 4) = Fin (1 / 4)" "fl (5 / 8) = Fin (5 / 8)"
  "fl (- (1 / 4)) = Fin (- (1 / 4))" "fl (- (3 / 4)) = Fin (- (3 / 4))"
  "fl (- (5 / 8)) = Fin (- (5 / 8))"
  using fl_frac [of 1 2] fl_frac [of 5 3] fl_frac [of "- 1" 2] fl_frac [of "- 3" 2]
    fl_frac [of "- 5" 3]
  by simp_all

lemma exampleWindow:
  "window15m 905000 exampleHistory Btc = [Fin (1 / 4), Fin (3 / 8), Fin 0]"
  by (simp add: window15m_def exampleHistory_def reading_def)

lemma exampleWindowEth:
  "window15m 905000 exampleHistory Eth = [Fin (- (1 / 4)), Fin (- (1 / 2)), Fin (1 / 8)]"
  by (simp add: window15m_def exampleHistory_def reading_def)

lemma exampleMean:
  "windowMean (window15m 905000 exampleHistory Btc) = fl (5 / 24)"
  "windowMean (window15m 905000 exampleHistory Eth) = fl (- (5 / 24))"
  by (simp_all add: exampleWindow exampleWindowEth windowMean_def js_sum_def example_sums)

lemma rd_5_24: "1 / 8 \<le> rd (5 / 24)" "rd (- (5 / 24)) \<le> - (1 / 8)"
proof -
  show "1 / 8 \<le> rd (5 / 24)" using rd_ge_frac [of 1 3 "5 / 24"] by simp
  show "rd (- (5 / 24)) \<le> - (1 / 8)" using rd_le_frac [of "- (5 / 24)" "- 1" 3] by simp
qed

lemma lit_008: "rd 0.08 = 5764607523034235 / 2 ^ 56" "rd (2 / 25) = 5764607523034235 / 2 ^ 56"
  using rd_eval [of "0.08" "- 56"] by (simp_all add: round_even_def)

lemma lit_006: "rd 0.06 = 1080863910568919 / 2 ^ 54" "rd (3 / 50) = 1080863910568919 / 2 ^ 54"
  using rd_eval [of "0.06" "- 57"] by (simp_all add: round_even_def)

lemma lit_001: "rd 0.01 = 5764607523034235 / 2 ^ 59" "rd (1 / 100) = 5764607523034235 / 2 ^ 59"
  using rd_eval [of "0.01" "- 59"] by (simp_all add: round_even_def)

lemma fl_neg_eval:
  assumes "0 \<le> y" and "y \<le> 1" and "rd y = r"
  shows "fl (- y) = Fin (- r)"
proof -
  have "of_int (- 1) \<le> - y" "- y \<le> of_int 1" using assms(1,2) by simp_all
  then have "fl (- y) = Fin (rd (- y))" by (rule fl_between) simp_all
  then show ?thesis using assms(3) by (simp add: rd_minus)
qed

lemma edge_window:
  "window15m 905000 exampleEdgeHistory Btc = [Fin (- rd 0.08), Fin (- rd 0.06), Fin (- rd 0.01)]"
  by (simp add: window15m_def exampleEdgeHistory_def reading_def)

lemma edge_mean:
  "windowMean [Fin (- rd 0.08), Fin (- rd 0.06), Fin (- rd 0.01)]
     = Fin (- (7205759403792795 / 2 ^ 57))"
proof -
  define a :: real where "a = 5764607523034235 / 2 ^ 56"
  define b :: real where "b = 1080863910568919 / 2 ^ 54"
  define c :: real where "c = 5764607523034235 / 2 ^ 59"
  define s2 :: real where "s2 = 1261007895663739 / 2 ^ 53"
  define s3 :: real where "s3 = 1351079888211149 / 2 ^ 53"
  define av :: real where "av = 7205759403792795 / 2 ^ 57"
  have lits: "rd 0.08 = a" "rd 0.06 = b" "rd 0.01 = c"
    by (simp_all add: a_def b_def c_def lit_008 lit_006 lit_001)
  have "rd (of_int 5764607523034235 / 2 ^ 56) = of_int 5764607523034235 / 2 ^ 56"
    by (rule rd_frac) simp_all
  then have ra: "rd a = a" by (simp add: a_def)
  have rs2: "rd (a + b) = s2"
    unfolding a_def b_def s2_def
    using rd_eval [of "5764607523034235 / 2 ^ 56 + 1080863910568919 / 2 ^ 54" "- 55"]
    by (simp add: round_even_def)
  have rs3: "rd (s2 + c) = s3"
    unfolding s2_def c_def s3_def
    using rd_eval [of "1261007895663739 / 2 ^ 53 + 5764607523034235 / 2 ^ 59" "- 55"]
    by (simp add: round_even_def)
  have rav: "rd (s3 / 3) = av"
    unfolding s3_def av_def
    using rd_eval [of "1351079888211149 / 2 ^ 53 / 3" "- 57"]
    by (simp add: round_even_def)
  have bounds: "0 \<le> a" "a \<le> 1" "0 \<le> a + b" "a + b \<le> 1" "0 \<le> s2 + c" "s2 + c \<le> 1"
      "0 \<le> s3 / 3" "s3 / 3 \<le> 1"
    by (simp_all add: a_def b_def c_def s2_def s3_def)
  have 1: "js_add (Fin 0) (Fin (- a)) = Fin (- a)"
    using fl_neg_eval [OF bounds(1,2) ra] by simp
  have 2: "js_add (Fin (- a)) (Fin (- b)) = Fin (- s2)"
    using fl_neg_eval [OF bounds(3,4) rs2] by simp
  have 3: "js_add (Fin (- s2)) (Fin (- c)) = Fin (- s3)"
    using fl_neg_eval [OF bounds(5,6) rs3] by simp
  have "s3 \<noteq> 0" by (simp add: s3_def)
  then have 4: "js_div (Fin (- s3)) (Fin 3) = Fin (- av)"
    using fl_neg_eval [OF bounds(7,8) rav] by simp
  have "windowMean [Fin (- a), Fin (- b), Fin (- c)] =
      js_div (js_add (js_add (js_add (Fin 0) (Fin (- a))) (Fin (- b))) (Fin (- c))) (Fin 3)"
    by (simp add: windowMean_def js_sum_def)
  also have "\<dots> = Fin (- av)"
    unfolding 1 2 3 4 ..
  finally show ?thesis
    unfolding lits av_def .
qed

text \<open>
  On this history the exact mean of the window is not below -0.05, and the tracker, like
  the code, returns BEARISH: the binary64 mean is below the binary64 value of -0.05.
\<close>

lemma calculateTrend_edge:
  "TrendResult.trend (calculateTrend 905000 exampleEdgeHistory Btc) = BEARISH"
proof -
  let ?w = "[Fin (- rd 0.08), Fin (- rd 0.06), Fin (- rd 0.01)]"
  have d: "ratioAbove (\<lambda>x. js_lt x (Fin (- rd 0.05))) ?w"
    by (rule ratioAbove_if)
       (simp_all add: moreThan60Percent_def lit_005 lit_008 lit_006 lit_001)
  have m: "js_lt (windowMean ?w) (Fin (- rd 0.05))"
    unfolding edge_mean by (simp add: lit_005)
  have n: "\<not> js_gt (windowMean ?w) (Fin (rd 0.05))"
    using m js_gt_lt_exclusive by blast
  show ?thesis
    unfolding calculateTrend_unfold edge_window using d m n by simp
qed

theorem calculateTrend_classification_witness:
  "length exampleHistory < 2 ^ 32
   \<and> moreThan60Percent (\<lambda>x. js_gt x (Fin (rd 0.05))) (window15m 905000 exampleHistory Btc)
   \<and> js_gt (windowMean (window15m 905000 exampleHistory Btc)) (Fin (rd 0.05))
   \<and> TrendResult.trend (calculateTrend 905000 exampleHistory Btc) = BULLISH
   \<and> moreThan60Percent (\<lambda>x. js_lt x (Fin (- rd 0.05))) (window15m 905000 exampleHistory Eth)
   \<and> js_lt (windowMean (window15m 905000 exampleHistory Eth)) (Fin (- rd 0.05))
   \<and> TrendResult.trend (calculateTrend 905000 exampleHistory Eth) = BEARISH
   \<and> window15m 2000000 exampleHistory Btc = []
   \<and> TrendResult.trend (calculateTrend 2000000 exampleHistory Btc) = Trend.NEUTRAL
   \<and> TrendResult.avg (calculateTrend 2000000 exampleHistory Btc) = Fin 0
   \<and> window15m 905000 exampleHistory Btc \<noteq> []
   \<and> TrendResult.avg (calculateTrend 905000 exampleHistory Btc)
       = windowMean (window15m 905000 exampleHistory Btc)
   \<and> length exampleEdgeHistory < 2 ^ 32
   \<and> TrendResult.trend (calculateTrend 905000 exampleEdgeHistory Btc) = BEARISH
   \<and> moreThan60Percent (\<lambda>x. js_lt x (Fin (- rd 0.05))) (window15m 905000 exampleEdgeHistory Btc)
   \<and> js_lt (windowMean (window15m 905000 exampleEdgeHistory Btc)) (Fin (- rd 0.05))"
proof -
  have elen: "length exampleEdgeHistory < 2 ^ 32"
    by (simp add: exampleEdgeHistory_def)
  have g: "TrendResult.trend (calculateTrend 905000 exampleEdgeHistory Btc) = BEARISH"
    by (rule calculateTrend_edge)
  have G: "moreThan60Percent (\<lambda>x. js_lt x (Fin (- rd 0.05))) (window15m 905000 exampleEdgeHistory Btc)
      \<and> js_lt (windowMean (window15m 905000 exampleEdgeHistory Btc)) (Fin (- rd 0.05))"
    using g calculateTrend_classification [OF elen, of 905000 Btc] by blast
  have len: "length exampleHistory < 2 ^ 32"
    by (simp add: exampleHistory_def)
  have up: "moreThan60Percent (\<lambda>x. js_gt x (Fin (rd 0.05))) (window15m 905000 exampleHistory Btc)"
    by (simp add: exampleWindow moreThan60Percent_def js_gt_def lit_005)
  have mean_up: "js_gt (windowMean (window15m 905000 exampleHistory Btc)) (Fin (rd 0.05))"
    unfolding exampleMean using rd_5_24 by (subst js_gt_fl) (simp_all add: lit_005)
  have down: "moreThan60Percent (\<lambda>x. js_lt x (Fin (- rd 0.05))) (window15m 905000 exampleHistory Eth)"
    by (simp add: exampleWindowEth moreThan60Percent_def lit_005)
  have mean_down: "js_lt (windowMean (window15m 905000 exampleHistory Eth)) (Fin (- rd 0.05))"
    unfolding exampleMean using rd_5_24 by (subst js_lt_fl) (simp_all add: lit_005)
  have empty: "window15m 2000000 exampleHistory Btc = []"
    by (simp add: window15m_def exampleHistory_def)
  have nonempty: "window15m 905000 exampleHistory Btc \<noteq> []"
    by (simp add: exampleWindow)
  have b: "TrendResult.trend (calculateTrend 905000 exampleHistory Btc) = BULLISH"
      "TrendResult.avg (calculateTrend 905000 exampleHistory Btc)
         = windowMean (window15m 905000 exampleHistory Btc)"
    using up mean_up nonempty calculateTrend_classification [OF len, of 905000 Btc] by blast+
  have e: "TrendResult.trend (calculateTrend 905000 exampleHistory Eth) = BEARISH"
    using down mean_down calculateTrend_classification [OF len, of 905000 Eth] by blast
  have n: "TrendResult.trend (calculateTrend 2000000 exampleHistory Btc) = Trend.NEUTRAL"
      "TrendResult.avg (calculateTrend 2000000 exampleHistory Btc) = Fin 0"
    using empty calculateTrend_classification [OF len, of 2000000 Btc] by blast+
  show ?thesis
    using len up mean_up down mean_down empty nonempty b e n elen g G by blast
qed

section \<open>Properties of the Signal Synthesizer\<close>

lemma generateSignal_action:
  "Signal.action (generateSignal now as hl ok kr ws sl rl i15 tr) = fst (trendDecision tr i15)"
  by (simp add: generateSignal_def Let_def split_def)

lemma generateSignal_confidence:
  "Signal.confidence (generateSignal now as hl ok kr ws sl rl i15 tr) =
     js_round (if fst (trendDecision tr i15) \<noteq> WAIT
               then boostConfidence (fst (trendDecision tr i15))
                      (combinedImbalanceOf (validExchanges [hl, ok, kr]))
                      (snd (trendDecision tr i15)) [hl, ok, kr]
               else snd (trendDecision tr i15))"
  by (simp add: generateSignal_def Let_def split_def)

lemma fl_in:
  assumes "of_int a \<le> x" and "x \<le> of_int b" and "\<bar>a\<bar> < 2 ^ 53" and "\<bar>b\<bar> < 2 ^ 53"
  shows "fl x = Fin (rd x) \<and> of_int a \<le> rd x \<and> rd x \<le> of_int b"
  using fl_between [OF assms] rd_between [OF assms] by simp

lemma scaled_confidence:
  assumes "0 \<le> a" and "a \<le> 1"
  shows "\<exists>c. js_min (Fin 95) (js_add (Fin 50) (js_mul (Fin a) (Fin 150))) = Fin c
           \<and> 0 \<le> c \<and> c \<le> 95"
proof -
  have "of_int 0 \<le> a * 150" "a * 150 \<le> of_int 150" using assms by simp_all
  then have m: "fl (a * 150) = Fin (rd (a * 150)) \<and> of_int 0 \<le> rd (a * 150)
      \<and> rd (a * 150) \<le> of_int 150"
    by (rule fl_in) simp_all
  then have "of_int 50 \<le> 50 + rd (a * 150)" "50 + rd (a * 150) \<le> of_int 200" by simp_all
  then have s: "fl (50 + rd (a * 150)) = Fin (rd (50 + rd (a * 150)))
      \<and> of_int 50 \<le> rd (50 + rd (a * 150)) \<and> rd (50 + rd (a * 150)) \<le> of_int 200"
    by (rule fl_in) simp_all
  show ?thesis using m s by simp
qed

lemma waiting_confidence:
  assumes "- 1 \<le> a" and "a \<le> 1"
  shows "js_mul (js_abs (Fin a)) (Fin 100) = Fin (rd (\<bar>a\<bar> * 100))
           \<and> 0 \<le> rd (\<bar>a\<bar> * 100) \<and> rd (\<bar>a\<bar> * 100) \<le> 100"
proof -
  have "of_int 0 \<le> \<bar>a\<bar> * 100" "\<bar>a\<bar> * 100 \<le> of_int 100" using assms by simp_all
  then have "fl (\<bar>a\<bar> * 100) = Fin (rd (\<bar>a\<bar> * 100)) \<and> of_int 0 \<le> rd (\<bar>a\<bar> * 100)
      \<and> rd (\<bar>a\<bar> * 100) \<le> of_int 100"
    by (rule fl_in) simp_all
  then show ?thesis by simp
qed

lemma trendDecision_finite:
  assumes "- 1 \<le> a" and "a \<le> 1"
  shows "\<exists>c. snd (trendDecision tr (Fin a)) = Fin c \<and> 0 \<le> c \<and> c \<le> 100
           \<and> (fst (trendDecision tr (Fin a)) \<noteq> WAIT \<longrightarrow> c \<le> 95)
           \<and> (fst (trendDecision tr (Fin a)) = WAIT \<longrightarrow> c = rd (\<bar>a\<bar> * 100))"
proof -
  have p: "0 < rd 0.10" by (simp add: lit_01)
  consider (long) "tr = BULLISH" "js_gt (Fin a) (Fin (rd 0.10))"
    | (short) "\<not> (tr = BULLISH \<and> js_gt (Fin a) (Fin (rd 0.10)))"
        "tr = BEARISH" "js_lt (Fin a) (Fin (- rd 0.10))"
    | (wait) "\<not> (tr = BULLISH \<and> js_gt (Fin a) (Fin (rd 0.10)))"
        "\<not> (tr = BEARISH \<and> js_lt (Fin a) (Fin (- rd 0.10)))"
    by blast
  then show ?thesis
  proof cases
    case long
    then have "0 \<le> a" using p by (simp add: js_gt_def)
    then obtain c where "js_min (Fin 95) (js_add (Fin 50) (js_mul (Fin a) (Fin 150))) = Fin c"
        "0 \<le> c" "c \<le> 95"
      using scaled_confidence [of a] assms by blast
    then show ?thesis using long by (simp add: trendDecision_def)
  next
    case short
    have "0 \<le> \<bar>a\<bar>" "\<bar>a\<bar> \<le> 1" using assms by simp_all
    then obtain c where "js_min (Fin 95) (js_add (Fin 50) (js_mul (Fin \<bar>a\<bar>) (Fin 150))) = Fin c"
        "0 \<le> c" "c \<le> 95"
      using scaled_confidence [of "\<bar>a\<bar>"] by blast
    then show ?thesis using short by (simp add: trendDecision_def)
  next
    case wait
    then show ?thesis
      using waiting_confidence [OF assms] by (auto simp: trendDecision_def js_gt_def)
  qed
qed

lemma bump_bounds:
  assumes "0 \<le> c" and "c \<le> 95" and "k = 10 \<or> k = 5"
  shows "\<exists>c'. js_min (Fin 95) (js_add (Fin c) (Fin k)) = Fin c' \<and> 0 \<le> c' \<and> c' \<le> 95"
proof -
  have "of_int 0 \<le> c + k" "c + k \<le> of_int 105" using assms by auto
  then have "fl (c + k) = Fin (rd (c + k)) \<and> of_int 0 \<le> rd (c + k) \<and> rd (c + k) \<le> of_int 105"
    by (rule fl_in) simp_all
  then show ?thesis by simp
qed

lemma boostConfidence_bounds:
  assumes "0 \<le> c" and "c \<le> 95"
  shows "\<exists>c'. boostConfidence act ci (Fin c) ds = Fin c' \<and> 0 \<le> c' \<and> c' \<le> 95"
proof -
  define b1 where "b1 = ((act = Action.LONG \<and> js_gt ci (Fin (rd 0.1)))
                \<or> (act = Action.SHORT \<and> js_lt ci (Fin (- rd 0.1))))"
  define x1 where "x1 = (if b1 then js_min (Fin 95) (js_add (Fin c) (Fin 10)) else Fin c)"
  obtain c1 where c1: "x1 = Fin c1" "0 \<le> c1" "c1 \<le> 95"
    using bump_bounds [OF assms, of 10] assms unfolding x1_def by (cases b1) auto
  define n where "n = length (filter (agrees act) ds)"
  define x2 where "x2 = (if n \<ge> 2 then js_min (Fin 95) (js_add x1 (Fin 10)) else x1)"
  obtain c2 where c2: "x2 = Fin c2" "0 \<le> c2" "c2 \<le> 95"
    using bump_bounds [OF c1(2,3), of 10] c1 unfolding x2_def by (cases "n \<ge> 2") auto
  define x3 where "x3 = (if n = 3 then js_min (Fin 95) (js_add x2 (Fin 5)) else x2)"
  obtain c3 where c3: "x3 = Fin c3" "0 \<le> c3" "c3 \<le> 95"
    using bump_bounds [OF c2(2,3), of 5] c2 unfolding x3_def by (cases "n = 3") auto
  have "boostConfidence act ci (Fin c) ds = x3"
    unfolding boostConfidence_def Let_def x3_def x2_def x1_def b1_def n_def ..
  then show ?thesis using c3 by simp
qed

lemma round_half_up_bounds:
  assumes "0 \<le> c" and "c \<le> of_int m" and "0 \<le> m"
  shows "0 \<le> \<lfloor>c + 1 / 2\<rfloor>" and "\<lfloor>c + 1 / 2\<rfloor> \<le> m"
proof -
  show "0 \<le> \<lfloor>c + 1 / 2\<rfloor>" using assms(1) by simp
  have "c + 1 / 2 < of_int (m + 1)" using assms(2) by simp
  then have "\<lfloor>c + 1 / 2\<rfloor> < m + 1" by (simp only: floor_less_iff)
  then show "\<lfloor>c + 1 / 2\<rfloor> \<le> m" by simp
qed

text \<open>
  Claim C2, as amended. For a 15-minute average in [-1, 1] the confidence of the returned
  Signal is an integer in [0, 100]. It is at most 95 when the action is LONG or SHORT. When
  the action is WAIT it is \<open>Math.round(Math.abs(avg) * 100)\<close>, the product rounded to
  binary64 before \<open>Math.round\<close>, which no clamp bounds by 95.
\<close>

theorem generateSignal_confidence_range:
  assumes "- 1 \<le> a" and "a \<le> 1"
  shows "\<exists>n::int. Signal.confidence (generateSignal now as hl ok kr ws sl rl (Fin a) tr) = Fin (of_int n)
           \<and> 0 \<le> n \<and> n \<le> 100
           \<and> (Signal.action (generateSignal now as hl ok kr ws sl rl (Fin a) tr) \<noteq> WAIT \<longrightarrow> n \<le> 95)
           \<and> (Signal.action (generateSignal now as hl ok kr ws sl rl (Fin a) tr) = WAIT \<longrightarrow>
                n = \<lfloor>rd (\<bar>a\<bar> * 100) + 1 / 2\<rfloor>)"
proof -
  obtain c where c: "snd (trendDecision tr (Fin a)) = Fin c" "0 \<le> c" "c \<le> 100"
      "fst (trendDecision tr (Fin a)) \<noteq> WAIT \<longrightarrow> c \<le> 95"
      "fst (trendDecision tr (Fin a)) = WAIT \<longrightarrow> c = rd (\<bar>a\<bar> * 100)"
    using trendDecision_finite [OF assms] by blast
  show ?thesis
  proof (cases "fst (trendDecision tr (Fin a)) = WAIT")
    case True
    have "0 \<le> \<lfloor>c + 1 / 2\<rfloor>" "\<lfloor>c + 1 / 2\<rfloor> \<le> 100"
      using round_half_up_bounds [of c 100] c by simp_all
    then show ?thesis
      using True c
      by (simp add: generateSignal_action generateSignal_confidence round_half_up_def)
  next
    case False
    then have c95: "c \<le> 95" using c by simp
    obtain c' where c': "boostConfidence (fst (trendDecision tr (Fin a)))
        (combinedImbalanceOf (validExchanges [hl, ok, kr])) (Fin c) [hl, ok, kr] = Fin c'"
        "0 \<le> c'" "c' \<le> 95"
      using boostConfidence_bounds [OF c(2) c95] by blast
    have "0 \<le> \<lfloor>c' + 1 / 2\<rfloor>" "\<lfloor>c' + 1 / 2\<rfloor> \<le> 95"
      using round_half_up_bounds [of c' 95] c' by simp_all
    then show ?thesis
      using False c c'
      by (simp add: generateSignal_action generateSignal_confidence round_half_up_def)
  qed
qed

lemma lit_0175: "rd 0.175 = 3152519739159347 / 2 ^ 54" "rd (7 / 40) = 3152519739159347 / 2 ^ 54"
  using rd_eval [of "0.175" "- 55"] by (simp_all add: round_even_def)

text \<open>\<open>0.175 * 100\<close> is 17.5 in binary64, although the binary64 value of 0.175 is below 0.175.\<close>

lemma product_0175: "rd (rd 0.175 * 100) = 35 / 2"
  unfolding lit_0175 using rd_eval [of "3152519739159347 / 2 ^ 54 * 100" "- 48"]
  by (simp add: round_even_def)

theorem generateSignal_confidence_range_witness:
  "- 1 \<le> (1 / 4 :: real) \<and> (1 / 4 :: real) \<le> 1
   \<and> Signal.action (generateSignal 1000 ''BTC'' None None None [] [] [] (Fin (1 / 4)) BULLISH)
       = Action.LONG
   \<and> (\<exists>n::int. Signal.confidence
          (generateSignal 1000 ''BTC'' None None None [] [] [] (Fin (1 / 4)) BULLISH) = Fin (of_int n)
        \<and> 0 \<le> n \<and> n \<le> 95)
   \<and> - 1 \<le> rd 0.175 \<and> rd 0.175 \<le> 1
   \<and> Signal.action (generateSignal 1000 ''BTC'' None None None [] [] [] (Fin (rd 0.175)) Trend.NEUTRAL)
       = WAIT
   \<and> Signal.confidence
          (generateSignal 1000 ''BTC'' None None None [] [] [] (Fin (rd 0.175)) Trend.NEUTRAL) = Fin 18"
proof -
  have h: "- 1 \<le> (1 / 4 :: real)" "(1 / 4 :: real) \<le> 1" by simp_all
  have g: "- 1 \<le> rd 0.175" "rd 0.175 \<le> 1" by (simp_all add: lit_0175)
  have a: "Signal.action (generateSignal 1000 ''BTC'' None None None [] [] [] (Fin (1 / 4)) BULLISH)
       = Action.LONG"
    by (simp add: generateSignal_action trendDecision_def js_gt_def lit_01)
  have w: "Signal.action (generateSignal 1000 ''BTC'' None None None [] [] [] (Fin (rd 0.175)) Trend.NEUTRAL)
       = WAIT"
    by (simp add: generateSignal_action trendDecision_def)
  have "\<bar>rd 0.175\<bar> = rd 0.175" by (simp add: lit_0175)
  then have "rd (\<bar>rd 0.175\<bar> * 100) = 35 / 2" using product_0175 by (simp only:)
  then have r: "\<lfloor>rd (\<bar>rd 0.175\<bar> * 100) + 1 / 2\<rfloor> = 18" by (simp only:) simp
  have A: "\<exists>n::int. Signal.confidence
          (generateSignal 1000 ''BTC'' None None None [] [] [] (Fin (1 / 4)) BULLISH) = Fin (of_int n)
        \<and> 0 \<le> n \<and> n \<le> 95"
    using a generateSignal_confidence_range [OF h, of 1000 "''BTC''" None None None "[]" "[]" "[]" BULLISH]
    by auto
  have W: "Signal.confidence
          (generateSignal 1000 ''BTC'' None None None [] [] [] (Fin (rd 0.175)) Trend.NEUTRAL) = Fin 18"
    using w r generateSignal_confidence_range [OF g, of 1000 "''BTC''" None None None "[]" "[]" "[]" Trend.NEUTRAL]
    by auto
  show ?thesis
    using h g a w A W by blast
qed

text \<open>
  With trend NEUTRAL and a 15-minute average of 1 the action is WAIT and the confidence is
  100, above 95.
\<close>

theorem generateSignal_wait_confidence_100:
  "Signal.action (generateSignal 0 ''BTC'' None None None [] [] [] (Fin 1) Trend.NEUTRAL) = WAIT
   \<and> Signal.confidence (generateSignal 0 ''BTC'' None None None [] [] [] (Fin 1) Trend.NEUTRAL) = Fin 100
   \<and> js_gt (Signal.confidence (generateSignal 0 ''BTC'' None None None [] [] [] (Fin 1) Trend.NEUTRAL)) (Fin 95)"
  by (simp add: generateSignal_action generateSignal_confidence trendDecision_def js_gt_def round_half_up_def)

text \<open>
  Claim C4, as amended. Two runs on the same inputs agree on every field except those read
  from the clock: the Signal's own timestamp and the timestamp of the zeroed placeholder that
  stands for an absent venue. The second run is the first with these timestamps replaced.
\<close>

theorem generateSignal_clock:
  "generateSignal now2 as hl ok kr ws sl rl i15 tr =
     (generateSignal now1 as hl ok kr ws sl rl i15 tr)
       \<lparr>hyperliquid := orEmpty hl now2, okx := orEmpty ok now2, kraken := orEmpty kr now2,
        Signal.timestamp := now2\<rparr>
   \<and> orEmpty hl now2 = (orEmpty hl now1)
       \<lparr>ExchangeData.timestamp := (case hl of Some d \<Rightarrow> ExchangeData.timestamp d | None \<Rightarrow> now2)\<rparr>
   \<and> orEmpty ok now2 = (orEmpty ok now1)
       \<lparr>ExchangeData.timestamp := (case ok of Some d \<Rightarrow> ExchangeData.timestamp d | None \<Rightarrow> now2)\<rparr>
   \<and> orEmpty kr now2 = (orEmpty kr now1)
       \<lparr>ExchangeData.timestamp := (case kr of Some d \<Rightarrow> ExchangeData.timestamp d | None \<Rightarrow> now2)\<rparr>"
proof -
  have e: "\<And>d. orEmpty d now2 = (orEmpty d now1)
       \<lparr>ExchangeData.timestamp := (case d of Some e \<Rightarrow> ExchangeData.timestamp e | None \<Rightarrow> now2)\<rparr>"
    by (simp add: orEmpty_def emptyData_def split: option.splits)
  have p: "\<And>d. ExchangeData.price (orEmpty d now2) = ExchangeData.price (orEmpty d now1)"
    by (simp add: orEmpty_def emptyData_def split: option.splits)
  have "spreadBps (orEmpty hl now2) (orEmpty ok now2) = spreadBps (orEmpty hl now1) (orEmpty ok now1)"
    by (simp add: spreadBps_def p)
  then have "generateSignal now2 as hl ok kr ws sl rl i15 tr =
     (generateSignal now1 as hl ok kr ws sl rl i15 tr)
       \<lparr>hyperliquid := orEmpty hl now2, okx := orEmpty ok now2, kraken := orEmpty kr now2,
        Signal.timestamp := now2\<rparr>"
    by (simp add: generateSignal_def Let_def split_def)
  then show ?thesis using e by simp
qed

text \<open>
  Two runs on the same inputs at clock readings 1000 and 3000 return different Signals.
\<close>

theorem generateSignal_twice_differs:
  "generateSignal 1000 ''BTC'' None None None [] [] [] (Fin 0) Trend.NEUTRAL
   \<noteq> generateSignal 3000 ''BTC'' None None None [] [] [] (Fin 0) Trend.NEUTRAL"
proof
  assume "generateSignal 1000 ''BTC'' None None None [] [] [] (Fin 0) Trend.NEUTRAL
   = generateSignal 3000 ''BTC'' None None None [] [] [] (Fin 0) Trend.NEUTRAL"
  then have "Signal.timestamp (generateSignal 1000 ''BTC'' None None None [] [] [] (Fin 0) Trend.NEUTRAL)
   = Signal.timestamp (generateSignal 3000 ''BTC'' None None None [] [] [] (Fin 0) Trend.NEUTRAL)"
    by simp
  then show False
    by (simp add: generateSignal_def Let_def split_def)
qed

section \<open>Properties of the Level Detector\<close>

lemma detectLevels_venueOrders:
  "detectLevels hlBook okxBook krakenBook sd a =
     take 5 (sortByStrength
       (map (\<lambda>(p, d). scoreLevel a p d)
         (filter (\<lambda>(p, d). \<not> (referencePrice hlBook okxBook krakenBook > 0
                    \<and> rd (\<bar>rd (p - referencePrice hlBook okxBook krakenBook)\<bar>
                        / referencePrice hlBook okxBook krakenBook) > rd 0.05))
           (processOrders (\<lambda>e. e\<lparr>hasKraken := True\<rparr>) (if a = ''BTC'' then 100 else 10)
              (venueOrders sd krakenBook)
              (processOrders (\<lambda>e. e\<lparr>hasOKX := True\<rparr>) (if a = ''BTC'' then 100 else 10)
                 (venueOrders sd okxBook)
                 (processOrders (\<lambda>e. e\<lparr>hasHL := True\<rparr>) (if a = ''BTC'' then 100 else 10)
                    (venueOrders sd hlBook) []))))))"
  by (simp add: detectLevels_def Let_def venueOrders_def split: option.splits)

lemma bucket_96000: "round_half_up 960 = 960" "roundedPriceOf 100 96000 = 96000"
  by (simp_all add: round_half_up_def roundedPriceOf_def)

lemma process_first:
  "processOrders mark 100 [(96000, 12)] [] = [(96000, mark (emptyLevel\<lparr>LevelData.size' := 12\<rparr>))]"
  by (simp add: bucket_96000 Let_def emptyLevel_def)

lemma process_second:
  "processOrders mark 100 [(96000, 12)] [(96000, d)] =
     [(96000, mark (d\<lparr>LevelData.size' := rd (LevelData.size' d + 12)\<rparr>))]"
  by (simp add: bucket_96000 Let_def)

lemma score_96000:
  assumes "LevelData.size' d = 24"
    and "(if hasHL d then 1 else 0) + (if hasOKX d then 1 else 0) + (if hasKraken d then 1 else (0::nat)) = 2"
  shows "scoreLevel ''BTC'' 96000 d =
           \<lparr>SupportLevel.price = 96000, strength = 95, type' = wall, totalSize = 24,
            exchangeCount = 2, isRoundNumber = True\<rparr>"
proof -
  have r: "js_rem 96000 1000 = 0" by (simp add: js_rem_def)
  have f: "round_half_up 95 = 95" "round_half_up 2400 = 2400" by (simp_all add: round_half_up_def)
  have "of_int 2 / 2 ^ 0 \<le> rd (12 / 5)" by (rule rd_ge_frac) simp_all
  then have "of_int 50 / 2 ^ 0 \<le> rd (12 / 5) * 50" by simp
  then have "of_int 50 / 2 ^ 0 \<le> rd (rd (12 / 5) * 50)" by (rule rd_ge_frac) simp_all
  then have m: "min 50 (rd (rd (12 / 5) * 50)) = 50" by simp
  show ?thesis
    unfolding scoreLevel_def Let_def assms r by (simp add: f m)
qed

lemma detectLevels_single_bucket:
  assumes "(venueOrders sd hlBook, venueOrders sd okxBook, venueOrders sd krakenBook)
             \<in> {([(96000, 12)], [(96000, 12)], []),
                ([(96000, 12)], [], [(96000, 12)]),
                ([], [(96000, 12)], [(96000, 12)])}"
    and "retained (referencePrice hlBook okxBook krakenBook) 96000"
  shows "detectLevels hlBook okxBook krakenBook sd ''BTC'' =
           [\<lparr>SupportLevel.price = 96000, strength = 95, type' = wall, totalSize = 24,
             exchangeCount = 2, isRoundNumber = True\<rparr>]"
proof -
  let ?levels = "processOrders (\<lambda>e. e\<lparr>hasKraken := True\<rparr>) 100 (venueOrders sd krakenBook)
              (processOrders (\<lambda>e. e\<lparr>hasOKX := True\<rparr>) 100 (venueOrders sd okxBook)
                 (processOrders (\<lambda>e. e\<lparr>hasHL := True\<rparr>) 100 (venueOrders sd hlBook) []))"
  consider (hl_okx) "venueOrders sd hlBook = [(96000, 12)]" "venueOrders sd okxBook = [(96000, 12)]"
        "venueOrders sd krakenBook = []"
    | (hl_kraken) "venueOrders sd hlBook = [(96000, 12)]" "venueOrders sd okxBook = []"
        "venueOrders sd krakenBook = [(96000, 12)]"
    | (okx_kraken) "venueOrders sd hlBook = []" "venueOrders sd okxBook = [(96000, 12)]"
        "venueOrders sd krakenBook = [(96000, 12)]"
    using assms(1) by auto
  then obtain d where d: "?levels = [(96000, d)]" "LevelData.size' d = 24"
      "(if hasHL d then 1 else 0) + (if hasOKX d then 1 else 0)
              + (if hasKraken d then 1 else (0::nat)) = 2"
  proof cases
    case hl_okx
    show ?thesis
      by (rule that [of "\<lparr>LevelData.size' = 24, hasHL = True, hasOKX = True, hasKraken = False\<rparr>"])
         (simp_all add: hl_okx process_first process_second emptyLevel_def bucket_96000 Let_def)
  next
    case hl_kraken
    show ?thesis
      by (rule that [of "\<lparr>LevelData.size' = 24, hasHL = True, hasOKX = False, hasKraken = True\<rparr>"])
         (simp_all add: hl_kraken process_first process_second emptyLevel_def bucket_96000 Let_def)
  next
    case okx_kraken
    show ?thesis
      by (rule that [of "\<lparr>LevelData.size' = 24, hasHL = False, hasOKX = True, hasKraken = True\<rparr>"])
         (simp_all add: okx_kraken process_first process_second emptyLevel_def bucket_96000 Let_def)
  qed
  show ?thesis
    unfolding detectLevels_venueOrders
    using assms(2) by (simp add: d(1) score_96000 [OF d(2,3)] sortByStrength_def retained_def)
qed

lemma bestBid_venueOrders:
  "venueOrders Bids b = [] \<Longrightarrow> bestBid b = None"
  "venueOrders Bids b = (p, q) # rest \<Longrightarrow> bestBid b = Some p"
  by (auto simp: venueOrders_def ordersOf_def bestBid_def split: option.splits)

lemma referencePrice_bids:
  assumes "(venueOrders Bids hlBook, venueOrders Bids okxBook, venueOrders Bids krakenBook)
             \<in> {([(96000, 12)], [(96000, 12)], []),
                ([(96000, 12)], [], [(96000, 12)]),
                ([], [(96000, 12)], [(96000, 12)])}"
  shows "referencePrice hlBook okxBook krakenBook = 96000"
  using assms by (auto simp: referencePrice_def orElse_def bestBid_venueOrders)

text \<open>
  When the books hold nothing else on the requested side, the level at 96000 is the whole
  result. On the bid side the reference price is 96000 itself.
\<close>

lemma detectLevels_only_these_orders:
  assumes "(venueOrders sd hlBook, venueOrders sd okxBook, venueOrders sd krakenBook)
             \<in> {([(96000, 12)], [(96000, 12)], []),
                ([(96000, 12)], [], [(96000, 12)]),
                ([], [(96000, 12)], [(96000, 12)])}"
    and "sd = Bids \<or> retained (referencePrice hlBook okxBook krakenBook) 96000"
  shows "detectLevels hlBook okxBook krakenBook sd ''BTC'' =
           [\<lparr>SupportLevel.price = 96000, strength = 95, type' = wall, totalSize = 24,
             exchangeCount = 2, isRoundNumber = True\<rparr>]"
proof -
  have "retained (referencePrice hlBook okxBook krakenBook) 96000"
  proof (cases "sd = Bids")
    case True
    then have "referencePrice hlBook okxBook krakenBook = 96000"
      using assms(1) referencePrice_bids by simp
    then show ?thesis by (simp add: retained_def lit_005)
  next
    case False
    then show ?thesis using assms(2) by auto
  qed
  with assms(1) show ?thesis by (rule detectLevels_single_bucket)
qed

lemma detectLevels_scoredLevels:
  "detectLevels hlBook okxBook krakenBook sd a =
     take 5 (sortByStrength (scoredLevels hlBook okxBook krakenBook sd a))"
  by (simp add: detectLevels_venueOrders scoredLevels_def collectedLevels_def retained_def)

lemma mapGet_mapSet:
  "mapGet (mapSet k v M) k' = (if k' = k then Some v else mapGet M k')"
  by (induction M) auto

lemma mapGet_in_set: "mapGet M k = Some d \<Longrightarrow> (k, d) \<in> set M"
  by (induction M) (auto split: if_splits)

lemma processOrders_step:
  "processOrders mark r ((px, sz) # orders) M =
     processOrders mark r orders
       (mapSet (roundedPriceOf r px)
          (mark ((case mapGet M (roundedPriceOf r px) of Some e \<Rightarrow> e | None \<Rightarrow> emptyLevel)
                   \<lparr>LevelData.size' :=
                      rd (LevelData.size' (case mapGet M (roundedPriceOf r px) of Some e \<Rightarrow> e
                                           | None \<Rightarrow> emptyLevel) + sz)\<rparr>)) M)"
  by (simp add: Let_def)

lemma processOrders_other_bucket:
  assumes "bucketOrders r k orders = []"
  shows "mapGet (processOrders mark r orders M) k = mapGet M k"
  using assms
proof (induction orders arbitrary: M)
  case Nil
  then show ?case by simp
next
  case (Cons ord orders)
  obtain px sz where o: "ord = (px, sz)" by (cases ord)
  from Cons.prems have ne: "roundedPriceOf r px \<noteq> k" and rest: "bucketOrders r k orders = []"
    by (auto simp: bucketOrders_def o split: if_splits)
  show ?case
    unfolding o processOrders_step
    using Cons.IH [OF rest] ne by (simp add: mapGet_mapSet)
qed

lemma processOrders_one_in_bucket:
  assumes "bucketOrders r k orders = [(p0, s0)]"
  shows "mapGet (processOrders mark r orders M) k =
           Some (mark ((case mapGet M k of Some e \<Rightarrow> e | None \<Rightarrow> emptyLevel)
                   \<lparr>LevelData.size' :=
                      rd (LevelData.size' (case mapGet M k of Some e \<Rightarrow> e | None \<Rightarrow> emptyLevel)
                          + s0)\<rparr>))"
  using assms
proof (induction orders arbitrary: M)
  case Nil
  then show ?case by (simp add: bucketOrders_def)
next
  case (Cons ord orders)
  obtain px sz where o: "ord = (px, sz)" by (cases ord)
  show ?case
  proof (cases "roundedPriceOf r px = k")
    case True
    with Cons.prems have rest: "bucketOrders r k orders = []" and eq: "sz = s0"
      by (auto simp: bucketOrders_def o)
    show ?thesis
      unfolding o processOrders_step
      using True eq by (simp add: processOrders_other_bucket [OF rest] mapGet_mapSet)
  next
    case False
    with Cons.prems have rest: "bucketOrders r k orders = [(p0, s0)]"
      by (auto simp: bucketOrders_def o)
    show ?thesis
      unfolding o processOrders_step
      using False by (simp add: Cons.IH [OF rest] mapGet_mapSet)
  qed
qed

lemma in_take_sorted:
  assumes "sorted (map f ys)" and "x \<in> set ys"
    and "length (filter (\<lambda>y. f y \<le> f x) ys) \<le> n"
  shows "x \<in> set (take n ys)"
proof -
  obtain i where i: "i < length ys" "ys ! i = x"
    using assms(2) by (auto simp: in_set_conv_nth)
  have "\<forall>y \<in> set (take (Suc i) ys). f y \<le> f x"
  proof
    fix y assume "y \<in> set (take (Suc i) ys)"
    then obtain j where j: "j < Suc i" "j < length ys" "ys ! j = y"
      by (auto simp: in_set_conv_nth)
    have "map f ys ! j \<le> map f ys ! i"
      using assms(1) j(1) i(1) by (intro sorted_nth_mono) auto
    then show "f y \<le> f x" using i j by simp
  qed
  then have "filter (\<lambda>y. f y \<le> f x) (take (Suc i) ys) = take (Suc i) ys"
    by (simp add: filter_id_conv)
  then have "length (filter (\<lambda>y. f y \<le> f x) (take (Suc i) ys)) = Suc i"
    using i(1) by simp
  moreover have "length (filter (\<lambda>y. f y \<le> f x) ys) =
      length (filter (\<lambda>y. f y \<le> f x) (take (Suc i) ys))
      + length (filter (\<lambda>y. f y \<le> f x) (drop (Suc i) ys))"
    by (metis append_take_drop_id filter_append length_append)
  ultimately have "i < n" using assms(3) by simp
  then show ?thesis
    using i by (auto simp: in_set_conv_nth)
qed

lemma in_top5:
  assumes "x \<in> set result"
    and "length (filter (\<lambda>l. SupportLevel.strength l \<ge> SupportLevel.strength x) result) \<le> 5"
  shows "x \<in> set (take 5 (sortByStrength result))"
proof -
  let ?f = "\<lambda>l. - SupportLevel.strength l"
  have "length (filter (\<lambda>y. ?f y \<le> ?f x) (sort_key ?f result))
          = length (filter (\<lambda>y. ?f y \<le> ?f x) result)"
    by (simp add: filter_sort)
  also have "\<dots> \<le> 5" using assms(2) by simp
  finally have "length (filter (\<lambda>y. ?f y \<le> ?f x) (sort_key ?f result)) \<le> 5" .
  moreover have "sorted (map ?f (sort_key ?f result))" by (rule sorted_sort_key)
  moreover have "x \<in> set (sort_key ?f result)" using assms(1) by simp
  ultimately show ?thesis
    unfolding sortByStrength_def by (rule in_take_sorted [where f = ?f, rotated 2])
qed

lemma collectedLevels_bucket_96000:
  assumes "(bucketOrders 100 96000 (venueOrders sd hlBook),
            bucketOrders 100 96000 (venueOrders sd okxBook),
            bucketOrders 100 96000 (venueOrders sd krakenBook))
             \<in> {([(96000, 12)], [(96000, 12)], []),
                ([(96000, 12)], [], [(96000, 12)]),
                ([], [(96000, 12)], [(96000, 12)])}"
  shows "\<exists>d. (96000, d) \<in> set (collectedLevels hlBook okxBook krakenBook sd ''BTC'')
           \<and> LevelData.size' d = 24
           \<and> (if hasHL d then 1 else 0) + (if hasOKX d then 1 else 0)
               + (if hasKraken d then 1 else (0::nat)) = 2"
proof -
  consider (hl_okx) "bucketOrders 100 96000 (venueOrders sd hlBook) = [(96000, 12)]"
        "bucketOrders 100 96000 (venueOrders sd okxBook) = [(96000, 12)]"
        "bucketOrders 100 96000 (venueOrders sd krakenBook) = []"
    | (hl_kraken) "bucketOrders 100 96000 (venueOrders sd hlBook) = [(96000, 12)]"
        "bucketOrders 100 96000 (venueOrders sd okxBook) = []"
        "bucketOrders 100 96000 (venueOrders sd krakenBook) = [(96000, 12)]"
    | (okx_kraken) "bucketOrders 100 96000 (venueOrders sd hlBook) = []"
        "bucketOrders 100 96000 (venueOrders sd okxBook) = [(96000, 12)]"
        "bucketOrders 100 96000 (venueOrders sd krakenBook) = [(96000, 12)]"
    using assms by auto
  then have "\<exists>d. mapGet (collectedLevels hlBook okxBook krakenBook sd ''BTC'') 96000 = Some d
           \<and> LevelData.size' d = 24
           \<and> (if hasHL d then 1 else 0) + (if hasOKX d then 1 else 0)
               + (if hasKraken d then 1 else (0::nat)) = 2"
  proof cases
    case hl_okx
    show ?thesis
      unfolding collectedLevels_def
      by (simp add: processOrders_other_bucket [OF hl_okx(3)]
          processOrders_one_in_bucket [OF hl_okx(2)] processOrders_one_in_bucket [OF hl_okx(1)]
          emptyLevel_def)
  next
    case hl_kraken
    show ?thesis
      unfolding collectedLevels_def
      by (simp add: processOrders_one_in_bucket [OF hl_kraken(3)]
          processOrders_other_bucket [OF hl_kraken(2)] processOrders_one_in_bucket [OF hl_kraken(1)]
          emptyLevel_def)
  next
    case okx_kraken
    show ?thesis
      unfolding collectedLevels_def
      by (simp add: processOrders_one_in_bucket [OF okx_kraken(3)]
          processOrders_one_in_bucket [OF okx_kraken(2)] processOrders_other_bucket [OF okx_kraken(1)]
          emptyLevel_def)
  qed
  then show ?thesis by (blast intro: mapGet_in_set)
qed

text \<open>
  Claim C8. BTC books in which exactly two of the three venues place 12 units at price 96000
  on the requested side, and no other order of the three books falls into the bucket 96000.
  The detector returns the level at 96000 with two venues, the round-number flag, type wall
  and strength 95, provided nothing cuts the bucket: the reference price keeps it (there is
  none, or 96000 is within 5% of it) and at most five scored buckets reach strength 95, so
  that it is among the first five.
\<close>

theorem detectLevels_level_at_96000:
  assumes "(bucketOrders 100 96000 (venueOrders sd hlBook),
            bucketOrders 100 96000 (venueOrders sd okxBook),
            bucketOrders 100 96000 (venueOrders sd krakenBook))
             \<in> {([(96000, 12)], [(96000, 12)], []),
                ([(96000, 12)], [], [(96000, 12)]),
                ([], [(96000, 12)], [(96000, 12)])}"
    and "retained (referencePrice hlBook okxBook krakenBook) 96000"
    and "length (filter (\<lambda>l. SupportLevel.strength l \<ge> 95)
                   (scoredLevels hlBook okxBook krakenBook sd ''BTC'')) \<le> 5"
  shows "\<lparr>SupportLevel.price = 96000, strength = 95, type' = wall, totalSize = 24,
           exchangeCount = 2, isRoundNumber = True\<rparr>
         \<in> set (detectLevels hlBook okxBook krakenBook sd ''BTC'')"
proof -
  let ?level = "\<lparr>SupportLevel.price = 96000, strength = 95, type' = wall, totalSize = 24,
           exchangeCount = 2, isRoundNumber = True\<rparr>"
  obtain d where d: "(96000, d) \<in> set (collectedLevels hlBook okxBook krakenBook sd ''BTC'')"
      "LevelData.size' d = 24"
      "(if hasHL d then 1 else 0) + (if hasOKX d then 1 else 0)
               + (if hasKraken d then 1 else (0::nat)) = 2"
    using collectedLevels_bucket_96000 [OF assms(1)] by blast
  have "scoreLevel ''BTC'' 96000 d \<in> set (scoredLevels hlBook okxBook krakenBook sd ''BTC'')"
    unfolding scoredLevels_def using d(1) assms(2) by force
  then have m: "?level \<in> set (scoredLevels hlBook okxBook krakenBook sd ''BTC'')"
    by (simp add: score_96000 [OF d(2,3)])
  have s: "SupportLevel.strength ?level = 95" by simp
  show ?thesis
    unfolding detectLevels_scoredLevels
    by (rule in_top5 [OF m]) (simp only: s assms(3))
qed

lemma length_mapSet: "length (mapSet k v M) \<le> Suc (length M)"
  by (induction M) auto

lemma length_processOrders:
  "length (processOrders mark r orders M) \<le> length M + length orders"
proof (induction orders arbitrary: M)
  case Nil
  then show ?case by simp
next
  case (Cons ord orders)
  obtain px sz where o: "ord = (px, sz)" by (cases ord)
  define M' where "M' = mapSet (roundedPriceOf r px)
          (mark ((case mapGet M (roundedPriceOf r px) of Some e \<Rightarrow> e | None \<Rightarrow> emptyLevel)
                   \<lparr>LevelData.size' :=
                      rd (LevelData.size' (case mapGet M (roundedPriceOf r px) of Some e \<Rightarrow> e
                                           | None \<Rightarrow> emptyLevel) + sz)\<rparr>)) M"
  have "length (processOrders mark r orders M') \<le> length M' + length orders"
    by (rule Cons.IH)
  also have "\<dots> \<le> Suc (length M) + length orders"
    unfolding M'_def using length_mapSet by simp
  finally show ?case
    unfolding o processOrders_step M'_def by simp
qed

lemma length_scoredLevels:
  "length (scoredLevels hlBook okxBook krakenBook sd a)
     \<le> length (venueOrders sd hlBook) + length (venueOrders sd okxBook)
        + length (venueOrders sd krakenBook)"
proof -
  let ?r = "if a = ''BTC'' then 100 else 10 :: real"
  let ?l1 = "processOrders (\<lambda>e. e\<lparr>hasHL := True\<rparr>) ?r (venueOrders sd hlBook) []"
  let ?l2 = "processOrders (\<lambda>e. e\<lparr>hasOKX := True\<rparr>) ?r (venueOrders sd okxBook) ?l1"
  let ?l3 = "processOrders (\<lambda>e. e\<lparr>hasKraken := True\<rparr>) ?r (venueOrders sd krakenBook) ?l2"
  have 1: "length ?l1 \<le> length (venueOrders sd hlBook)"
    using length_processOrders [of "\<lambda>e. e\<lparr>hasHL := True\<rparr>" ?r "venueOrders sd hlBook" "[]"]
    by simp
  have 2: "length ?l2 \<le> length ?l1 + length (venueOrders sd okxBook)"
    by (rule length_processOrders)
  have 3: "length ?l3 \<le> length ?l2 + length (venueOrders sd krakenBook)"
    by (rule length_processOrders)
  have "length (scoredLevels hlBook okxBook krakenBook sd a) \<le> length ?l3"
    by (simp add: scoredLevels_def collectedLevels_def)
  then show ?thesis using 1 2 3 by linarith
qed

lemma few_orders_top5:
  assumes "length (venueOrders sd hlBook) + length (venueOrders sd okxBook)
        + length (venueOrders sd krakenBook) \<le> 5"
  shows "length (filter P (scoredLevels hlBook okxBook krakenBook sd a)) \<le> 5"
  using assms length_scoredLevels [of hlBook okxBook krakenBook sd a]
    length_filter_le [of P "scoredLevels hlBook okxBook krakenBook sd a"]
  by linarith

lemma rounded_examples:
  "roundedPriceOf 100 96000 = 96000" "roundedPriceOf 100 95800 = 95800"
  by (simp_all add: roundedPriceOf_def round_half_up_def)

theorem detectLevels_level_at_96000_witness:
  "\<lparr>SupportLevel.price = 96000, strength = 95, type' = wall, totalSize = 24,
     exchangeCount = 2, isRoundNumber = True\<rparr>
     \<in> set (detectLevels (Some exampleBidBook) None (Some exampleBidBook) Bids ''BTC'')
   \<and> \<lparr>SupportLevel.price = 96000, strength = 95, type' = wall, totalSize = 24,
     exchangeCount = 2, isRoundNumber = True\<rparr>
     \<in> set (detectLevels (Some exampleDeepBook) (Some exampleBidBook) None Bids ''BTC'')
   \<and> \<lparr>SupportLevel.price = 96000, strength = 95, type' = wall, totalSize = 24,
     exchangeCount = 2, isRoundNumber = True\<rparr>
     \<in> set (detectLevels None (Some exampleAskBook) (Some exampleAskBook) Asks ''BTC'')"
proof -
  have v: "venueOrders Bids (Some exampleBidBook) = [(96000, 12)]"
      "venueOrders Bids (Some exampleDeepBook) = [(96000, 12), (95800, 3)]"
      "venueOrders Asks (Some exampleAskBook) = [(96000, 12)]"
      "venueOrders Bids None = []" "venueOrders Asks None = []"
    by (simp_all add: venueOrders_def ordersOf_def exampleBidBook_def exampleDeepBook_def
        exampleAskBook_def)
  have r: "referencePrice (Some exampleBidBook) None (Some exampleBidBook) = 96000"
      "referencePrice (Some exampleDeepBook) (Some exampleBidBook) None = 96000"
      "referencePrice None (Some exampleAskBook) (Some exampleAskBook) = 0"
    by (simp_all add: referencePrice_def orElse_def bestBid_def exampleBidBook_def
        exampleDeepBook_def exampleAskBook_def)
  have k: "retained 96000 96000" "retained 0 96000"
    by (simp_all add: retained_def lit_005)
  have a: "\<lparr>SupportLevel.price = 96000, strength = 95, type' = wall, totalSize = 24,
     exchangeCount = 2, isRoundNumber = True\<rparr>
     \<in> set (detectLevels (Some exampleBidBook) None (Some exampleBidBook) Bids ''BTC'')"
    by (rule detectLevels_level_at_96000)
       (simp_all add: v r k bucketOrders_def rounded_examples few_orders_top5)
  have b: "\<lparr>SupportLevel.price = 96000, strength = 95, type' = wall, totalSize = 24,
     exchangeCount = 2, isRoundNumber = True\<rparr>
     \<in> set (detectLevels (Some exampleDeepBook) (Some exampleBidBook) None Bids ''BTC'')"
    by (rule detectLevels_level_at_96000)
       (simp_all add: v r k bucketOrders_def rounded_examples few_orders_top5)
  have c: "\<lparr>SupportLevel.price = 96000, strength = 95, type' = wall, totalSize = 24,
     exchangeCount = 2, isRoundNumber = True\<rparr>
     \<in> set (detectLevels None (Some exampleAskBook) (Some exampleAskBook) Asks ''BTC'')"
    by (rule detectLevels_level_at_96000)
       (simp_all add: v r k bucketOrders_def rounded_examples few_orders_top5)
  show ?thesis using a b c by blast
qed

section \<open>Properties of the Aggregation Actor\<close>

lemma detectLevels_all_absent: "detectLevels None None None sd a = []"
  by (simp add: detectLevels_def Let_def sortByStrength_def)

lemma collectWhales_all_absent: "collectWhales None None None t = []"
  by (simp add: collectWhales_def venueWhales_def analysisOf_def)

lemma averageImbalance_all_absent:
  "averageImbalance (presentImbalances [analysisOf None t, analysisOf None t, analysisOf None t]) = Fin 0"
  by (simp add: averageImbalance_def presentImbalances_def analysisOf_def)

lemma exchangeDataOf_absent: "exchangeDataOf None t = None"
  by (simp add: exchangeDataOf_def)

lemma all_absent_cycle:
  assumes "hlBtc v = None" "okxBtc v = None" "krakenBtc v = None"
    and "hlEth v = None" "okxEth v = None" "krakenEth v = None"
  shows "fetchWithTrend v ck actor =
     (let history = recordImbalance (recordedAt ck) (Fin 0) (Fin 0) (imbalanceHistory actor);
          btcTrend = calculateTrend (trendBtcAt ck) history Btc;
          ethTrend = calculateTrend (trendEthAt ck) history Eth
      in (\<lparr>btc = generateSignal (signalBtcAt ck) ''BTC'' None None None [] [] []
                  (TrendResult.avg btcTrend) (TrendResult.trend btcTrend),
           eth = generateSignal (signalEthAt ck) ''ETH'' None None None [] [] []
                  (TrendResult.avg ethTrend) (TrendResult.trend ethTrend)\<rparr>,
          actor\<lparr>imbalanceHistory := history\<rparr>))"
  unfolding fetchWithTrend_def assms
  by (simp add: detectLevels_all_absent collectWhales_all_absent averageImbalance_all_absent
      exchangeDataOf_absent Let_def)

lemma generateSignal_fields:
  "Signal.supportLevels (generateSignal now as hl ok kr ws sl rl i15 tr) = sl"
  "Signal.resistanceLevels (generateSignal now as hl ok kr ws sl rl i15 tr) = rl"
  "Signal.whaleOrders (generateSignal now as hl ok kr ws sl rl i15 tr) = ws"
  "Signal.trend (generateSignal now as hl ok kr ws sl rl i15 tr) = tr"
  "Signal.whaleConsensus (generateSignal now as hl ok kr ws sl rl i15 tr) = calculateWhaleConsensus ws"
  by (simp_all add: generateSignal_def Let_def split_def)

lemma calculateTrend_window:
  "TrendResult.avg (calculateTrend now history a) = windowAverage (window15m now history a)"
  "TrendResult.trend (calculateTrend now history a) = BULLISH \<Longrightarrow> bullishWindow (window15m now history a)"
  "TrendResult.trend (calculateTrend now history a) = BEARISH \<Longrightarrow> bearishWindow (window15m now history a)"
proof -
  show "TrendResult.avg (calculateTrend now history a) = windowAverage (window15m now history a)"
    by (simp add: calculateTrend_unfold windowAverage_def)
  show "bullishWindow (window15m now history a)"
    if "TrendResult.trend (calculateTrend now history a) = BULLISH"
    using that ratioAbove_only_if [of "\<lambda>x. js_gt x (Fin (rd 0.05))" "window15m now history a"]
    unfolding calculateTrend_unfold bullishWindow_def by (auto split: if_splits)
  show "bearishWindow (window15m now history a)"
    if "TrendResult.trend (calculateTrend now history a) = BEARISH"
    using that ratioAbove_only_if [of "\<lambda>x. js_lt x (Fin (- rd 0.05))" "window15m now history a"]
    unfolding calculateTrend_unfold bearishWindow_def by (auto split: if_splits)
qed

lemma all_absent_signal:
  assumes "hlBtc v = None" "okxBtc v = None" "krakenBtc v = None"
    and "hlEth v = None" "okxEth v = None" "krakenEth v = None"
  shows "\<exists>now name. signalOf a (fst (fetchWithTrend v ck actor)) =
     generateSignal now name None None None [] [] []
       (TrendResult.avg (calculateTrend (trendAt a ck)
          (recordImbalance (recordedAt ck) (Fin 0) (Fin 0) (imbalanceHistory actor)) a))
       (TrendResult.trend (calculateTrend (trendAt a ck)
          (recordImbalance (recordedAt ck) (Fin 0) (Fin 0) (imbalanceHistory actor)) a))"
proof -
  have b: "btc (fst (fetchWithTrend v ck actor)) =
     generateSignal (signalBtcAt ck) ''BTC'' None None None [] [] []
       (TrendResult.avg (calculateTrend (trendBtcAt ck)
          (recordImbalance (recordedAt ck) (Fin 0) (Fin 0) (imbalanceHistory actor)) Btc))
       (TrendResult.trend (calculateTrend (trendBtcAt ck)
          (recordImbalance (recordedAt ck) (Fin 0) (Fin 0) (imbalanceHistory actor)) Btc))"
    by (simp add: all_absent_cycle [OF assms] Let_def)
  have e: "eth (fst (fetchWithTrend v ck actor)) =
     generateSignal (signalEthAt ck) ''ETH'' None None None [] [] []
       (TrendResult.avg (calculateTrend (trendEthAt ck)
          (recordImbalance (recordedAt ck) (Fin 0) (Fin 0) (imbalanceHistory actor)) Eth))
       (TrendResult.trend (calculateTrend (trendEthAt ck)
          (recordImbalance (recordedAt ck) (Fin 0) (Fin 0) (imbalanceHistory actor)) Eth))"
    by (simp add: all_absent_cycle [OF assms] Let_def)
  show ?thesis
  proof (cases a)
    case Btc
    show ?thesis
      by (rule exI [of _ "signalBtcAt ck"], rule exI [of _ "''BTC''"])
         (simp add: Btc signalOf_def trendAt_def b)
  next
    case Eth
    show ?thesis
      by (rule exI [of _ "signalEthAt ck"], rule exI [of _ "''ETH''"])
         (simp add: Eth signalOf_def trendAt_def e)
  qed
qed

lemma trendDecision_wait:
  "(fst (trendDecision tr x) = WAIT) =
     (\<not> (tr = BULLISH \<and> js_gt x (Fin (rd 0.10))) \<and> \<not> (tr = BEARISH \<and> js_lt x (Fin (- rd 0.10))))"
  "fst (trendDecision tr x) = WAIT \<Longrightarrow> snd (trendDecision tr x) = js_mul (js_abs x) (Fin 100)"
  by (auto simp: trendDecision_def split: if_splits)

lemma scaled_abs_cases:
  "(\<exists>c. js_mul (js_abs x) (Fin 100) = Fin c \<and> 0 \<le> c) \<or> js_mul (js_abs x) (Fin 100) = PInf
   \<or> js_mul (js_abs x) (Fin 100) = NaN"
proof (cases x)
  case (Fin a)
  have "0 \<le> rd (\<bar>a\<bar> * 100)" by (rule rd_nonneg) simp
  then show ?thesis
    using fl_cases [of "\<bar>a\<bar> * 100"] by (auto simp: Fin simp del: power_numeral)
qed simp_all

lemma confidence_zero:
  "(js_round (js_mul (js_abs x) (Fin 100)) = Fin 0)
     = js_lt (js_mul (js_abs x) (Fin 100)) (Fin (1 / 2))"
proof -
  have r: "(round_half_up c = 0) = (c < 1 / 2)" if "0 \<le> c" for c :: real
  proof -
    have "(round_half_up c = 0) = (\<lfloor>c + 1 / 2\<rfloor> = 0)" by (simp add: round_half_up_def)
    also have "\<dots> = (0 \<le> c + 1 / 2 \<and> c + 1 / 2 < 1)" by (simp add: floor_eq_iff)
    also have "\<dots> = (c < 1 / 2)" using that by auto
    finally show ?thesis .
  qed
  show ?thesis
    using scaled_abs_cases [of x] r by auto
qed

lemma windowMean_zeros:
  assumes "\<forall>x \<in> set w. x = Fin 0"
  shows "windowAverage w = Fin 0"
proof -
  have "foldl js_add (Fin 0) w = Fin 0"
    using assms by (induction w) simp_all
  then show ?thesis
    by (simp add: windowAverage_def windowMean_def js_sum_def)
qed

lemma zeros_not_trending:
  assumes "\<forall>x \<in> set w. x = Fin 0"
  shows "\<not> bullishWindow w" "\<not> bearishWindow w"
proof -
  have "filter (\<lambda>x. js_gt x (Fin (rd 0.05))) w = []"
    using assms threshold_005_pos by (auto simp: filter_empty_conv js_gt_def)
  then show "\<not> bullishWindow w"
    by (simp add: bullishWindow_def moreThan60Percent_def)
  have "filter (\<lambda>x. js_lt x (Fin (- rd 0.05))) w = []"
    using assms threshold_005_pos by (auto simp: filter_empty_conv)
  then show "\<not> bearishWindow w"
    by (simp add: bearishWindow_def moreThan60Percent_def)
qed

lemma calculateTrend_trend:
  assumes "length history < 2 ^ 32"
  shows "TrendResult.trend (calculateTrend now history a) =
     (if bullishWindow (window15m now history a) then BULLISH
      else if bearishWindow (window15m now history a) then BEARISH
      else Trend.NEUTRAL)"
proof (cases "window15m now history a = []")
  case True
  then show ?thesis
    by (simp add: calculateTrend_unfold bullishWindow_def bearishWindow_def moreThan60Percent_def)
next
  case False
  define w where "w = window15m now history a"
  have lw: "length w < 2 ^ 32"
    using length_window15m [of now history a] assms unfolding w_def by simp
  have up: "ratioAbove (\<lambda>x. js_gt x (Fin (rd 0.05))) w
      = moreThan60Percent (\<lambda>x. js_gt x (Fin (rd 0.05))) w"
    using ratioAbove_only_if [of _ w] ratioAbove_if [of _ w] lw by blast
  have down: "ratioAbove (\<lambda>x. js_lt x (Fin (- rd 0.05))) w
      = moreThan60Percent (\<lambda>x. js_lt x (Fin (- rd 0.05))) w"
    using ratioAbove_only_if [of _ w] ratioAbove_if [of _ w] lw by blast
  show ?thesis
    using False
    unfolding calculateTrend_unfold w_def [symmetric] bullishWindow_def bearishWindow_def up down
    by simp
qed

lemma length_recordImbalance:
  "length (recordImbalance now x y history) \<le> length history + 1"
  unfolding recordImbalance_def Let_def
  by (rule order_trans [OF length_filter_le]) simp

text \<open>
  Claim C5, as amended. In a cycle where all three venue fetches return absent for both
  assets, both Signals have empty support and resistance level lists and empty whale order
  lists, for every prior state of the actor. The cycle appends a zero reading to the history
  and drops the entries older than 20 minutes. For each asset, with the readings of the last
  15 minutes of that history as the window: the trend is BULLISH or BEARISH only on a
  bullish or bearish window, and NEUTRAL otherwise (and BULLISH or BEARISH on every such
  window when the history is an array, of fewer than \<open>2^32\<close> entries); the action is WAIT unless the trend is
  BULLISH with a window average above 0.10 or BEARISH with one below -0.10, hence whenever
  the trend is NEUTRAL; under WAIT the confidence is \<open>Math.round(Math.abs(avg) * 100)\<close> of
  the window average. So WAIT, confidence 0 and NEUTRAL hold together exactly when the trend
  is NEUTRAL and \<open>Math.abs(avg) * 100\<close> is below one half, and hold in particular when every
  reading of the window is 0.
\<close>

theorem fetchWithTrend_all_absent_signals:
  assumes "hlBtc v = None" "okxBtc v = None" "krakenBtc v = None"
    and "hlEth v = None" "okxEth v = None" "krakenEth v = None"
  shows "Signal.supportLevels (signalOf a (fst (fetchWithTrend v ck actor))) = []
   \<and> Signal.resistanceLevels (signalOf a (fst (fetchWithTrend v ck actor))) = []
   \<and> Signal.whaleOrders (signalOf a (fst (fetchWithTrend v ck actor))) = []
   \<and> (Signal.trend (signalOf a (fst (fetchWithTrend v ck actor))) = BULLISH
        \<longrightarrow> bullishWindow (cycleWindow ck actor a))
   \<and> (Signal.trend (signalOf a (fst (fetchWithTrend v ck actor))) = BEARISH
        \<longrightarrow> bearishWindow (cycleWindow ck actor a))
   \<and> (\<not> bullishWindow (cycleWindow ck actor a) \<and> \<not> bearishWindow (cycleWindow ck actor a)
        \<longrightarrow> Signal.trend (signalOf a (fst (fetchWithTrend v ck actor))) = Trend.NEUTRAL)
   \<and> (length (imbalanceHistory actor) + 1 < 2 ^ 32
        \<longrightarrow> Signal.trend (signalOf a (fst (fetchWithTrend v ck actor))) =
              (if bullishWindow (cycleWindow ck actor a) then BULLISH
               else if bearishWindow (cycleWindow ck actor a) then BEARISH
               else Trend.NEUTRAL))
   \<and> (Signal.action (signalOf a (fst (fetchWithTrend v ck actor))) = WAIT
        \<longleftrightarrow> \<not> (Signal.trend (signalOf a (fst (fetchWithTrend v ck actor))) = BULLISH
                 \<and> js_gt (windowAverage (cycleWindow ck actor a)) (Fin (rd 0.10)))
            \<and> \<not> (Signal.trend (signalOf a (fst (fetchWithTrend v ck actor))) = BEARISH
                 \<and> js_lt (windowAverage (cycleWindow ck actor a)) (Fin (- rd 0.10))))
   \<and> (Signal.trend (signalOf a (fst (fetchWithTrend v ck actor))) = Trend.NEUTRAL
        \<longrightarrow> Signal.action (signalOf a (fst (fetchWithTrend v ck actor))) = WAIT)
   \<and> (Signal.action (signalOf a (fst (fetchWithTrend v ck actor))) = WAIT
        \<longrightarrow> Signal.confidence (signalOf a (fst (fetchWithTrend v ck actor)))
            = js_round (js_mul (js_abs (windowAverage (cycleWindow ck actor a))) (Fin 100)))
   \<and> (Signal.action (signalOf a (fst (fetchWithTrend v ck actor))) = WAIT
       \<and> Signal.confidence (signalOf a (fst (fetchWithTrend v ck actor))) = Fin 0
       \<and> Signal.trend (signalOf a (fst (fetchWithTrend v ck actor))) = Trend.NEUTRAL
        \<longleftrightarrow> Signal.trend (signalOf a (fst (fetchWithTrend v ck actor))) = Trend.NEUTRAL
            \<and> js_lt (js_mul (js_abs (windowAverage (cycleWindow ck actor a))) (Fin 100))
                 (Fin (1 / 2)))
   \<and> ((\<forall>x \<in> set (cycleWindow ck actor a). x = Fin 0)
        \<longrightarrow> Signal.action (signalOf a (fst (fetchWithTrend v ck actor))) = WAIT
            \<and> Signal.confidence (signalOf a (fst (fetchWithTrend v ck actor))) = Fin 0
            \<and> Signal.trend (signalOf a (fst (fetchWithTrend v ck actor))) = Trend.NEUTRAL)"
proof -
  define S where "S = signalOf a (fst (fetchWithTrend v ck actor))"
  define W where "W = cycleWindow ck actor a"
  define T where "T = calculateTrend (trendAt a ck)
          (recordImbalance (recordedAt ck) (Fin 0) (Fin 0) (imbalanceHistory actor)) a"
  obtain now name where "S = generateSignal now name None None None [] [] []
       (TrendResult.avg T) (TrendResult.trend T)"
    using all_absent_signal [OF assms, of a ck actor] unfolding S_def T_def by blast
  then have S: "S = generateSignal now name None None None [] [] []
       (windowAverage W) (TrendResult.trend T)"
    unfolding T_def W_def cycleWindow_def calculateTrend_window(1) .
  have lists: "Signal.supportLevels S = []" "Signal.resistanceLevels S = []"
      "Signal.whaleOrders S = []"
    by (simp_all add: S generateSignal_fields)
  have tr: "Signal.trend S = TrendResult.trend T"
    by (simp add: S generateSignal_fields)
  have up: "bullishWindow W" if "Signal.trend S = BULLISH"
    using that calculateTrend_window(2) unfolding tr T_def W_def cycleWindow_def by blast
  have down: "bearishWindow W" if "Signal.trend S = BEARISH"
    using that calculateTrend_window(3) unfolding tr T_def W_def cycleWindow_def by blast
  have neutral: "Signal.trend S = Trend.NEUTRAL" if "\<not> bullishWindow W" "\<not> bearishWindow W"
    using that up down by (cases "Signal.trend S") auto
  have exact: "Signal.trend S =
      (if bullishWindow W then BULLISH else if bearishWindow W then BEARISH else Trend.NEUTRAL)"
    if "length (imbalanceHistory actor) + 1 < 2 ^ 32"
  proof -
    have "length (recordImbalance (recordedAt ck) (Fin 0) (Fin 0) (imbalanceHistory actor)) < 2 ^ 32"
      using that length_recordImbalance [of "recordedAt ck" "Fin 0" "Fin 0" "imbalanceHistory actor"]
      by simp
    then show ?thesis
      unfolding tr T_def W_def cycleWindow_def by (rule calculateTrend_trend)
  qed
  have act: "(Signal.action S = WAIT)
       = (\<not> (Signal.trend S = BULLISH \<and> js_gt (windowAverage W) (Fin (rd 0.10)))
          \<and> \<not> (Signal.trend S = BEARISH \<and> js_lt (windowAverage W) (Fin (- rd 0.10))))"
    unfolding tr unfolding S generateSignal_action by (rule trendDecision_wait(1))
  have wait: "Signal.action S = WAIT" if "Signal.trend S = Trend.NEUTRAL"
    using that unfolding act by simp
  have conf: "Signal.confidence S = js_round (js_mul (js_abs (windowAverage W)) (Fin 100))"
    if "Signal.action S = WAIT"
  proof -
    have w: "fst (trendDecision (TrendResult.trend T) (windowAverage W)) = WAIT"
      using that unfolding S generateSignal_action .
    show ?thesis
      unfolding S generateSignal_confidence using w trendDecision_wait(2) [OF w] by simp
  qed
  have triple: "(Signal.action S = WAIT \<and> Signal.confidence S = Fin 0
        \<and> Signal.trend S = Trend.NEUTRAL)
      = (Signal.trend S = Trend.NEUTRAL
         \<and> js_lt (js_mul (js_abs (windowAverage W)) (Fin 100)) (Fin (1 / 2)))"
    using wait conf confidence_zero [of "windowAverage W"] by auto
  have zeros: "Signal.action S = WAIT \<and> Signal.confidence S = Fin 0
        \<and> Signal.trend S = Trend.NEUTRAL" if z: "\<forall>x \<in> set W. x = Fin 0"
  proof -
    have n: "Signal.trend S = Trend.NEUTRAL"
      using zeros_not_trending [OF z] by (rule neutral)
    have "js_lt (js_mul (js_abs (windowAverage W)) (Fin 100)) (Fin (1 / 2))"
      by (simp add: windowMean_zeros [OF z])
    then show ?thesis using n triple by blast
  qed
  have "Signal.supportLevels S = []
   \<and> Signal.resistanceLevels S = []
   \<and> Signal.whaleOrders S = []
   \<and> (Signal.trend S = BULLISH \<longrightarrow> bullishWindow W)
   \<and> (Signal.trend S = BEARISH \<longrightarrow> bearishWindow W)
   \<and> (\<not> bullishWindow W \<and> \<not> bearishWindow W \<longrightarrow> Signal.trend S = Trend.NEUTRAL)
   \<and> (length (imbalanceHistory actor) + 1 < 2 ^ 32
        \<longrightarrow> Signal.trend S =
              (if bullishWindow W then BULLISH else if bearishWindow W then BEARISH
               else Trend.NEUTRAL))
   \<and> (Signal.action S = WAIT
        \<longleftrightarrow> \<not> (Signal.trend S = BULLISH \<and> js_gt (windowAverage W) (Fin (rd 0.10)))
            \<and> \<not> (Signal.trend S = BEARISH \<and> js_lt (windowAverage W) (Fin (- rd 0.10))))
   \<and> (Signal.trend S = Trend.NEUTRAL \<longrightarrow> Signal.action S = WAIT)
   \<and> (Signal.action S = WAIT
        \<longrightarrow> Signal.confidence S = js_round (js_mul (js_abs (windowAverage W)) (Fin 100)))
   \<and> (Signal.action S = WAIT \<and> Signal.confidence S = Fin 0 \<and> Signal.trend S = Trend.NEUTRAL
        \<longleftrightarrow> Signal.trend S = Trend.NEUTRAL
            \<and> js_lt (js_mul (js_abs (windowAverage W)) (Fin 100)) (Fin (1 / 2)))
   \<and> ((\<forall>x \<in> set W. x = Fin 0)
        \<longrightarrow> Signal.action S = WAIT \<and> Signal.confidence S = Fin 0
            \<and> Signal.trend S = Trend.NEUTRAL)"
    using lists up down neutral exact act wait conf triple zeros by blast
  then show ?thesis
    unfolding S_def W_def .
qed

lemma allAbsent_fields:
  "hlBtc allAbsent = None" "okxBtc allAbsent = None" "krakenBtc allAbsent = None"
  "hlEth allAbsent = None" "okxEth allAbsent = None" "krakenEth allAbsent = None"
  by (simp_all add: allAbsent_def)

lemma signalOf_simps: "signalOf Btc p = btc p" "signalOf Eth p = eth p"
  by (simp_all add: signalOf_def)

lemma exampleWindows:
  "cycleWindow exampleLateClock exampleStaleActor Btc = [Fin 0]"
  "cycleWindow exampleClock exampleQuietActor Btc = [Fin (1 / 32), Fin 0]"
  "cycleWindow exampleClock exampleIdleActor Eth = [Fin 0]"
  "cycleWindow exampleClock exampleBullishActor Btc = [Fin (3 / 4), Fin (3 / 4), Fin 0]"
  by (simp_all add: cycleWindow_def trendAt_def window15m_def recordImbalance_def Let_def
      reading_def exampleLateClock_def exampleStaleActor_def exampleClock_def
      exampleQuietActor_def exampleIdleActor_def exampleBullishActor_def)

lemma quiet_window:
  "\<not> bullishWindow [Fin (1 / 32), Fin 0]" "\<not> bearishWindow [Fin (1 / 32), Fin 0]"
  "js_round (js_mul (js_abs (windowAverage [Fin (1 / 32), Fin 0])) (Fin 100)) = Fin 2"
proof -
  show "\<not> bullishWindow [Fin (1 / 32), Fin 0]"
    by (simp add: bullishWindow_def moreThan60Percent_def js_gt_def lit_005)
  show "\<not> bearishWindow [Fin (1 / 32), Fin 0]"
    by (simp add: bearishWindow_def moreThan60Percent_def lit_005)
  have f: "fl (1 / 32) = Fin (1 / 32)" "fl (1 / 64) = Fin (1 / 64)" "fl (25 / 16) = Fin (25 / 16)"
    using fl_frac [of 1 5] fl_frac [of 1 6] fl_frac [of 25 4] by simp_all
  have "windowAverage [Fin (1 / 32), Fin 0] = Fin (1 / 64)"
    by (simp add: windowAverage_def windowMean_def js_sum_def f)
  then show "js_round (js_mul (js_abs (windowAverage [Fin (1 / 32), Fin 0])) (Fin 100)) = Fin 2"
    by (simp add: f round_half_up_def)
qed

lemma bullish_window:
  "ratioAbove (\<lambda>x. js_gt x (Fin (rd 0.05))) [Fin (3 / 4), Fin (3 / 4), Fin 0]"
  "windowMean [Fin (3 / 4), Fin (3 / 4), Fin 0] = Fin (1 / 2)"
proof -
  show "ratioAbove (\<lambda>x. js_gt x (Fin (rd 0.05))) [Fin (3 / 4), Fin (3 / 4), Fin 0]"
    by (rule ratioAbove_if) (simp_all add: moreThan60Percent_def js_gt_def lit_005)
  have f: "fl (3 / 4) = Fin (3 / 4)" "fl (3 / 2) = Fin (3 / 2)" "fl (1 / 2) = Fin (1 / 2)"
    using fl_frac [of 3 2] fl_frac [of 3 1] fl_frac [of 1 1] by simp_all
  show "windowMean [Fin (3 / 4), Fin (3 / 4), Fin 0] = Fin (1 / 2)"
    by (simp add: windowMean_def js_sum_def f)
qed

lemma bullish_window_holds: "bullishWindow [Fin (3 / 4), Fin (3 / 4), Fin 0]"
  unfolding bullishWindow_def bullish_window(2)
  by (simp add: moreThan60Percent_def js_gt_def lit_005)

theorem fetchWithTrend_all_absent_signals_witness:
  "cycleWindow exampleLateClock exampleStaleActor Btc = [Fin 0]
   \<and> Signal.action (btc (fst (fetchWithTrend allAbsent exampleLateClock exampleStaleActor))) = WAIT
   \<and> Signal.confidence (btc (fst (fetchWithTrend allAbsent exampleLateClock exampleStaleActor))) = Fin 0
   \<and> Signal.trend (btc (fst (fetchWithTrend allAbsent exampleLateClock exampleStaleActor))) = Trend.NEUTRAL
   \<and> cycleWindow exampleClock exampleQuietActor Btc = [Fin (1 / 32), Fin 0]
   \<and> Signal.action (btc (fst (fetchWithTrend allAbsent exampleClock exampleQuietActor))) = WAIT
   \<and> Signal.confidence (btc (fst (fetchWithTrend allAbsent exampleClock exampleQuietActor))) = Fin 2
   \<and> Signal.trend (btc (fst (fetchWithTrend allAbsent exampleClock exampleQuietActor))) = Trend.NEUTRAL
   \<and> Signal.supportLevels (btc (fst (fetchWithTrend allAbsent exampleClock exampleQuietActor))) = []
   \<and> Signal.resistanceLevels (btc (fst (fetchWithTrend allAbsent exampleClock exampleQuietActor))) = []
   \<and> Signal.whaleOrders (btc (fst (fetchWithTrend allAbsent exampleClock exampleQuietActor))) = []
   \<and> cycleWindow exampleClock exampleIdleActor Eth = [Fin 0]
   \<and> Signal.action (eth (fst (fetchWithTrend allAbsent exampleClock exampleIdleActor))) = WAIT
   \<and> Signal.confidence (eth (fst (fetchWithTrend allAbsent exampleClock exampleIdleActor))) = Fin 0
   \<and> Signal.trend (eth (fst (fetchWithTrend allAbsent exampleClock exampleIdleActor))) = Trend.NEUTRAL
   \<and> length (imbalanceHistory exampleBullishActor) + 1 < 2 ^ 32
   \<and> bullishWindow (cycleWindow exampleClock exampleBullishActor Btc)
   \<and> Signal.trend (btc (fst (fetchWithTrend allAbsent exampleClock exampleBullishActor))) = BULLISH"
proof -
  note bullish = fetchWithTrend_all_absent_signals
    [OF allAbsent_fields, of Btc exampleClock exampleBullishActor, unfolded signalOf_simps]
  have bl: "length (imbalanceHistory exampleBullishActor) + 1 < 2 ^ 32"
    by (simp add: exampleBullishActor_def)
  have bb: "bullishWindow (cycleWindow exampleClock exampleBullishActor Btc)"
    unfolding exampleWindows by (rule bullish_window_holds)
  have "Signal.trend (btc (fst (fetchWithTrend allAbsent exampleClock exampleBullishActor))) =
      (if bullishWindow (cycleWindow exampleClock exampleBullishActor Btc) then BULLISH
       else if bearishWindow (cycleWindow exampleClock exampleBullishActor Btc) then BEARISH
       else Trend.NEUTRAL)"
    using bl bullish by blast
  then have B: "Signal.trend (btc (fst (fetchWithTrend allAbsent exampleClock exampleBullishActor))) = BULLISH"
    using bb by (simp only: if_True)
  note stale = fetchWithTrend_all_absent_signals
    [OF allAbsent_fields, of Btc exampleLateClock exampleStaleActor, unfolded signalOf_simps]
  note quiet = fetchWithTrend_all_absent_signals
    [OF allAbsent_fields, of Btc exampleClock exampleQuietActor, unfolded signalOf_simps]
  note idle = fetchWithTrend_all_absent_signals
    [OF allAbsent_fields, of Eth exampleClock exampleIdleActor, unfolded signalOf_simps]
  have zs: "\<forall>x \<in> set (cycleWindow exampleLateClock exampleStaleActor Btc). x = Fin 0"
    by (simp add: exampleWindows)
  have zi: "\<forall>x \<in> set (cycleWindow exampleClock exampleIdleActor Eth). x = Fin 0"
    by (simp add: exampleWindows)
  have q: "\<not> bullishWindow (cycleWindow exampleClock exampleQuietActor Btc)"
      "\<not> bearishWindow (cycleWindow exampleClock exampleQuietActor Btc)"
      "js_round (js_mul (js_abs (windowAverage (cycleWindow exampleClock exampleQuietActor Btc)))
         (Fin 100)) = Fin 2"
    by (simp_all only: exampleWindows quiet_window not_False_eq_True)
  have S: "Signal.action (btc (fst (fetchWithTrend allAbsent exampleLateClock exampleStaleActor))) = WAIT
   \<and> Signal.confidence (btc (fst (fetchWithTrend allAbsent exampleLateClock exampleStaleActor))) = Fin 0
   \<and> Signal.trend (btc (fst (fetchWithTrend allAbsent exampleLateClock exampleStaleActor))) = Trend.NEUTRAL"
    using zs stale by blast
  have I: "Signal.action (eth (fst (fetchWithTrend allAbsent exampleClock exampleIdleActor))) = WAIT
   \<and> Signal.confidence (eth (fst (fetchWithTrend allAbsent exampleClock exampleIdleActor))) = Fin 0
   \<and> Signal.trend (eth (fst (fetchWithTrend allAbsent exampleClock exampleIdleActor))) = Trend.NEUTRAL"
    using zi idle by blast
  have Qn: "Signal.trend (btc (fst (fetchWithTrend allAbsent exampleClock exampleQuietActor))) = Trend.NEUTRAL"
    using q(1,2) quiet by blast
  have Qw: "Signal.action (btc (fst (fetchWithTrend allAbsent exampleClock exampleQuietActor))) = WAIT"
    using Qn quiet by blast
  have "Signal.confidence (btc (fst (fetchWithTrend allAbsent exampleClock exampleQuietActor)))
      = js_round (js_mul (js_abs (windowAverage (cycleWindow exampleClock exampleQuietActor Btc)))
         (Fin 100))"
    using Qw quiet by blast
  then have Qc: "Signal.confidence (btc (fst (fetchWithTrend allAbsent exampleClock exampleQuietActor))) = Fin 2"
    unfolding q(3) .
  have Ql: "Signal.supportLevels (btc (fst (fetchWithTrend allAbsent exampleClock exampleQuietActor))) = []
   \<and> Signal.resistanceLevels (btc (fst (fetchWithTrend allAbsent exampleClock exampleQuietActor))) = []
   \<and> Signal.whaleOrders (btc (fst (fetchWithTrend allAbsent exampleClock exampleQuietActor))) = []"
    using quiet by blast
  show ?thesis
    using exampleWindows(1,2,3) S I Qn Qw Qc Ql bl bb B by blast
qed

lemma exampleBullish_trend:
  "calculateTrend (trendBtcAt exampleClock)
     (recordImbalance (recordedAt exampleClock) (Fin 0) (Fin 0) (imbalanceHistory exampleBullishActor))
     Btc
   = \<lparr>avg = Fin (1 / 2), trend = BULLISH\<rparr>"
proof -
  have w: "window15m (trendBtcAt exampleClock)
     (recordImbalance (recordedAt exampleClock) (Fin 0) (Fin 0) (imbalanceHistory exampleBullishActor))
     Btc = [Fin (3 / 4), Fin (3 / 4), Fin 0]"
    using exampleWindows(4) by (simp add: cycleWindow_def trendAt_def)
  show ?thesis
    unfolding calculateTrend_unfold w
    using bullish_window(1) by (simp add: bullish_window(2) js_gt_def lit_005)
qed

lemma generateSignal_bullish_half:
  "Signal.action (generateSignal now as None None None [] [] [] (Fin (1 / 2)) BULLISH) = Action.LONG"
  "Signal.confidence (generateSignal now as None None None [] [] [] (Fin (1 / 2)) BULLISH) = Fin 95"
proof -
  have d: "trendDecision BULLISH (Fin (1 / 2)) = (Action.LONG, Fin 95)"
    by (simp add: trendDecision_def js_gt_def lit_01)
  have c: "combinedImbalanceOf (validExchanges [None, None, None]) = Fin 0"
    by (simp add: combinedImbalanceOf_def validExchanges_def)
  have b: "boostConfidence Action.LONG (Fin 0) (Fin 95) [None, None, None] = Fin 95"
    by (simp add: boostConfidence_def Let_def agrees_def js_gt_def lit_01)
  have r: "round_half_up 95 = 95" by (simp add: round_half_up_def)
  show "Signal.action (generateSignal now as None None None [] [] [] (Fin (1 / 2)) BULLISH) = Action.LONG"
    by (simp add: generateSignal_action d)
  show "Signal.confidence (generateSignal now as None None None [] [] [] (Fin (1 / 2)) BULLISH) = Fin 95"
    by (simp add: generateSignal_confidence d c b r)
qed

text \<open>
  With two earlier readings of 0.75 inside the window, the cycle with all venues absent
  appends a zero reading; two of the three readings exceed 0.05 and the average is 0.5, so
  the BTC Signal is LONG with confidence 95 and trend BULLISH.
\<close>

theorem all_absent_after_bullish_history:
  "Signal.action (btc (fst (fetchWithTrend allAbsent exampleClock exampleBullishActor))) = Action.LONG
   \<and> Signal.confidence (btc (fst (fetchWithTrend allAbsent exampleClock exampleBullishActor))) = Fin 95
   \<and> Signal.trend (btc (fst (fetchWithTrend allAbsent exampleClock exampleBullishActor))) = BULLISH"
  unfolding all_absent_cycle [OF allAbsent_fields] Let_def exampleBullish_trend
  by (simp add: generateSignal_bullish_half generateSignal_fields)

lemma fetchAllData_trend:
  "Signal.trend (btc (fetchAllData v nowBtc nowEth)) = Trend.NEUTRAL"
  "Signal.trend (eth (fetchAllData v nowBtc nowEth)) = Trend.NEUTRAL"
  by (simp_all add: fetchAllData_def Let_def generateSignal_fields)

text \<open>
  Claim C3, as amended. A synchronous read that finds no stored signal pair runs the
  stateless fetch-and-synthesize pass, whose trend is NEUTRAL, returns the result and stores
  it as the last signal pair. The imbalance history and the subscriber registry are
  unchanged.
\<close>

theorem fetch_rest_first_read:
  assumes "lastData actor = None"
  shows "fetch Rest v nowBtc nowEth actor =
           ((Json (fetchAllData v nowBtc nowEth), []),
            actor\<lparr>lastData := Some (fetchAllData v nowBtc nowEth)\<rparr>)
   \<and> Signal.trend (btc (fetchAllData v nowBtc nowEth)) = Trend.NEUTRAL
   \<and> Signal.trend (eth (fetchAllData v nowBtc nowEth)) = Trend.NEUTRAL
   \<and> lastData (snd (fetch Rest v nowBtc nowEth actor)) = Some (fetchAllData v nowBtc nowEth)
   \<and> imbalanceHistory (snd (fetch Rest v nowBtc nowEth actor)) = imbalanceHistory actor
   \<and> sessions (snd (fetch Rest v nowBtc nowEth actor)) = sessions actor"
  using assms by (simp add: Let_def fetchAllData_trend)

theorem fetch_rest_first_read_witness:
  "lastData exampleIdleActor = None
   \<and> lastData (snd (fetch Rest allAbsent 1000 1000 exampleIdleActor))
       = Some (fetchAllData allAbsent 1000 1000)
   \<and> imbalanceHistory (snd (fetch Rest allAbsent 1000 1000 exampleIdleActor))
       = imbalanceHistory exampleIdleActor
   \<and> sessions (snd (fetch Rest allAbsent 1000 1000 exampleIdleActor)) = sessions exampleIdleActor"
proof -
  have n: "lastData exampleIdleActor = None"
    by (simp add: exampleIdleActor_def)
  show ?thesis
    using n fetch_rest_first_read [OF n, of allAbsent 1000 1000] by blast
qed

text \<open>
  After the first synchronous read the stored last-signal field differs from before the
  request.
\<close>

theorem first_read_stores_lastData:
  "lastData (snd (fetch Rest allAbsent 1000 1000 exampleIdleActor)) \<noteq> lastData exampleIdleActor"
  by (simp add: exampleIdleActor_def Let_def)

lemma fetchWithTrend_actor:
  "snd (fetchWithTrend v ck actor) =
     actor\<lparr>imbalanceHistory :=
       recordImbalance (recordedAt ck)
         (averageImbalance (presentImbalances
            [analysisOf (hlBtc v) 5, analysisOf (okxBtc v) 5, analysisOf (krakenBtc v) 5]))
         (averageImbalance (presentImbalances
            [analysisOf (hlEth v) 50, analysisOf (okxEth v) 50, analysisOf (krakenEth v) 50]))
         (imbalanceHistory actor)\<rparr>"
  by (simp add: fetchWithTrend_def Let_def)

lemma runCycle_fault:
  assumes "fault c = Some f"
  shows "fst (runCycle c actor) = Inl (faultMessage f)"
    and "lastData (snd (runCycle c actor)) = lastData actor"
    and "sessions (snd (runCycle c actor)) = sessions actor"
  using assms
  by (cases f; simp add: runCycle_def faultMessage_def fetchWithTrend_actor)+

lemma pollOnce_fault:
  assumes "fault c = Some f"
  shows "pollOnce c actor = (snd (runCycle c actor), [Logged (faultMessage f), Slept 2000])"
proof -
  have "runCycle c actor = (Inl (faultMessage f), snd (runCycle c actor))"
    using runCycle_fault(1) [OF assms, of actor] by (simp add: prod_eq_iff)
  then show ?thesis
    unfolding pollOnce_def by (metis (mono_tags, lifting) case_prod_conv sum.case(1))
qed

text \<open>
  Claim C9. When a cycle of the polling loop throws, the error is caught and logged, the
  stored signal pair and the subscriber registry are as before the cycle, the 2000 ms delay
  follows, and the loop goes on with the remaining cycles.
\<close>

theorem startPolling_cycle_throws:
  assumes "fault c = Some f"
  shows "lastData (snd (runCycle c actor)) = lastData actor
   \<and> sessions (snd (runCycle c actor)) = sessions actor
   \<and> pollOnce c actor = (snd (runCycle c actor), [Logged (faultMessage f), Slept 2000])
   \<and> startPolling (c # cs) actor =
       (fst (startPolling cs (snd (runCycle c actor))),
        Logged (faultMessage f) # Slept 2000 # snd (startPolling cs (snd (runCycle c actor))))"
  using runCycle_fault(2,3) [OF assms, of actor] pollOnce_fault [OF assms, of actor]
  by (simp add: split_def)

theorem startPolling_cycle_throws_witness:
  "fault exampleThrowingCycle = Some (ThrowsAfterRecord ''synthesis bug'')
   \<and> lastData (snd (runCycle exampleThrowingCycle exampleIdleActor)) = lastData exampleIdleActor
   \<and> sessions (snd (runCycle exampleThrowingCycle exampleIdleActor)) = sessions exampleIdleActor
   \<and> startPolling [exampleThrowingCycle] exampleIdleActor =
       (snd (runCycle exampleThrowingCycle exampleIdleActor),
        [Logged ''synthesis bug'', Slept 2000])"
proof -
  have f: "fault exampleThrowingCycle = Some (ThrowsAfterRecord ''synthesis bug'')"
    by (simp add: exampleThrowingCycle_def)
  have m: "faultMessage (ThrowsAfterRecord ''synthesis bug'') = ''synthesis bug''"
    by (simp add: faultMessage_def)
  show ?thesis
    using f startPolling_cycle_throws [OF f, of exampleIdleActor "[]"]
    by (simp add: m)
qed

text \<open>A cycle that completes replaces the stored pair by the new one as a whole.\<close>

lemma pollOnce_no_fault:
  assumes "fault c = None"
  shows "lastData (fst (pollOnce c actor)) = Some (fst (fetchWithTrend (venues c) (clock c) actor))"
  using assms
  by (simp add: pollOnce_def runCycle_def broadcast_def split_def)

end
